theory Spec2Isabelle
  imports Complex_Main
begin

section \<open>Numbers\<close>

text \<open>
  The program computes with JavaScript numbers. They are embedded as \<^typ>\<open>real\<close>, that is
  in exact arithmetic: rounding, signed zeros and NaN are outside the model. Counts
  (levels, subsets, points per subset) and indices are \<^typ>\<open>int\<close>, so that zero and
  negative requests are inputs of the model. Where the source divides by a difference
  that may be zero the quotient is an \<^typ>\<open>real option\<close>, \<open>None\<close> standing for the
  non-finite value JavaScript produces there.
\<close>

type_synonym number = real

section \<open>The iteration formulas (hopalong.ts, lines 78-90)\<close>

definition hopalong :: "number \<Rightarrow> number \<Rightarrow> number \<Rightarrow> number \<Rightarrow> number \<Rightarrow> number \<times> number" where
  "hopalong x y a b c = (y - sqrt \<bar>b * x - c\<bar> * sgn x, a - x)"

definition hopalong2 :: "number \<Rightarrow> number \<Rightarrow> number \<Rightarrow> number \<Rightarrow> number \<Rightarrow> number \<times> number" where
  "hopalong2 x y a b c =
     (y - 1 - sqrt \<bar>b * x - 1 - c\<bar> * sgn (x - 1), a - x - 1)"

subsection \<open>The formulas as the specification words them\<close>

definition spec_sign :: "real \<Rightarrow> real" where
  "spec_sign v = (if v = 0 then 0 else if v < 0 then - 1 else 1)"

definition spec_variant1 :: "real \<Rightarrow> real \<Rightarrow> real \<Rightarrow> real \<Rightarrow> real \<Rightarrow> real \<times> real" where
  "spec_variant1 x y a b c = (y - sqrt (abs (b * x - c)) * spec_sign x, a - x)"

definition spec_variant2 :: "real \<Rightarrow> real \<Rightarrow> real \<Rightarrow> real \<Rightarrow> real \<Rightarrow> real \<times> real" where
  "spec_variant2 x y a b c =
     (y - 1 - sqrt (abs (b * x - 1 - c)) * spec_sign (x - 1), a - x - 1)"

section \<open>Gamepad input mapping (gamepad.ts)\<close>

record Movement =
  mv_speed :: number
  mv_rotationSpeed :: number
  mv_x :: number
  mv_y :: number

record Bounds =
  width :: number
  height :: number

text \<open>Of a gamepad the strategies read the identity string, the axes and the buttons'
  \<open>pressed\<close> flags.\<close>

record Gamepad =
  gp_id :: string
  axes :: "number list"
  buttons :: "bool list"

text \<open>\<open>clamp(min, target, max = Infinity)\<close>: the absent third argument is \<open>None\<close>.\<close>

definition clamp :: "number \<Rightarrow> number \<Rightarrow> number option \<Rightarrow> number" where
  "clamp mn target mx = (case mx of None \<Rightarrow> max mn target | Some m \<Rightarrow> max mn (min target m))"

text \<open>\<open>deadzone(stickOffset, deadzone = 0.1)\<close>, the threshold as an explicit argument.\<close>

definition deadzone :: "number \<Rightarrow> number \<Rightarrow> number" where
  "deadzone stickOffset dz = (if \<bar>stickOffset\<bar> < dz then 0 else stickOffset - dz)"

definition DEFAULT_DEADZONE :: number where
  "DEFAULT_DEADZONE = 1 / 10"

definition exponentiate :: "number \<Rightarrow> number \<Rightarrow> number" where
  "exponentiate stickOffset base = sgn stickOffset * (base powr \<bar>stickOffset\<bar>)"

definition magnitude :: "number list \<Rightarrow> number" where
  "magnitude axs = sqrt (foldl (\<lambda>acc axis. acc + axis ^ 2) 0 axs)"

definition signedSqrt :: "number \<Rightarrow> number" where
  "signedSqrt n = sqrt \<bar>n\<bar> * sgn n"

text \<open>
  \<open>gamepad.axes[k]\<close>. An index past the end reads \<open>undefined\<close> in the source and the
  arithmetic on it gives NaN; the model returns \<open>None\<close> for the whole movement then.
\<close>

definition axis :: "Gamepad \<Rightarrow> nat \<Rightarrow> number option" where
  "axis g k = (if k < length (axes g) then Some (axes g ! k) else None)"

definition stdGamepadMovementStrategy :: "Bounds \<Rightarrow> Movement \<Rightarrow> Gamepad \<Rightarrow> Movement option" where
  "stdGamepadMovementStrategy bounds current gamepad =
     (case (axis gamepad 0, axis gamepad 1, axis gamepad 2, axis gamepad 3) of
        (Some a0, Some a1, Some a2, Some a3) \<Rightarrow>
          let leftStickHorizontal = deadzone (- a0) DEFAULT_DEADZONE;
              newRotationSpeed = leftStickHorizontal / 50;
              leftStickVertical = deadzone (- a1) DEFAULT_DEADZONE;
              leftStickMagnitude = magnitude [leftStickHorizontal, leftStickVertical];
              forwardSpeed = clamp 0 (exponentiate (leftStickMagnitude * 4) 2 * sgn leftStickVertical) None;
              rightStickHorizontal = deadzone a2 DEFAULT_DEADZONE;
              transverseSpeedX = signedSqrt rightStickHorizontal * 10;
              newX = clamp (- width bounds / 2) (transverseSpeedX + mv_x current) (Some (width bounds / 2));
              rightStickVertical = deadzone a3 DEFAULT_DEADZONE;
              transverseSpeedY = signedSqrt rightStickVertical * 10;
              newY = clamp (- height bounds / 2) (transverseSpeedY + mv_y current) (Some (height bounds / 2))
          in Some \<lparr>mv_speed = forwardSpeed, mv_rotationSpeed = newRotationSpeed,
                   mv_x = newX, mv_y = newY\<rparr>
      | _ \<Rightarrow> None)"

section \<open>Data model (types/hopalong.ts and the fields of class Hopalong)\<close>

datatype error = TypeError | RangeError

record OrbitParams =
  par_a :: number
  par_b :: number
  par_c :: number
  par_d :: number
  par_e :: number

text \<open>A \<open>Vector3\<close>. A coordinate is \<open>None\<close> when the source stores a non-finite number
  in it (the product with a scale obtained from a division by zero).\<close>

record Vector3 =
  vx :: "number option"
  vy :: "number option"
  vz :: "number option"

record SubsetPoint =
  px :: number
  py :: number
  vertex :: Vector3

record Orbit =
  subsets :: "SubsetPoint list list"
  xMin :: number
  xMax :: number
  yMin :: number
  yMax :: number
  scaleX :: "number option"
  scaleY :: "number option"

text \<open>
  The colour of a material is set by \<open>color.setHSL(...hsvToHsl(h, s, v))\<close>;
  \<open>hsvToHsl\<close> (util/color) is not part of the sources at hand, so a colour is kept as
  the three arguments it was computed from. The hue is \<open>None\<close> when \<open>hueValues[subset]\<close>
  is \<open>undefined\<close>.
\<close>

datatype Color = HSL_of_HSV "number option" number number

text \<open>
  A \<open>Points\<close> object of the rendering library: its identity, the vertex coordinates
  that \<open>setFromPoints\<close> copied into its geometry buffer, its position and its rotation
  about z.
\<close>

record Points =
  obj_id :: nat
  geometry :: "Vector3 list"
  position_x :: number
  position_y :: number
  position_z :: number
  rotation_z :: number

record ParticleSet =
  myMaterial :: Color
  myLevel :: int
  mySubset :: int
  needsUpdate :: bool
  particles :: Points

record Camera =
  cam_x :: number
  cam_y :: number
  cam_z :: number
  fov :: number

record SimSettings =
  set_speed :: number
  set_rotationSpeed :: number
  set_cameraFov :: number
  set_pointsPerSubset :: int
  set_subsetCount :: int
  set_levelCount :: int
  set_mouseLocked :: bool

text \<open>\<open>Partial<SimSettings>\<close>: an absent (\<open>undefined\<close>) field is \<open>None\<close>.\<close>

record PartialSettings =
  opt_speed :: "number option"
  opt_rotationSpeed :: "number option"
  opt_cameraFov :: "number option"
  opt_pointsPerSubset :: "int option"
  opt_subsetCount :: "int option"
  opt_levelCount :: "int option"
  opt_mouseLocked :: "bool option"

text \<open>
  The instance state of class \<open>Hopalong\<close>. Three fields are the environment made
  explicit: \<open>rand_stream\<close> holds the values the coming calls of \<open>Math.random()\<close> return,
  \<open>nextId\<close> is the identity of the next \<open>Points\<close> object allocated, and
  \<open>settingsUpdates\<close> lists the arguments of the calls made to the \<open>onSettingsUpdate\<close>
  callback, oldest first. \<open>scene\<close> is the list of children of the scene, by identity.
\<close>

record Hopalong =
  orbitParams :: OrbitParams
  camera :: Camera
  scene :: "nat list"
  hueValues :: "number list"
  mouseX :: number
  mouseY :: number
  mouseLocked :: bool
  windowHalfX :: number
  windowHalfY :: number
  speed :: number
  rotationSpeed :: number
  numPointsSubset :: int
  numSubsets :: int
  numLevels :: int
  controllerConnected :: bool
  orbit :: Orbit
  particleSets :: "ParticleSet list"
  destroyed :: bool
  rand_stream :: "nat \<Rightarrow> number"
  nextId :: nat
  settingsUpdates :: "SimSettings list"

section \<open>Constants (hopalong.ts, lines 31-66)\<close>

definition SCALE_FACTOR :: number where "SCALE_FACTOR = 1500"
definition CAMERA_BOUND :: number where "CAMERA_BOUND = 200"
definition LEVEL_DEPTH :: number where "LEVEL_DEPTH = 600"
definition DEF_BRIGHTNESS :: number where "DEF_BRIGHTNESS = 1"
definition DEF_SATURATION :: number where "DEF_SATURATION = 8 / 10"
definition A_MIN :: number where "A_MIN = - 30"
definition A_MAX :: number where "A_MAX = 30"
definition B_MIN :: number where "B_MIN = 2 / 10"
definition B_MAX :: number where "B_MAX = 18 / 10"
definition C_MIN :: number where "C_MIN = 5"
definition C_MAX :: number where "C_MAX = 17"
definition D_MIN :: number where "D_MIN = 0"
definition D_MAX :: number where "D_MAX = 10"
definition E_MIN :: number where "E_MIN = 0"
definition E_MAX :: number where "E_MAX = 12"
definition DEFAULT_SPEED :: number where "DEFAULT_SPEED = 8"
definition DEFAULT_ROTATION_SPEED :: number where "DEFAULT_ROTATION_SPEED = 5 / 1000"
definition DEFAULT_FOV :: number where "DEFAULT_FOV = 60"
definition DEFAULT_POINTS_SUBSET :: int where "DEFAULT_POINTS_SUBSET = 4000"
definition DEFAULT_SUBSETS :: int where "DEFAULT_SUBSETS = 7"
definition DEFAULT_LEVELS :: int where "DEFAULT_LEVELS = 7"
definition SPEED_DELTA :: number where "SPEED_DELTA = 25 / 100"
definition SPEED_DELTA_EXTRA :: number where "SPEED_DELTA_EXTRA = SPEED_DELTA * 4"
definition ROTATION_DELTA :: number where "ROTATION_DELTA = 5 / 10000"
definition ROTATION_DELTA_EXTRA :: number where "ROTATION_DELTA_EXTRA = ROTATION_DELTA * 4"
definition POINTS_DELTA :: int where "POINTS_DELTA = 1000"
definition FOV_DELTA :: number where "FOV_DELTA = 2"

section \<open>Loops, array reads and the random source\<close>

text \<open>\<open>for (let i = i0; i < n; i++) body\<close>, where the body may throw.\<close>

function for_loop :: "int \<Rightarrow> int \<Rightarrow> (int \<Rightarrow> 's \<Rightarrow> error + 's) \<Rightarrow> 's \<Rightarrow> error + 's" where
  "for_loop i n body s =
     (if i < n then (case body i s of Inl e \<Rightarrow> Inl e | Inr s' \<Rightarrow> for_loop (i + 1) n body s')
      else Inr s)"
  by pat_completeness auto
termination
  by (relation "measure (\<lambda>(i, n, body, s). nat (n - i))") auto

declare for_loop.simps [simp del]

text \<open>The same loop for a body that cannot throw.\<close>

function for_pure :: "int \<Rightarrow> int \<Rightarrow> (int \<Rightarrow> 's \<Rightarrow> 's) \<Rightarrow> 's \<Rightarrow> 's" where
  "for_pure i n body s = (if i < n then for_pure (i + 1) n body (body i s) else s)"
  by pat_completeness auto
termination
  by (relation "measure (\<lambda>(i, n, body, s). nat (n - i))") auto

declare for_pure.simps [simp del]

text \<open>\<open>xs[i]\<close> for an integer \<open>i\<close>: \<open>None\<close> is \<open>undefined\<close>.\<close>

definition nth_opt :: "'a list \<Rightarrow> int \<Rightarrow> 'a option" where
  "nth_opt xs i = (if 0 \<le> i \<and> nat i < length xs then Some (xs ! nat i) else None)"

text \<open>\<open>v || d\<close> on an optional number: \<open>undefined\<close> and 0 are falsy.\<close>

definition js_or :: "'a::zero option \<Rightarrow> 'a \<Rightarrow> 'a" where
  "js_or v d = (case v of None \<Rightarrow> d | Some w \<Rightarrow> if w = 0 then d else w)"

text \<open>\<open>n / d\<close>, finite only when \<open>d\<close> is not 0.\<close>

definition js_div :: "number \<Rightarrow> number \<Rightarrow> number option" where
  "js_div n d = (if d = 0 then None else Some (n / d))"

definition Math_random :: "Hopalong \<Rightarrow> number \<times> Hopalong" where
  "Math_random st = (rand_stream st 0, st\<lparr>rand_stream := (\<lambda>n. rand_stream st (Suc n))\<rparr>)"

section \<open>Orbit generator (hopalong.ts, lines 166-180 and 379-478)\<close>

definition zero_point :: SubsetPoint where
  "zero_point = \<lparr>px = 0, py = 0, vertex = \<lparr>vx = Some 0, vy = Some 0, vz = Some 0\<rparr>\<rparr>"

text \<open>In \<open>initOrbit\<close> the store \<open>subsetPoints[j] = ...\<close> is at \<open>j = subsetPoints.length\<close> in
  every iteration, so it appends.\<close>

definition initOrbit :: "Hopalong \<Rightarrow> int \<Rightarrow> int \<Rightarrow> Hopalong" where
  "initOrbit st numSubsets' numPointsSubset' =
     st\<lparr>orbit := (orbit st)\<lparr>subsets :=
        for_pure 0 numSubsets'
          (\<lambda>i subs. subs @ [for_pure 0 numPointsSubset' (\<lambda>j subsetPoints. subsetPoints @ [zero_point]) []])
          []\<rparr>\<rparr>"

definition shuffleParams :: "Hopalong \<Rightarrow> Hopalong" where
  "shuffleParams st0 =
     (let (r1, st1) = Math_random st0;
          (r2, st2) = Math_random st1;
          (r3, st3) = Math_random st2;
          (r4, st4) = Math_random st3;
          (r5, st5) = Math_random st4
      in st5\<lparr>orbitParams :=
           \<lparr>par_a = A_MIN + r1 * (A_MAX - A_MIN),
            par_b = B_MIN + r2 * (B_MAX - B_MIN),
            par_c = C_MIN + r3 * (C_MAX - C_MIN),
            par_d = D_MIN + r4 * (D_MAX - D_MIN),
            par_e = E_MIN + r5 * (E_MAX - E_MIN)\<rparr>\<rparr>)"

definition prepareOrbit :: "Hopalong \<Rightarrow> Hopalong" where
  "prepareOrbit st =
     (let st1 = shuffleParams st
      in st1\<lparr>orbit := (orbit st1)\<lparr>xMin := 0, xMax := 0, yMin := 0, yMax := 0\<rparr>\<rparr>)"

definition generateHues :: "Hopalong \<Rightarrow> int \<Rightarrow> error + Hopalong" where
  "generateHues st numSubsets' =
     (if numSubsets' < 0 then Inl RangeError
      else Inr (st\<lparr>hueValues := map (rand_stream st) [0..<nat numSubsets'],
                   rand_stream := (\<lambda>n. rand_stream st (nat numSubsets' + n))\<rparr>))"

text \<open>The local variables \<open>xMin, xMax, yMin, yMax\<close> of \<open>generateOrbit\<close>.\<close>

record Extents =
  l_xMin :: number
  l_xMax :: number
  l_yMin :: number
  l_yMax :: number

text \<open>Lines 429-438: the two \<open>if / else if\<close> updates of the running extents.\<close>

definition track_extents :: "Extents \<Rightarrow> number \<Rightarrow> number \<Rightarrow> Extents" where
  "track_extents e x y =
     (let e1 = (if x < l_xMin e then e\<lparr>l_xMin := x\<rparr>
                else if x > l_xMax e then e\<lparr>l_xMax := x\<rparr> else e)
      in (if y < l_yMin e1 then e1\<lparr>l_yMin := y\<rparr>
          else if y > l_yMax e1 then e1\<lparr>l_yMax := y\<rparr> else e1))"

text \<open>Lines 419-439, one iteration of the inner loop; the loop state is
  \<open>(x, y, curSubset, extents)\<close>. Writing to \<open>curSubset[i]\<close> throws when there is no such
  element.\<close>

definition orbit_point_step ::
  "number \<Rightarrow> number \<Rightarrow> number \<Rightarrow> int \<Rightarrow> number \<times> number \<times> SubsetPoint list \<times> Extents
     \<Rightarrow> error + number \<times> number \<times> SubsetPoint list \<times> Extents" where
  "orbit_point_step a b c i = (\<lambda>(x, y, curSubset, e).
     let (xn, yn) = hopalong x y a b c
     in (case nth_opt curSubset i of
           None \<Rightarrow> Inl TypeError
         | Some p \<Rightarrow> Inr (xn, yn, curSubset[nat i := p\<lparr>px := xn, py := yn\<rparr>], track_extents e xn yn)))"

text \<open>Lines 412-413: the starting coordinate \<open>s * 0.005 * (0.5 - Math.random())\<close> of
  subset \<open>s\<close>, for the value \<open>r\<close> drawn.\<close>

definition subset_seed :: "int \<Rightarrow> number \<Rightarrow> number" where
  "subset_seed s r = of_int s * (5 / 1000) * (1 / 2 - r)"

text \<open>Lines 410-440, one iteration of the outer loop; the loop state is the instance
  (for the random source and the subsets) and the extents. When \<open>subsets[s]\<close> is
  \<open>undefined\<close> the first write of the inner loop throws.\<close>

definition orbit_subset_step ::
  "int \<Rightarrow> number \<Rightarrow> number \<Rightarrow> number \<Rightarrow> int \<Rightarrow> Hopalong \<times> Extents \<Rightarrow> error + Hopalong \<times> Extents" where
  "orbit_subset_step numPointsSubset' a b c s = (\<lambda>(st, e).
     let (r1, st1) = Math_random st;
         x = subset_seed s r1;
         (r2, st2) = Math_random st1;
         y = subset_seed s r2
     in (case nth_opt (subsets (orbit st2)) s of
           None \<Rightarrow> if 0 < numPointsSubset' then Inl TypeError else Inr (st2, e)
         | Some curSubset \<Rightarrow>
             (case for_loop 0 numPointsSubset' (orbit_point_step a b c) (x, y, curSubset, e) of
                Inl err \<Rightarrow> Inl err
              | Inr (x', y', curSubset', e') \<Rightarrow>
                  Inr (st2\<lparr>orbit := (orbit st2)\<lparr>subsets := (subsets (orbit st2))[nat s := curSubset']\<rparr>\<rparr>,
                       e'))))"

text \<open>Lines 455-458, one iteration of the inner normalisation loop.\<close>

definition normalize_point_step ::
  "number option \<Rightarrow> number option \<Rightarrow> number \<Rightarrow> number \<Rightarrow> int \<Rightarrow> SubsetPoint list
     \<Rightarrow> error + SubsetPoint list" where
  "normalize_point_step sX sY xMin' yMin' i curSubset =
     (case nth_opt curSubset i of
        None \<Rightarrow> Inl TypeError
      | Some p \<Rightarrow>
          Inr (curSubset[nat i := p\<lparr>vertex := (vertex p)
                 \<lparr>vx := map_option (\<lambda>sc. sc * (px p - xMin') - SCALE_FACTOR) sX,
                  vy := map_option (\<lambda>sc. sc * (py p - yMin') - SCALE_FACTOR) sY\<rparr>\<rparr>]))"

text \<open>Lines 453-459, one iteration of the outer normalisation loop.\<close>

definition normalize_subset_step ::
  "int \<Rightarrow> number option \<Rightarrow> number option \<Rightarrow> number \<Rightarrow> number \<Rightarrow> int \<Rightarrow> Hopalong \<Rightarrow> error + Hopalong" where
  "normalize_subset_step numPointsSubset' sX sY xMin' yMin' s st =
     (case nth_opt (subsets (orbit st)) s of
        None \<Rightarrow> if 0 < numPointsSubset' then Inl TypeError else Inr st
      | Some curSubset \<Rightarrow>
          (case for_loop 0 numPointsSubset' (normalize_point_step sX sY xMin' yMin') curSubset of
             Inl err \<Rightarrow> Inl err
           | Inr curSubset' \<Rightarrow>
               Inr (st\<lparr>orbit := (orbit st)\<lparr>subsets := (subsets (orbit st))[nat s := curSubset']\<rparr>\<rparr>)))"

text \<open>\<open>generateOrbit(numSubsets, numPointsSubset)\<close>. The first pass runs over the
  argument \<open>numSubsets\<close>, the normalisation pass over the field \<open>this.numSubsets\<close>, as in
  the source.\<close>

definition generateOrbit :: "Hopalong \<Rightarrow> int \<Rightarrow> int \<Rightarrow> error + Hopalong" where
  "generateOrbit st0 numSubsets' numPointsSubset' =
     (let st1 = prepareOrbit st0;
          a = par_a (orbitParams st1);
          b = par_b (orbitParams st1);
          c = par_c (orbitParams st1);
          (choice, st2) = Math_random st1
      in (case for_loop 0 numSubsets' (orbit_subset_step numPointsSubset' a b c)
                 (st2, \<lparr>l_xMin = 0, l_xMax = 0, l_yMin = 0, l_yMax = 0\<rparr>) of
            Inl err \<Rightarrow> Inl err
          | Inr (st3, e) \<Rightarrow>
              let sX = js_div (2 * SCALE_FACTOR) (l_xMax e - l_xMin e);
                  sY = js_div (2 * SCALE_FACTOR) (l_yMax e - l_yMin e);
                  st4 = st3\<lparr>orbit := (orbit st3)
                          \<lparr>xMin := l_xMin e, xMax := l_xMax e, yMin := l_yMin e, yMax := l_yMax e,
                           scaleX := sX, scaleY := sY\<rparr>\<rparr>
              in for_loop 0 (numSubsets st4)
                   (normalize_subset_step numPointsSubset' sX sY (l_xMin e) (l_yMin e)) st4))"

definition updateOrbit :: "Hopalong \<Rightarrow> error + Hopalong" where
  "updateOrbit st =
     (case generateOrbit st (numSubsets st) (numPointsSubset st) of
        Inl err \<Rightarrow> Inl err
      | Inr st1 \<Rightarrow>
          (case generateHues st1 (numSubsets st1) of
             Inl err \<Rightarrow> Inl err
           | Inr st2 \<Rightarrow>
               Inr (st2\<lparr>particleSets := map (\<lambda>particleSet. particleSet\<lparr>needsUpdate := True\<rparr>)
                                             (particleSets st2)\<rparr>)))"

section \<open>Particle sets and the frame step (hopalong.ts, lines 261-297 and 322-373)\<close>

text \<open>
  \<open>generateParticleSet(level, subset)\<close>. \<open>this.orbit.subsets[subset].map(...)\<close> throws
  when there is no such subset. \<open>setFromPoints\<close> copies the coordinates of the vertices
  into the geometry; \<open>scene.add\<close> appends the new object to the children of the scene.
  The division by \<open>this.numSubsets\<close> is by a non-zero number wherever the function is
  called (\<open>0 \<le> subset < this.numSubsets\<close>).
\<close>

definition generateParticleSet :: "Hopalong \<Rightarrow> int \<Rightarrow> int \<Rightarrow> error + Hopalong" where
  "generateParticleSet st level subset' =
     (case nth_opt (subsets (orbit st)) subset' of
        None \<Rightarrow> Inl TypeError
      | Some pts \<Rightarrow>
          let vertices = map vertex pts;
              materials = HSL_of_HSV (nth_opt (hueValues st) subset') DEF_SATURATION DEF_BRIGHTNESS;
              particles' = \<lparr>obj_id = nextId st, geometry = vertices,
                            position_x = 0, position_y = 0,
                            position_z = - LEVEL_DEPTH * of_int level
                                         - (of_int subset' * LEVEL_DEPTH) / of_int (numSubsets st)
                                         + SCALE_FACTOR / 2,
                            rotation_z = 0\<rparr>;
              particleSet = \<lparr>myMaterial = materials, myLevel = level, mySubset = subset',
                             needsUpdate = False, particles = particles'\<rparr>
          in Inr (st\<lparr>scene := scene st @ [obj_id particles'],
                      particleSets := particleSets st @ [particleSet],
                      nextId := Suc (nextId st)\<rparr>))"

text \<open>Lines 209-213 and 251-257: the two nested loops over levels and subsets; \<open>wanted\<close>
  decides for which pairs a particle set is generated. The bounds \<open>this.numLevels\<close> and
  \<open>this.numSubsets\<close> are not changed by the body.\<close>

definition generate_sets_loop :: "(int \<Rightarrow> int \<Rightarrow> bool) \<Rightarrow> Hopalong \<Rightarrow> error + Hopalong" where
  "generate_sets_loop wanted st =
     for_loop 0 (numLevels st)
       (\<lambda>k. for_loop 0 (numSubsets st)
               (\<lambda>s st'. if wanted k s then generateParticleSet st' k s else Inr st'))
       st"

text \<open>\<open>for (const x of xs) body\<close> where the body updates \<open>x\<close> in place and may throw.\<close>

fun for_of :: "('a \<Rightarrow> error + 'a) \<Rightarrow> 'a list \<Rightarrow> error + 'a list" where
  "for_of body [] = Inr []"
| "for_of body (x # xs) =
     (case body x of
        Inl e \<Rightarrow> Inl e
      | Inr x' \<Rightarrow> (case for_of body xs of Inl e \<Rightarrow> Inl e | Inr xs' \<Rightarrow> Inr (x' # xs')))"

text \<open>Lines 323-331 (and 332-340): one camera coordinate eased toward its target.\<close>

definition ease_axis :: "number \<Rightarrow> number \<Rightarrow> number" where
  "ease_axis pos target =
     (if - CAMERA_BOUND \<le> pos \<and> pos \<le> CAMERA_BOUND then
        let p1 = pos + (target - pos) * (5 / 100);
            p2 = (if p1 < - CAMERA_BOUND then - CAMERA_BOUND else p1)
        in (if p2 > CAMERA_BOUND then CAMERA_BOUND else p2)
      else pos)"

text \<open>Lines 347-369: the body of the loop over the particle sets.\<close>

definition render_particleSet :: "Hopalong \<Rightarrow> ParticleSet \<Rightarrow> error + ParticleSet" where
  "render_particleSet st particleSet =
     (let particles1 = (particles particleSet)
            \<lparr>position_z := position_z (particles particleSet) + speed st,
             rotation_z := rotation_z (particles particleSet) + rotationSpeed st\<rparr>
      in if position_z particles1 > cam_z (camera st) then
           let particles2 = particles1\<lparr>position_z := - (of_int (numLevels st) - 1) * LEVEL_DEPTH\<rparr>
           in if needsUpdate particleSet then
                (case nth_opt (subsets (orbit st)) (mySubset particleSet) of
                   None \<Rightarrow> Inl TypeError
                 | Some pts \<Rightarrow>
                     Inr (particleSet
                           \<lparr>particles := particles2\<lparr>geometry := map vertex pts\<rparr>,
                            myMaterial := HSL_of_HSV (nth_opt (hueValues st) (mySubset particleSet))
                                            DEF_SATURATION DEF_BRIGHTNESS,
                            needsUpdate := False\<rparr>))
              else Inr (particleSet\<lparr>particles := particles2\<rparr>)
         else Inr (particleSet\<lparr>particles := particles1\<rparr>))"

definition getMouseX :: "Hopalong \<Rightarrow> number" where "getMouseX st = mouseX st"
definition getMouseY :: "Hopalong \<Rightarrow> number" where "getMouseY st = mouseY st"

definition render :: "Hopalong \<Rightarrow> error + Hopalong" where
  "render st =
     (let st1 = st\<lparr>camera := (camera st)
                    \<lparr>cam_x := ease_axis (cam_x (camera st)) (getMouseX st),
                     cam_y := ease_axis (cam_y (camera st)) (- getMouseY st)\<rparr>\<rparr>
      in (case for_of (render_particleSet st1) (particleSets st1) of
            Inl err \<Rightarrow> Inl err
          | Inr sets \<Rightarrow> Inr (st1\<lparr>particleSets := sets\<rparr>)))"

definition animate :: "Hopalong \<Rightarrow> error + Hopalong" where
  "animate st = (if destroyed st then Inr st else render st)"

section \<open>Settings (hopalong.ts, lines 222-259 and 512-620)\<close>

definition getSettings :: "Hopalong \<Rightarrow> SimSettings" where
  "getSettings st =
     \<lparr>set_speed = speed st, set_rotationSpeed = rotationSpeed st, set_cameraFov = fov (camera st),
      set_pointsPerSubset = numPointsSubset st, set_subsetCount = numSubsets st,
      set_levelCount = numLevels st, set_mouseLocked = mouseLocked st\<rparr>"

definition fireSettingsChange :: "Hopalong \<Rightarrow> Hopalong" where
  "fireSettingsChange st = st\<lparr>settingsUpdates := settingsUpdates st @ [getSettings st]\<rparr>"

text \<open>Lines 237-257 of \<open>setLevelSubsetCount\<close>: particle sets out of range are removed
  from the scene and dropped, missing ones are generated. \<open>scene.remove\<close> takes the object
  out of the children of the scene. The keys \<open>`${myLevel}-${mySubset}`\<close> of the set
  \<open>exists\<close> are kept as pairs: the string is an injective image of the pair of integers.\<close>

definition reconcile :: "Hopalong \<Rightarrow> error + Hopalong" where
  "reconcile st =
     (let keep = (\<lambda>particleSet. myLevel particleSet < numLevels st \<and> mySubset particleSet < numSubsets st);
          removed = filter (\<lambda>particleSet. \<not> keep particleSet) (particleSets st);
          kept = filter keep (particleSets st);
          exists = map (\<lambda>particleSet. (myLevel particleSet, mySubset particleSet)) kept;
          st1 = st\<lparr>scene := fold (\<lambda>particleSet. remove1 (obj_id (particles particleSet))) removed (scene st),
                    particleSets := kept\<rparr>
      in generate_sets_loop (\<lambda>k s. (k, s) \<notin> set exists) st1)"

definition setLevelSubsetCount :: "Hopalong \<Rightarrow> PartialSettings \<Rightarrow> error + Hopalong" where
  "setLevelSubsetCount st partialSettings =
     (let levelCount = opt_levelCount partialSettings;
          pointsPerSubset = opt_pointsPerSubset partialSettings;
          subsetCount = opt_subsetCount partialSettings;
          st1 = st\<lparr>numLevels := js_or levelCount (numLevels st),
                    numSubsets := js_or subsetCount (numSubsets st),
                    numPointsSubset := js_or pointsPerSubset (numPointsSubset st)\<rparr>
      in (case (if subsetCount \<noteq> None \<or> pointsPerSubset \<noteq> None
                then updateOrbit (initOrbit st1 (numSubsets st1) (numPointsSubset st1))
                else Inr st1) of
            Inl err \<Rightarrow> Inl err
          | Inr st2 \<Rightarrow>
              (case reconcile st2 of
                 Inl err \<Rightarrow> Inl err
               | Inr st3 \<Rightarrow> Inr (fireSettingsChange st3))))"

definition no_settings :: PartialSettings where
  "no_settings = \<lparr>opt_speed = None, opt_rotationSpeed = None, opt_cameraFov = None,
                  opt_pointsPerSubset = None, opt_subsetCount = None, opt_levelCount = None,
                  opt_mouseLocked = None\<rparr>"

definition setMouseLock :: "Hopalong \<Rightarrow> bool option \<Rightarrow> Hopalong" where
  "setMouseLock st locked =
     fireSettingsChange
       (case locked of None \<Rightarrow> st\<lparr>mouseLocked := \<not> mouseLocked st\<rparr>
                     | Some l \<Rightarrow> st\<lparr>mouseLocked := l\<rparr>)"

definition recenterCamera :: "Hopalong \<Rightarrow> Hopalong" where
  "recenterCamera st =
     setMouseLock (st\<lparr>camera := (camera st)\<lparr>cam_x := 0, cam_y := 0\<rparr>, mouseX := 0, mouseY := 0\<rparr>)
       (Some True)"

definition setCameraFOV :: "Hopalong \<Rightarrow> number \<Rightarrow> Hopalong" where
  "setCameraFOV st fov' = fireSettingsChange (st\<lparr>camera := (camera st)\<lparr>fov := fov'\<rparr>\<rparr>)"

definition applySettings :: "Hopalong \<Rightarrow> PartialSettings \<Rightarrow> error + Hopalong" where
  "applySettings st settings =
     (let st1 = (case opt_speed settings of None \<Rightarrow> st | Some v \<Rightarrow> st\<lparr>speed := v\<rparr>);
          st2 = (case opt_rotationSpeed settings of None \<Rightarrow> st1 | Some v \<Rightarrow> st1\<lparr>rotationSpeed := v\<rparr>);
          st3 = (case opt_mouseLocked settings of None \<Rightarrow> st2 | Some v \<Rightarrow> st2\<lparr>mouseLocked := v\<rparr>);
          st4 = (case opt_cameraFov settings of None \<Rightarrow> st3 | Some v \<Rightarrow> setCameraFOV st3 v);
          advancedSettings = no_settings\<lparr>opt_levelCount := opt_levelCount settings,
                                          opt_subsetCount := opt_subsetCount settings,
                                          opt_pointsPerSubset := opt_pointsPerSubset settings\<rparr>
      in if opt_levelCount settings \<noteq> None \<or> opt_subsetCount settings \<noteq> None
            \<or> opt_pointsPerSubset settings \<noteq> None
         then setLevelSubsetCount st4 advancedSettings
         else Inr st4)"

definition changeFov :: "Hopalong \<Rightarrow> number \<Rightarrow> Hopalong" where
  "changeFov st delta = setCameraFOV st (fov (camera st) + delta)"

definition changeSpeed :: "Hopalong \<Rightarrow> number \<Rightarrow> Hopalong" where
  "changeSpeed st delta =
     (let newSpeed = speed st + delta
      in fireSettingsChange (if newSpeed \<ge> 0 then st\<lparr>speed := newSpeed\<rparr> else st\<lparr>speed := 0\<rparr>))"

definition changeRotationSpeed :: "Hopalong \<Rightarrow> number \<Rightarrow> Hopalong" where
  "changeRotationSpeed st delta = fireSettingsChange (st\<lparr>rotationSpeed := rotationSpeed st + delta\<rparr>)"

definition changeLevelSubset :: "Hopalong \<Rightarrow> int \<Rightarrow> error + Hopalong" where
  "changeLevelSubset st delta =
     setLevelSubsetCount st
       (no_settings\<lparr>opt_levelCount := Some (numLevels st + delta),
                    opt_subsetCount := Some (numSubsets st + delta)\<rparr>)"

definition changePointsPerSubset :: "Hopalong \<Rightarrow> int \<Rightarrow> error + Hopalong" where
  "changePointsPerSubset st delta =
     setLevelSubsetCount st
       (no_settings\<lparr>opt_pointsPerSubset := Some (numPointsSubset st + delta)\<rparr>)"

definition resetDefaults :: "Hopalong \<Rightarrow> error + Hopalong" where
  "resetDefaults st =
     (case setLevelSubsetCount
             (st\<lparr>speed := DEFAULT_SPEED, rotationSpeed := DEFAULT_ROTATION_SPEED,
                 camera := (camera st)\<lparr>fov := DEFAULT_FOV\<rparr>, mouseLocked := False\<rparr>)
             (no_settings\<lparr>opt_levelCount := Some DEFAULT_LEVELS,
                          opt_subsetCount := Some DEFAULT_SUBSETS,
                          opt_pointsPerSubset := Some DEFAULT_POINTS_SUBSET\<rparr>) of
        Inl err \<Rightarrow> Inl err
      | Inr st1 \<Rightarrow> Inr (fireSettingsChange st1))"

section \<open>Event listeners (hopalong.ts, lines 484-510, 666-689 and 731-738)\<close>

definition onDocumentMouseMove :: "Hopalong \<Rightarrow> number \<Rightarrow> number \<Rightarrow> Hopalong" where
  "onDocumentMouseMove st clientX clientY =
     (if mouseLocked st then st
      else st\<lparr>mouseX := clientX - windowHalfX st, mouseY := clientY - windowHalfY st\<rparr>)"

text \<open>A touch event is given by the \<open>(pageX, pageY)\<close> of its touches.\<close>

definition onDocumentTouchStart :: "Hopalong \<Rightarrow> (number \<times> number) list \<Rightarrow> Hopalong" where
  "onDocumentTouchStart st touches =
     (if mouseLocked st then st
      else if length touches = 1
           then st\<lparr>mouseX := fst (touches ! 0) - windowHalfX st,
                   mouseY := snd (touches ! 0) - windowHalfY st\<rparr>
           else st)"

definition onDocumentTouchMove :: "Hopalong \<Rightarrow> (number \<times> number) list \<Rightarrow> Hopalong" where
  "onDocumentTouchMove st touches =
     (if mouseLocked st then st
      else if length touches = 1
           then st\<lparr>mouseX := fst (touches ! 0) - windowHalfX st,
                   mouseY := snd (touches ! 0) - windowHalfY st\<rparr>
           else st)"

definition stopMovement :: "Hopalong \<Rightarrow> Hopalong" where
  "stopMovement st = st\<lparr>speed := 0, rotationSpeed := 0\<rparr>"

definition initGamepadMode :: "Hopalong \<Rightarrow> Hopalong" where
  "initGamepadMode st = recenterCamera (stopMovement (st\<lparr>controllerConnected := True\<rparr>))"

definition onControllerConnected :: "Hopalong \<Rightarrow> Hopalong" where
  "onControllerConnected st = initGamepadMode (st\<lparr>controllerConnected := True\<rparr>)"

definition onControllerDisconnected :: "Hopalong \<Rightarrow> Hopalong" where
  "onControllerDisconnected st = st\<lparr>controllerConnected := False\<rparr>"

text \<open>\<open>onWindowResize\<close>, for the \<open>window.innerWidth\<close> and \<open>window.innerHeight\<close> it reads.\<close>

definition onWindowResize :: "Hopalong \<Rightarrow> number \<Rightarrow> number \<Rightarrow> Hopalong" where
  "onWindowResize st innerWidth innerHeight =
     st\<lparr>windowHalfX := innerWidth / 2, windowHalfY := innerHeight / 2\<rparr>"

section \<open>Construction (hopalong.ts, lines 93-158 and 182-220)\<close>

text \<open>The field initialisers and the assignments of the constructor before
  \<open>initOrbit\<close>. The camera and the scene are created by \<open>init\<close>; until then the record
  holds zeros and an empty scene for them.\<close>

definition initial_fields :: "PartialSettings \<Rightarrow> number \<Rightarrow> number \<Rightarrow> (nat \<Rightarrow> number) \<Rightarrow> Hopalong" where
  "initial_fields settings innerWidth innerHeight rnd =
     \<lparr>orbitParams = \<lparr>par_a = 0, par_b = 0, par_c = 0, par_d = 0, par_e = 0\<rparr>,
      camera = \<lparr>cam_x = 0, cam_y = 0, cam_z = 0, fov = 0\<rparr>,
      scene = [],
      hueValues = [],
      mouseX = 0, mouseY = 0,
      mouseLocked = (case opt_mouseLocked settings of None \<Rightarrow> False | Some l \<Rightarrow> l),
      windowHalfX = innerWidth / 2, windowHalfY = innerHeight / 2,
      speed = js_or (opt_speed settings) DEFAULT_SPEED,
      rotationSpeed = js_or (opt_rotationSpeed settings) DEFAULT_ROTATION_SPEED,
      numPointsSubset = js_or (opt_pointsPerSubset settings) DEFAULT_POINTS_SUBSET,
      numSubsets = js_or (opt_subsetCount settings) DEFAULT_SUBSETS,
      numLevels = js_or (opt_levelCount settings) DEFAULT_LEVELS,
      controllerConnected = False,
      orbit = \<lparr>subsets = [], xMin = 0, xMax = 0, yMin = 0, yMax = 0,
               scaleX = Some 0, scaleY = Some 0\<rparr>,
      particleSets = [],
      destroyed = False,
      rand_stream = rnd,
      nextId = 0,
      settingsUpdates = []\<rparr>"

definition init :: "Hopalong \<Rightarrow> number \<Rightarrow> number \<Rightarrow> error + Hopalong" where
  "init st innerWidth innerHeight =
     (let st1 = st\<lparr>camera := \<lparr>cam_x = 0, cam_y = 0, cam_z = SCALE_FACTOR / 2, fov = DEFAULT_FOV\<rparr>,
                   scene := []\<rparr>
      in (case generateOrbit st1 (numSubsets st1) (numPointsSubset st1) of
            Inl err \<Rightarrow> Inl err
          | Inr st2 \<Rightarrow>
              (case generateHues st2 (numSubsets st2) of
                 Inl err \<Rightarrow> Inl err
               | Inr st3 \<Rightarrow>
                   (case generate_sets_loop (\<lambda>k s. True) st3 of
                      Inl err \<Rightarrow> Inl err
                    | Inr st4 \<Rightarrow> Inr (onWindowResize st4 innerWidth innerHeight)))))"

text \<open>\<open>new Hopalong({settings, ...})\<close> in a window of the given inner size, with the
  given random source. The constructor runs \<open>animate\<close>, hence one frame step, before it
  stores the callback and reports the settings.\<close>

definition Hopalong_new :: "PartialSettings \<Rightarrow> number \<Rightarrow> number \<Rightarrow> (nat \<Rightarrow> number) \<Rightarrow> error + Hopalong" where
  "Hopalong_new settings innerWidth innerHeight rnd =
     (let st0 = initial_fields settings innerWidth innerHeight rnd;
          st1 = initOrbit st0 (numSubsets st0) (numPointsSubset st0)
      in (case init st1 innerWidth innerHeight of
            Inl err \<Rightarrow> Inl err
          | Inr st2 \<Rightarrow>
              (case animate st2 of
                 Inl err \<Rightarrow> Inl err
               | Inr st3 \<Rightarrow> Inr (fireSettingsChange st3))))"

section \<open>Auxiliary notions for the proofs\<close>

text \<open>The raw coordinates of a point.\<close>

definition raw :: "SubsetPoint \<Rightarrow> number \<times> number" where
  "raw p = (px p, py p)"

text \<open>Running extents that contain 0 on both axes.\<close>

definition ext_ok :: "Extents \<Rightarrow> bool" where
  "ext_ok e = (l_xMin e \<le> 0 \<and> 0 \<le> l_xMax e \<and> l_yMin e \<le> 0 \<and> 0 \<le> l_yMax e)"

text \<open>The second extents enclose the first.\<close>

definition ext_le :: "Extents \<Rightarrow> Extents \<Rightarrow> bool" where
  "ext_le e e' = (l_xMin e' \<le> l_xMin e \<and> l_xMax e \<le> l_xMax e' \<and> l_yMin e' \<le> l_yMin e \<and> l_yMax e \<le> l_yMax e')"

text \<open>A point lies within the extents.\<close>

definition in_extents :: "Extents \<Rightarrow> SubsetPoint \<Rightarrow> bool" where
  "in_extents e p = (l_xMin e \<le> px p \<and> px p \<le> l_xMax e \<and> l_yMin e \<le> py p \<and> py p \<le> l_yMax e)"

text \<open>Invariant of the inner loop of the first pass, started at index \<open>i\<close> on the subset
  \<open>cur\<close> with extents \<open>e\<close>, before iteration \<open>j\<close>.\<close>

definition pts_inv ::
  "int \<Rightarrow> SubsetPoint list \<Rightarrow> Extents \<Rightarrow> int \<Rightarrow> number \<times> number \<times> SubsetPoint list \<times> Extents \<Rightarrow> bool" where
  "pts_inv i cur e j = (\<lambda>(x', y', c', e').
     length c' = length cur \<and> ext_ok e' \<and> ext_le e e' \<and>
     (\<forall>k. i \<le> int k \<and> int k < j \<longrightarrow> in_extents e' (c' ! k)) \<and>
     (\<forall>k. \<not> (i \<le> int k \<and> int k < j) \<longrightarrow> c' ! k = cur ! k) \<and>
     map vertex c' = map vertex cur)"

text \<open>Only the subsets of the orbit and the random source differ between two states.\<close>

definition frame_orbit :: "Hopalong \<Rightarrow> Hopalong \<Rightarrow> bool" where
  "frame_orbit st st' = (\<exists>subs r. st' = st\<lparr>orbit := (orbit st)\<lparr>subsets := subs\<rparr>, rand_stream := r\<rparr>)"

text \<open>Invariant of the outer loop of the first pass, started at index \<open>i0\<close>, before
  iteration \<open>s\<close>.\<close>

definition subs_inv ::
  "int \<Rightarrow> int \<Rightarrow> Hopalong \<Rightarrow> Extents \<Rightarrow> int \<Rightarrow> Hopalong \<times> Extents \<Rightarrow> bool" where
  "subs_inv N i0 st0 e0 s = (\<lambda>(st', e').
     frame_orbit st0 st' \<and>
     map length (subsets (orbit st')) = map length (subsets (orbit st0)) \<and>
     ext_ok e' \<and> ext_le e0 e' \<and>
     (\<forall>j k. i0 \<le> int j \<and> int j < s \<and> k < nat N \<longrightarrow> in_extents e' (subsets (orbit st') ! j ! k)) \<and>
     (\<forall>j. \<not> (i0 \<le> int j \<and> int j < s) \<longrightarrow> subsets (orbit st') ! j = subsets (orbit st0) ! j) \<and>
     map (map vertex) (subsets (orbit st')) = map (map vertex) (subsets (orbit st0)))"

text \<open>A point after lines 456-457.\<close>

definition normalized :: "number option \<Rightarrow> number option \<Rightarrow> number \<Rightarrow> number \<Rightarrow> SubsetPoint \<Rightarrow> SubsetPoint" where
  "normalized sX sY xm ym p =
     p\<lparr>vertex := (vertex p)
         \<lparr>vx := map_option (\<lambda>sc. sc * (px p - xm) - SCALE_FACTOR) sX,
          vy := map_option (\<lambda>sc. sc * (py p - ym) - SCALE_FACTOR) sY\<rparr>\<rparr>"

text \<open>Invariants of the inner and the outer loop of the normalisation pass.\<close>

definition npts_inv :: "number option \<Rightarrow> number option \<Rightarrow> number \<Rightarrow> number \<Rightarrow> SubsetPoint list \<Rightarrow> int \<Rightarrow> SubsetPoint list \<Rightarrow> bool" where
  "npts_inv sX sY xm ym cur j c' =
     (length c' = length cur \<and>
      (\<forall>k. int k < j \<longrightarrow> c' ! k = normalized sX sY xm ym (cur ! k)) \<and>
      (\<forall>k. \<not> int k < j \<longrightarrow> c' ! k = cur ! k))"

definition nsubs_inv ::
  "int \<Rightarrow> number option \<Rightarrow> number option \<Rightarrow> number \<Rightarrow> number \<Rightarrow> Hopalong \<Rightarrow> int \<Rightarrow> Hopalong \<Rightarrow> bool" where
  "nsubs_inv N sX sY xm ym st0 s st' =
     (frame_orbit st0 st' \<and> rand_stream st' = rand_stream st0 \<and>
      length (subsets (orbit st')) = length (subsets (orbit st0)) \<and>
      (\<forall>j. int j < s \<longrightarrow> npts_inv sX sY xm ym (subsets (orbit st0) ! j) (max 0 N) (subsets (orbit st') ! j)) \<and>
      (\<forall>j. \<not> int j < s \<longrightarrow> subsets (orbit st') ! j = subsets (orbit st0) ! j))"

text \<open>The first \<open>n\<close> iterates of \<open>hopalong\<close> after the point \<open>xy\<close>.\<close>

fun hop_iterates :: "nat \<Rightarrow> number \<Rightarrow> number \<Rightarrow> number \<Rightarrow> number \<times> number \<Rightarrow> (number \<times> number) list" where
  "hop_iterates 0 a b c xy = []"
| "hop_iterates (Suc n) a b c xy =
     hopalong (fst xy) (snd xy) a b c # hop_iterates n a b c (hopalong (fst xy) (snd xy) a b c)"

text \<open>The orbit has \<open>S\<close> subsets of \<open>N\<close> points each.\<close>

definition orbit_shape :: "SubsetPoint list list \<Rightarrow> int \<Rightarrow> int \<Rightarrow> bool" where
  "orbit_shape subs S N = (length subs = nat S \<and> list_all (\<lambda>sub. length sub = nat N) subs)"

text \<open>Only the orbit, its parameters and the random source differ between two states.\<close>

definition frame_gen :: "Hopalong \<Rightarrow> Hopalong \<Rightarrow> bool" where
  "frame_gen st st' = (\<exists>op ob r. st' = st\<lparr>orbitParams := op, orbit := ob, rand_stream := r\<rparr>)"

text \<open>An instance with one subset of two points, whose random source always returns 3/4:
  the state of the constructor after \<open>initOrbit\<close>.\<close>

definition example_instance :: Hopalong where
  "example_instance =
     initOrbit (initial_fields (no_settings\<lparr>opt_subsetCount := Some 1, opt_pointsPerSubset := Some 2\<rparr>)
                  800 600 (\<lambda>_. 3 / 4)) 1 2"

text \<open>The state after \<open>generateParticleSet(level, subset)\<close> when it does not throw.\<close>

definition add_set :: "int \<times> int \<Rightarrow> Hopalong \<Rightarrow> Hopalong" where
  "add_set ks st =
     st\<lparr>scene := scene st @ [nextId st],
        particleSets := particleSets st @
          [\<lparr>myMaterial = HSL_of_HSV (nth_opt (hueValues st) (snd ks)) DEF_SATURATION DEF_BRIGHTNESS,
            myLevel = fst ks, mySubset = snd ks, needsUpdate = False,
            particles = \<lparr>obj_id = nextId st,
                         geometry = map vertex (subsets (orbit st) ! nat (snd ks)),
                         position_x = 0, position_y = 0,
                         position_z = - LEVEL_DEPTH * of_int (fst ks)
                                      - (of_int (snd ks) * LEVEL_DEPTH) / of_int (numSubsets st)
                                      + SCALE_FACTOR / 2,
                         rotation_z = 0\<rparr>\<rparr>],
        nextId := Suc (nextId st)\<rparr>"

text \<open>The level and subset of a particle set, and the identity of its \<open>Points\<close> object.\<close>

definition set_key :: "ParticleSet \<Rightarrow> int \<times> int" where
  "set_key particleSet = (myLevel particleSet, mySubset particleSet)"

definition set_id :: "ParticleSet \<Rightarrow> nat" where
  "set_id particleSet = obj_id (particles particleSet)"

text \<open>Only the scene, the particle sets and the allocation counter differ between two
  states.\<close>

definition frame_sets :: "Hopalong \<Rightarrow> Hopalong \<Rightarrow> bool" where
  "frame_sets st st' = (\<exists>sc ps n. st' = st\<lparr>scene := sc, particleSets := ps, nextId := n\<rparr>)"

text \<open>The state \<open>reconcile\<close> hands to the generating loops.\<close>

definition pruned :: "Hopalong \<Rightarrow> Hopalong" where
  "pruned st =
     st\<lparr>scene := fold (\<lambda>particleSet. remove1 (obj_id (particles particleSet)))
                  (filter (\<lambda>particleSet. \<not> (myLevel particleSet < numLevels st \<and> mySubset particleSet < numSubsets st))
                     (particleSets st))
                  (scene st),
        particleSets := filter (\<lambda>particleSet. myLevel particleSet < numLevels st \<and> mySubset particleSet < numSubsets st)
                          (particleSets st)\<rparr>"

text \<open>The pairs for which \<open>reconcile\<close> generates a particle set.\<close>

definition missing :: "Hopalong \<Rightarrow> (int \<times> int) list" where
  "missing st =
     filter (\<lambda>(k, s). (k, s) \<notin> set (map set_key
                (filter (\<lambda>particleSet. myLevel particleSet < numLevels st \<and> mySubset particleSet < numSubsets st)
                   (particleSets st))))
       (List.product [0..numLevels st - 1] [0..numSubsets st - 1])"

text \<open>The test \<open>keep\<close> of line 241.\<close>

definition in_range :: "Hopalong \<Rightarrow> ParticleSet \<Rightarrow> bool" where
  "in_range st particleSet = (myLevel particleSet < numLevels st \<and> mySubset particleSet < numSubsets st)"

text \<open>What the body of the frame loop makes of a particle set when it does not throw.\<close>

definition advance :: "Hopalong \<Rightarrow> ParticleSet \<Rightarrow> ParticleSet" where
  "advance st particleSet =
     (if position_z (particles particleSet) + speed st > cam_z (camera st) then
        if needsUpdate particleSet then
          particleSet
            \<lparr>particles := (particles particleSet)
                \<lparr>position_z := - (of_int (numLevels st) - 1) * LEVEL_DEPTH,
                 rotation_z := rotation_z (particles particleSet) + rotationSpeed st,
                 geometry := map vertex (subsets (orbit st) ! nat (mySubset particleSet))\<rparr>,
             myMaterial := HSL_of_HSV (nth_opt (hueValues st) (mySubset particleSet))
                             DEF_SATURATION DEF_BRIGHTNESS,
             needsUpdate := False\<rparr>
        else particleSet
            \<lparr>particles := (particles particleSet)
                \<lparr>position_z := - (of_int (numLevels st) - 1) * LEVEL_DEPTH,
                 rotation_z := rotation_z (particles particleSet) + rotationSpeed st\<rparr>\<rparr>
      else particleSet
            \<lparr>particles := (particles particleSet)
                \<lparr>position_z := position_z (particles particleSet) + speed st,
                 rotation_z := rotation_z (particles particleSet) + rotationSpeed st\<rparr>\<rparr>)"

text \<open>The subset index of a particle set refers to a subset of the orbit.\<close>

definition subset_ok :: "Hopalong \<Rightarrow> ParticleSet \<Rightarrow> bool" where
  "subset_ok st particleSet =
     (0 \<le> mySubset particleSet \<and> nat (mySubset particleSet) < length (subsets (orbit st)))"

text \<open>Key and identity of a particle set.\<close>

definition skel :: "ParticleSet \<Rightarrow> (int \<times> int) \<times> nat" where
  "skel particleSet = (set_key particleSet, set_id particleSet)"

text \<open>Keys and identities of the 49 particle sets of the default configuration, and the
  test \<open>keep\<close> for 6 levels and 6 subsets.\<close>

definition default_skeleton :: "((int \<times> int) \<times> nat) list" where
  "default_skeleton =
     zip (List.product [0..6] [0..6]) [0..<length (List.product [0..6] [0..6 :: int])]"

definition within_six :: "(int \<times> int) \<times> nat \<Rightarrow> bool" where
  "within_six x = (fst (fst x) < 6 \<and> snd (fst x) < 6)"

text \<open>An instance with two particle sets, both flagged: the first crosses the camera
  in the next frame, the second does not and lies outside the seven levels.\<close>

definition example_frame :: Hopalong where
  "example_frame =
     example_instance
       \<lparr>camera := \<lparr>cam_x = 0, cam_y = 0, cam_z = 750, fov = 60\<rparr>,
        scene := [0, 1],
        particleSets :=
          [\<lparr>myMaterial = HSL_of_HSV None DEF_SATURATION DEF_BRIGHTNESS, myLevel = 0, mySubset = 0,
            needsUpdate = True,
            particles = \<lparr>obj_id = 0, geometry = [], position_x = 0, position_y = 0,
                         position_z = 745, rotation_z = 0\<rparr>\<rparr>,
           \<lparr>myMaterial = HSL_of_HSV None DEF_SATURATION DEF_BRIGHTNESS, myLevel = 9, mySubset = 0,
            needsUpdate = True,
            particles = \<lparr>obj_id = 1, geometry = [], position_x = 0, position_y = 0,
                         position_z = 0, rotation_z = 0\<rparr>\<rparr>],
        nextId := 2\<rparr>"

text \<open>Mouse-move and touch events, and their handlers.\<close>

datatype pointer_event =
    MouseMove number number
  | TouchStart "(number \<times> number) list"
  | TouchMove "(number \<times> number) list"

fun pointer :: "pointer_event \<Rightarrow> Hopalong \<Rightarrow> Hopalong" where
  "pointer (MouseMove clientX clientY) st = onDocumentMouseMove st clientX clientY"
| "pointer (TouchStart touches) st = onDocumentTouchStart st touches"
| "pointer (TouchMove touches) st = onDocumentTouchMove st touches"

section \<open>Lemmas\<close>

subsection \<open>Rules for the loops\<close>

lemma for_loop_done: "n \<le> i \<Longrightarrow> for_loop i n body s = Inr s"
  by (simp add: for_loop.simps)

lemma for_loop_step:
  "i < n \<Longrightarrow> for_loop i n body s = (case body i s of Inl e \<Rightarrow> Inl e | Inr s' \<Rightarrow> for_loop (i + 1) n body s')"
  by (subst for_loop.simps) simp

lemma for_loop_total:
  assumes "I i s"
    and "\<And>j t. i \<le> j \<Longrightarrow> j < n \<Longrightarrow> I j t \<Longrightarrow> \<exists>t'. body j t = Inr t' \<and> I (j + 1) t'"
  shows "\<exists>t. for_loop i n body s = Inr t \<and> I (max i n) t"
  using assms
proof (induction i n body s rule: for_loop.induct)
  case (1 i n body s)
  show ?case
  proof (cases "i < n")
    case True
    from "1.prems"(2)[of i s] True "1.prems"(1)
    obtain t' where t': "body i s = Inr t'" "I (i + 1) t'" by auto
    have "\<exists>t. for_loop (i + 1) n body t' = Inr t \<and> I (max (i + 1) n) t"
    proof (rule "1.IH"[OF True t'(1) t'(2)])
      fix j t assume "i + 1 \<le> j" "j < n" "I j t"
      then show "\<exists>t'. body j t = Inr t' \<and> I (j + 1) t'"
        using "1.prems"(2)[of j t] by auto
    qed
    with True t' show ?thesis
      by (simp add: for_loop_step max_def)
  next
    case False
    with "1.prems"(1) show ?thesis by (simp add: for_loop_done max_def)
  qed
qed

lemma for_loop_partial:
  assumes "for_loop i n body s = Inr t" and "I i s"
    and "\<And>j u u'. i \<le> j \<Longrightarrow> j < n \<Longrightarrow> I j u \<Longrightarrow> body j u = Inr u' \<Longrightarrow> I (j + 1) u'"
  shows "I (max i n) t"
  using assms
proof (induction i n body s rule: for_loop.induct)
  case (1 i n body s)
  show ?case
  proof (cases "i < n")
    case True
    with "1.prems"(1) obtain s' where s': "body i s = Inr s'" "for_loop (i + 1) n body s' = Inr t"
      by (auto simp: for_loop_step split: sum.splits)
    have "I (i + 1) s'" using "1.prems"(3)[of i s s'] True "1.prems"(2) s'(1) by simp
    have "I (max (i + 1) n) t"
    proof (rule "1.IH"[OF True s'(1) s'(2) \<open>I (i + 1) s'\<close>])
      fix j u u' assume "i + 1 \<le> j" "j < n" "I j u" "body j u = Inr u'"
      then show "I (j + 1) u'" using "1.prems"(3)[of j u u'] by auto
    qed
    with True show ?thesis by (simp add: max_def)
  next
    case False
    with "1.prems"(1,2) show ?thesis by (simp add: for_loop_done max_def)
  qed
qed

lemma for_loop_split:
  "i \<le> k \<Longrightarrow> k \<le> n \<Longrightarrow>
   for_loop i n body s = (case for_loop i k body s of Inl e \<Rightarrow> Inl e | Inr t \<Rightarrow> for_loop k n body t)"
proof (induction i k body s rule: for_loop.induct)
  case (1 i k body s)
  show ?case
  proof (cases "i < k")
    case True
    then have "i < n" using "1.prems" by simp
    show ?thesis
    proof (cases "body i s")
      case (Inl e)
      then show ?thesis using True \<open>i < n\<close> by (simp add: for_loop_step)
    next
      case (Inr s')
      then show ?thesis using True \<open>i < n\<close> "1.IH"[OF True Inr] "1.prems"
        by (simp add: for_loop_step)
    qed
  next
    case False
    then show ?thesis using "1.prems" by (simp add: for_loop_done)
  qed
qed

lemma for_pure_append:
  "for_pure i n (\<lambda>j xs. xs @ [v]) xs = xs @ replicate (nat (n - i)) v"
proof (induction i n "\<lambda>(j::int) xs. xs @ [v]" xs rule: for_pure.induct)
  case (1 i n xs)
  show ?case
  proof (cases "i < n")
    case True
    have "nat (n - i) = Suc (nat (n - (i + 1)))" using True by simp
    then show ?thesis using True "1.hyps"[OF True]
      by (subst for_pure.simps) (simp add: replicate_append_same)
  next
    case False
    then show ?thesis by (subst for_pure.simps) simp
  qed
qed

lemma initOrbit_subsets:
  "subsets (orbit (initOrbit st S N)) = replicate (nat S) (replicate (nat N) zero_point)"
  by (simp add: initOrbit_def for_pure_append)

subsection \<open>The first pass of generateOrbit: the loop over the points\<close>

lemma ext_le_refl: "ext_le e e" by (simp add: ext_le_def)
lemma ext_le_trans: "ext_le e1 e2 \<Longrightarrow> ext_le e2 e3 \<Longrightarrow> ext_le e1 e3" by (auto simp: ext_le_def)
lemma in_extents_mono: "in_extents e p \<Longrightarrow> ext_le e e' \<Longrightarrow> in_extents e' p" by (auto simp: in_extents_def ext_le_def)

lemma track_extents_props:
  assumes "ext_ok e"
  shows "ext_ok (track_extents e x y)" "ext_le e (track_extents e x y)"
    "in_extents (track_extents e x y) (p\<lparr>px := x, py := y\<rparr>)"
  using assms by (auto simp: track_extents_def ext_ok_def ext_le_def in_extents_def Let_def)

lemma nth_opt_Some: "0 \<le> i \<Longrightarrow> nat i < length xs \<Longrightarrow> nth_opt xs i = Some (xs ! nat i)"
  by (simp add: nth_opt_def)

lemma nth_opt_None: "length xs \<le> nat i \<Longrightarrow> nth_opt xs i = None"
  by (simp add: nth_opt_def)

lemma nth_opt_SomeD: "nth_opt xs i = Some v \<Longrightarrow> 0 \<le> i \<and> nat i < length xs \<and> v = xs ! nat i"
  by (auto simp: nth_opt_def split: if_splits)

lemma orbit_point_step_inv:
  assumes "i \<le> j" "j < N" "0 \<le> i" "nat N \<le> length cur" "pts_inv i cur e j t"
  shows "\<exists>t'. orbit_point_step a b c j t = Inr t' \<and> pts_inv i cur e (j + 1) t'"
proof -
  obtain x' y' c' e' where t: "t = (x', y', c', e')" by (cases t) auto
  from assms(5) have len: "length c' = length cur" and ok: "ext_ok e'" and le: "ext_le e e'"
    and w: "\<And>k. i \<le> int k \<Longrightarrow> int k < j \<Longrightarrow> in_extents e' (c' ! k)"
    and u: "\<And>k. \<not> (i \<le> int k \<and> int k < j) \<Longrightarrow> c' ! k = cur ! k"
    and v: "map vertex c' = map vertex cur"
    by (auto simp: pts_inv_def t)
  have jlt: "nat j < length c'" using assms(1-4) len by linarith
  have j0: "0 \<le> j" using assms by simp
  obtain xn yn where h: "hopalong x' y' a b c = (xn, yn)" by (cases "hopalong x' y' a b c") auto
  let ?p = "(c' ! nat j)\<lparr>px := xn, py := yn\<rparr>"
  let ?c = "c'[nat j := ?p]"
  let ?e = "track_extents e' xn yn"
  have step: "orbit_point_step a b c j t = Inr (xn, yn, ?c, ?e)"
    by (simp add: orbit_point_step_def t h nth_opt_Some[OF j0 jlt])
  have "pts_inv i cur e (j + 1) (xn, yn, ?c, ?e)"
    unfolding pts_inv_def prod.case
  proof (intro conjI allI impI)
    show "length ?c = length cur" using len by simp
    show "ext_ok ?e" by (rule track_extents_props(1)[OF ok])
    show "ext_le e ?e" by (rule ext_le_trans[OF le track_extents_props(2)[OF ok]])
  next
    fix k assume k: "i \<le> int k \<and> int k < j + 1"
    show "in_extents ?e (?c ! k)"
    proof (cases "k = nat j")
      case True
      then show ?thesis using jlt track_extents_props(3)[OF ok] by simp
    next
      case False
      then have "int k < j" using k j0 by linarith
      then have "in_extents e' (c' ! k)" using w k by simp
      then show ?thesis using False in_extents_mono[OF _ track_extents_props(2)[OF ok]] by simp
    qed
  next
    fix k assume k: "\<not> (i \<le> int k \<and> int k < j + 1)"
    then have "k \<noteq> nat j" using assms(1) j0 by linarith
    moreover have "\<not> (i \<le> int k \<and> int k < j)" using k by linarith
    ultimately show "?c ! k = cur ! k" using u by simp
  next
    have "map vertex ?c = (map vertex c')[nat j := vertex (c' ! nat j)]"
      by (simp add: map_update)
    also have "\<dots> = map vertex c'" using jlt by (simp add: list_update_same_conv)
    finally show "map vertex ?c = map vertex cur" using v by simp
  qed
  with step show ?thesis by blast
qed

lemma orbit_points_loop:
  assumes "0 \<le> i" "nat N \<le> length cur" "ext_ok e"
  shows "\<exists>t. for_loop i N (orbit_point_step a b c) (x, y, cur, e) = Inr t \<and> pts_inv i cur e (max i N) t"
proof (rule for_loop_total)
  show "pts_inv i cur e i (x, y, cur, e)"
    using assms by (auto simp: pts_inv_def ext_le_refl)
next
  fix j t assume "i \<le> j" "j < N" "pts_inv i cur e j t"
  then show "\<exists>t'. orbit_point_step a b c j t = Inr t' \<and> pts_inv i cur e (j + 1) t'"
    using orbit_point_step_inv assms by blast
qed

subsection \<open>States that differ in the orbit only\<close>

lemma frame_orbit_refl: "frame_orbit st st"
  unfolding frame_orbit_def
  by (rule exI[of _ "subsets (orbit st)"], rule exI[of _ "rand_stream st"]) simp

lemma frame_orbit_fields:
  assumes "frame_orbit st st'"
  shows "numSubsets st' = numSubsets st" "numLevels st' = numLevels st"
    "numPointsSubset st' = numPointsSubset st" "particleSets st' = particleSets st"
    "scene st' = scene st" "hueValues st' = hueValues st" "orbitParams st' = orbitParams st"
    "camera st' = camera st" "nextId st' = nextId st" "settingsUpdates st' = settingsUpdates st"
    "speed st' = speed st" "rotationSpeed st' = rotationSpeed st" "mouseX st' = mouseX st"
    "mouseY st' = mouseY st" "mouseLocked st' = mouseLocked st"
    "xMin (orbit st') = xMin (orbit st)" "xMax (orbit st') = xMax (orbit st)"
    "yMin (orbit st') = yMin (orbit st)" "yMax (orbit st') = yMax (orbit st)"
    "scaleX (orbit st') = scaleX (orbit st)" "scaleY (orbit st') = scaleY (orbit st)"
  using assms unfolding frame_orbit_def by auto

lemma frame_orbitI:
  "st' = st\<lparr>orbit := (orbit st)\<lparr>subsets := subs\<rparr>, rand_stream := r\<rparr> \<Longrightarrow> frame_orbit st st'"
  unfolding frame_orbit_def by blast

lemma frame_orbit_subsets:
  assumes "frame_orbit st st'"
  shows "frame_orbit st (st'\<lparr>orbit := (orbit st')\<lparr>subsets := subs\<rparr>\<rparr>)"
proof -
  from assms obtain subs0 r where "st' = st\<lparr>orbit := (orbit st)\<lparr>subsets := subs0\<rparr>, rand_stream := r\<rparr>"
    unfolding frame_orbit_def by blast
  then show ?thesis by (intro frame_orbitI[where subs = subs and r = r]) simp
qed

lemma frame_orbit_rand:
  assumes "frame_orbit st st'"
  shows "frame_orbit st (st'\<lparr>rand_stream := r\<rparr>)"
proof -
  from assms obtain subs0 r0 where "st' = st\<lparr>orbit := (orbit st)\<lparr>subsets := subs0\<rparr>, rand_stream := r0\<rparr>"
    unfolding frame_orbit_def by blast
  then show ?thesis by (intro frame_orbitI[where subs = subs0 and r = r]) simp
qed

lemma frame_orbit_trans:
  assumes "frame_orbit st st'" "frame_orbit st' st''"
  shows "frame_orbit st st''"
proof -
  from assms(1) obtain subs0 r0 where a: "st' = st\<lparr>orbit := (orbit st)\<lparr>subsets := subs0\<rparr>, rand_stream := r0\<rparr>"
    unfolding frame_orbit_def by blast
  from assms(2) obtain subs1 r1 where b: "st'' = st'\<lparr>orbit := (orbit st')\<lparr>subsets := subs1\<rparr>, rand_stream := r1\<rparr>"
    unfolding frame_orbit_def by blast
  show ?thesis by (intro frame_orbitI[where subs = subs1 and r = r1]) (simp add: a b)
qed

lemma Math_random_frame: "Math_random st = (r, st') \<Longrightarrow> frame_orbit st st' \<and> orbit st' = orbit st"
  by (auto simp: Math_random_def intro: frame_orbit_rand[OF frame_orbit_refl])

subsection \<open>The first pass of generateOrbit: the loop over the subsets\<close>

lemma map_length_nth: "map length xs = map length ys \<Longrightarrow> j < length xs \<Longrightarrow> length (xs ! j) = length (ys ! j)"
  by (metis length_map nth_map)

lemma orbit_subset_step_inv:
  assumes "i0 \<le> s" "s < S" "0 \<le> i0" "nat S \<le> length (subsets (orbit st0))"
    and lens: "\<forall>j < nat S. nat N \<le> length (subsets (orbit st0) ! j)"
    and inv: "subs_inv N i0 st0 e0 s t"
  shows "\<exists>t'. orbit_subset_step N a b c s t = Inr t' \<and> subs_inv N i0 st0 e0 (s + 1) t'"
proof -
  obtain st' e' where t: "t = (st', e')" by (cases t) auto
  let ?subs = "subsets (orbit st')"
  from inv have fr: "frame_orbit st0 st'"
    and ml: "map length ?subs = map length (subsets (orbit st0))"
    and ok: "ext_ok e'" and le: "ext_le e0 e'"
    and w: "\<And>j k. i0 \<le> int j \<Longrightarrow> int j < s \<Longrightarrow> k < nat N \<Longrightarrow> in_extents e' (?subs ! j ! k)"
    and u: "\<And>j. \<not> (i0 \<le> int j \<and> int j < s) \<Longrightarrow> ?subs ! j = subsets (orbit st0) ! j"
    and v: "map (map vertex) ?subs = map (map vertex) (subsets (orbit st0))"
    by (auto simp: subs_inv_def t)
  have s0: "0 \<le> s" using assms by simp
  have len: "length ?subs = length (subsets (orbit st0))" using ml by (metis length_map)
  have slt: "nat s < length ?subs" using assms(1-4) len by linarith
  let ?cur = "?subs ! nat s"
  have "length ?cur = length (subsets (orbit st0) ! nat s)" by (rule map_length_nth[OF ml slt])
  moreover have "nat s < nat S" using assms(2) s0 by linarith
  ultimately have curlen: "nat N \<le> length ?cur" using lens by simp
  obtain r1 st1 where m1: "Math_random st' = (r1, st1)" by (cases "Math_random st'") auto
  obtain r2 st2 where m2: "Math_random st1 = (r2, st2)" by (cases "Math_random st1") auto
  have o2: "orbit st2 = orbit st'" using Math_random_frame[OF m1] Math_random_frame[OF m2] by simp
  have fr2: "frame_orbit st0 st2"
    using Math_random_frame[OF m1] Math_random_frame[OF m2] fr frame_orbit_trans by blast
  let ?x = "subset_seed s r1"
  let ?y = "subset_seed s r2"
  from orbit_points_loop[OF _ curlen ok, of 0 a b c ?x ?y]
  obtain x1 y1 cur1 e1 where
    run: "for_loop 0 N (orbit_point_step a b c) (?x, ?y, ?cur, e') = Inr (x1, y1, cur1, e1)"
    and pinv: "pts_inv 0 ?cur e' (max 0 N) (x1, y1, cur1, e1)"
    by (metis order_refl prod_cases4)
  from pinv have l1: "length cur1 = length ?cur" and ok1: "ext_ok e1" and le1: "ext_le e' e1"
    and w1: "\<And>k. int k < max 0 N \<Longrightarrow> in_extents e1 (cur1 ! k)"
    and v1: "map vertex cur1 = map vertex ?cur"
    by (auto simp: pts_inv_def)
  let ?st3 = "st2\<lparr>orbit := (orbit st2)\<lparr>subsets := (subsets (orbit st2))[nat s := cur1]\<rparr>\<rparr>"
  have step: "orbit_subset_step N a b c s t = Inr (?st3, e1)"
    using run by (simp add: orbit_subset_step_def t m1 m2 o2 nth_opt_Some[OF s0 slt])
  have "subs_inv N i0 st0 e0 (s + 1) (?st3, e1)"
    unfolding subs_inv_def prod.case
  proof (intro conjI allI impI)
    show "frame_orbit st0 ?st3" by (rule frame_orbit_subsets[OF fr2])
    have "map length (subsets (orbit ?st3)) = (map length ?subs)[nat s := length ?cur]"
      by (simp add: o2 map_update l1)
    also have "\<dots> = map length ?subs" using slt by (simp add: list_update_same_conv)
    finally show "map length (subsets (orbit ?st3)) = map length (subsets (orbit st0))"
      using ml by simp
    show "ext_ok e1" by (rule ok1)
    show "ext_le e0 e1" by (rule ext_le_trans[OF le le1])
  next
    fix j k assume jk: "i0 \<le> int j \<and> int j < s + 1 \<and> k < nat N"
    show "in_extents e1 (subsets (orbit ?st3) ! j ! k)"
    proof (cases "j = nat s")
      case True
      have "int k < max 0 N" using jk by linarith
      then show ?thesis using True slt w1 by (simp add: o2)
    next
      case False
      then have "int j < s" using jk s0 by linarith
      then have "in_extents e' (?subs ! j ! k)" using w jk by simp
      then show ?thesis using False in_extents_mono[OF _ le1] by (simp add: o2)
    qed
  next
    fix j assume j: "\<not> (i0 \<le> int j \<and> int j < s + 1)"
    then have "j \<noteq> nat s" using assms(1) s0 by linarith
    moreover have "\<not> (i0 \<le> int j \<and> int j < s)" using j by linarith
    ultimately show "subsets (orbit ?st3) ! j = subsets (orbit st0) ! j" using u by (simp add: o2)
  next
    have "map (map vertex) (subsets (orbit ?st3)) = (map (map vertex) ?subs)[nat s := map vertex ?cur]"
      by (simp add: o2 map_update v1)
    also have "\<dots> = map (map vertex) ?subs" using slt by (simp add: list_update_same_conv)
    finally show "map (map vertex) (subsets (orbit ?st3)) = map (map vertex) (subsets (orbit st0))"
      using v by simp
  qed
  with step show ?thesis by blast
qed

lemma orbit_subsets_loop:
  assumes "0 \<le> i0" "nat S \<le> length (subsets (orbit st0))"
    and "\<forall>j < nat S. nat N \<le> length (subsets (orbit st0) ! j)" "ext_ok e0"
  shows "\<exists>t. for_loop i0 S (orbit_subset_step N a b c) (st0, e0) = Inr t \<and> subs_inv N i0 st0 e0 (max i0 S) t"
proof (rule for_loop_total)
  show "subs_inv N i0 st0 e0 i0 (st0, e0)"
    using assms by (auto simp: subs_inv_def ext_le_refl frame_orbit_refl)
next
  fix j t assume "i0 \<le> j" "j < S" "subs_inv N i0 st0 e0 j t"
  then show "\<exists>t'. orbit_subset_step N a b c j t = Inr t' \<and> subs_inv N i0 st0 e0 (j + 1) t'"
    using orbit_subset_step_inv assms by blast
qed

subsection \<open>The normalisation pass\<close>

lemma normalize_point_step_inv:
  assumes "0 \<le> j" "j < N" "nat N \<le> length cur" "npts_inv sX sY xm ym cur j c'"
  shows "\<exists>c''. normalize_point_step sX sY xm ym j c' = Inr c'' \<and> npts_inv sX sY xm ym cur (j + 1) c''"
proof -
  from assms(4) have len: "length c' = length cur"
    and d: "\<And>k. int k < j \<Longrightarrow> c' ! k = normalized sX sY xm ym (cur ! k)"
    and u: "\<And>k. \<not> int k < j \<Longrightarrow> c' ! k = cur ! k"
    by (auto simp: npts_inv_def)
  have jlt: "nat j < length c'" using assms(1-3) len by linarith
  have cj: "c' ! nat j = cur ! nat j" using u[of "nat j"] assms(1) by simp
  let ?c = "c'[nat j := normalized sX sY xm ym (cur ! nat j)]"
  have step: "normalize_point_step sX sY xm ym j c' = Inr ?c"
    by (simp add: normalize_point_step_def nth_opt_Some[OF assms(1) jlt] cj normalized_def)
  have "npts_inv sX sY xm ym cur (j + 1) ?c"
    unfolding npts_inv_def
  proof (intro conjI allI impI)
    show "length ?c = length cur" using len by simp
  next
    fix k assume k: "int k < j + 1"
    show "?c ! k = normalized sX sY xm ym (cur ! k)"
    proof (cases "k = nat j")
      case True then show ?thesis using jlt by simp
    next
      case False
      then have "int k < j" using k assms(1) by linarith
      then show ?thesis using d False by simp
    qed
  next
    fix k assume k: "\<not> int k < j + 1"
    then have "k \<noteq> nat j" "\<not> int k < j" using assms(1) by linarith+
    then show "?c ! k = cur ! k" using u by simp
  qed
  with step show ?thesis by blast
qed

lemma normalize_points_loop:
  assumes "nat N \<le> length cur"
  shows "\<exists>c'. for_loop 0 N (normalize_point_step sX sY xm ym) cur = Inr c' \<and>
               npts_inv sX sY xm ym cur (max 0 N) c'"
proof (rule for_loop_total)
  show "npts_inv sX sY xm ym cur 0 cur" by (simp add: npts_inv_def)
next
  fix j t assume "0 \<le> j" "j < N" "npts_inv sX sY xm ym cur j t"
  then show "\<exists>t'. normalize_point_step sX sY xm ym j t = Inr t' \<and> npts_inv sX sY xm ym cur (j + 1) t'"
    using normalize_point_step_inv assms by blast
qed

lemma normalize_subset_step_inv:
  assumes "0 \<le> s" "s < n" "nat n \<le> length (subsets (orbit st0))"
    and lens: "\<forall>j < nat n. nat N \<le> length (subsets (orbit st0) ! j)"
    and inv: "nsubs_inv N sX sY xm ym st0 s st'"
  shows "\<exists>st''. normalize_subset_step N sX sY xm ym s st' = Inr st'' \<and>
                 nsubs_inv N sX sY xm ym st0 (s + 1) st''"
proof -
  let ?subs = "subsets (orbit st')"
  from inv have fr: "frame_orbit st0 st'" and rs: "rand_stream st' = rand_stream st0"
    and len: "length ?subs = length (subsets (orbit st0))"
    and d: "\<And>j. int j < s \<Longrightarrow> npts_inv sX sY xm ym (subsets (orbit st0) ! j) (max 0 N) (?subs ! j)"
    and u: "\<And>j. \<not> int j < s \<Longrightarrow> ?subs ! j = subsets (orbit st0) ! j"
    by (auto simp: nsubs_inv_def)
  have slt: "nat s < length ?subs" using assms(1-3) len by linarith
  have cs: "?subs ! nat s = subsets (orbit st0) ! nat s" using u[of "nat s"] assms(1) by simp
  let ?cur = "subsets (orbit st0) ! nat s"
  have "nat s < nat n" using assms(1,2) by linarith
  then have curlen: "nat N \<le> length ?cur" using lens by simp
  from normalize_points_loop[OF curlen, of sX sY xm ym]
  obtain c' where run: "for_loop 0 N (normalize_point_step sX sY xm ym) ?cur = Inr c'"
    and ninv: "npts_inv sX sY xm ym ?cur (max 0 N) c'" by blast
  let ?st = "st'\<lparr>orbit := (orbit st')\<lparr>subsets := ?subs[nat s := c']\<rparr>\<rparr>"
  have step: "normalize_subset_step N sX sY xm ym s st' = Inr ?st"
    using run by (simp add: normalize_subset_step_def nth_opt_Some[OF assms(1) slt] cs)
  have "nsubs_inv N sX sY xm ym st0 (s + 1) ?st"
    unfolding nsubs_inv_def
  proof (intro conjI allI impI)
    show "frame_orbit st0 ?st" by (rule frame_orbit_subsets[OF fr])
    show "rand_stream ?st = rand_stream st0" using rs by simp
    show "length (subsets (orbit ?st)) = length (subsets (orbit st0))" using len by simp
  next
    fix j assume j: "int j < s + 1"
    show "npts_inv sX sY xm ym (subsets (orbit st0) ! j) (max 0 N) (subsets (orbit ?st) ! j)"
    proof (cases "j = nat s")
      case True then show ?thesis using slt ninv by simp
    next
      case False
      then have "int j < s" using j assms(1) by linarith
      then show ?thesis using d False by simp
    qed
  next
    fix j assume j: "\<not> int j < s + 1"
    then have "j \<noteq> nat s" "\<not> int j < s" using assms(1) by linarith+
    then show "subsets (orbit ?st) ! j = subsets (orbit st0) ! j" using u by simp
  qed
  with step show ?thesis by blast
qed

lemma normalize_subsets_loop:
  assumes "nat n \<le> length (subsets (orbit st0))"
    and "\<forall>j < nat n. nat N \<le> length (subsets (orbit st0) ! j)"
  shows "\<exists>st'. for_loop 0 n (normalize_subset_step N sX sY xm ym) st0 = Inr st' \<and>
                nsubs_inv N sX sY xm ym st0 (max 0 n) st'"
proof (rule for_loop_total)
  show "nsubs_inv N sX sY xm ym st0 0 st0"
    by (simp add: nsubs_inv_def frame_orbit_refl)
next
  fix j t assume "0 \<le> j" "j < n" "nsubs_inv N sX sY xm ym st0 j t"
  then show "\<exists>t'. normalize_subset_step N sX sY xm ym j t = Inr t' \<and>
                  nsubs_inv N sX sY xm ym st0 (j + 1) t'"
    using normalize_subset_step_inv assms by blast
qed

subsection \<open>The raw points of the first subset\<close>

lemma orbit_points_loop_raw:
  assumes "for_loop i N (orbit_point_step a b c) (x, y, cur, e) = Inr (x', y', cur', e')"
    and "0 \<le> i" "i \<le> N"
  shows "map raw cur' = take (nat i) (map raw cur) @ hop_iterates (nat (N - i)) a b c (x, y)
                          @ drop (nat N) (map raw cur)"
  using assms
proof (induction i N "orbit_point_step a b c" "(x, y, cur, e)" arbitrary: x y cur e rule: for_loop.induct)
  case (1 i N)
  show ?case
  proof (cases "i < N")
    case True
    obtain xn yn where h: "hopalong x y a b c = (xn, yn)" by (cases "hopalong x y a b c") auto
    from "1.prems"(1) True obtain p where p: "nth_opt cur i = Some p"
      by (auto simp: for_loop_step orbit_point_step_def h split: option.splits)
    then have ilt: "nat i < length cur" and pv: "p = cur ! nat i" by (auto dest: nth_opt_SomeD)
    let ?c = "cur[nat i := p\<lparr>px := xn, py := yn\<rparr>]"
    let ?e = "track_extents e xn yn"
    have step: "orbit_point_step a b c i (x, y, cur, e) = Inr (xn, yn, ?c, ?e)"
      by (simp add: orbit_point_step_def h p)
    with "1.prems"(1) True
    have run: "for_loop (i + 1) N (orbit_point_step a b c) (xn, yn, ?c, ?e) = Inr (x', y', cur', e')"
      by (simp add: for_loop_step)
    have IH: "map raw cur' = take (nat (i + 1)) (map raw ?c) @ hop_iterates (nat (N - (i + 1))) a b c (xn, yn)
                  @ drop (nat N) (map raw ?c)"
      using "1.hyps"[OF True step run] "1.prems"(2) True by simp
    have n1: "nat (i + 1) = Suc (nat i)" using "1.prems"(2) by simp
    have n2: "nat (N - i) = Suc (nat (N - (i + 1)))" using True by simp
    have m: "map raw ?c = (map raw cur)[nat i := (xn, yn)]"
      by (simp add: map_update raw_def)
    have ilt': "nat i < length (map raw cur)" using ilt by simp
    have t: "take (Suc (nat i)) (map raw ?c) = take (nat i) (map raw cur) @ [(xn, yn)]"
      unfolding m using ilt' by (simp only: take_Suc_conv_app_nth length_list_update
          take_update_cancel order_refl nth_list_update_eq)
    have d: "drop (nat N) (map raw ?c) = drop (nat N) (map raw cur)"
      unfolding m using True "1.prems"(2) by (intro drop_update_cancel) linarith
    show ?thesis unfolding IH n1 n2 t d by (simp add: h)
  next
    case False
    then have "i = N" using "1.prems"(3) by simp
    with "1.prems"(1) show ?thesis by (simp add: for_loop_done)
  qed
qed

lemma orbit_subset_step_zero_raw:
  assumes "orbit_subset_step N a b c 0 (st, e) = Inr (st', e')"
    and "subsets (orbit st) \<noteq> []" "length (subsets (orbit st) ! 0) = nat N"
  shows "map raw (subsets (orbit st') ! 0) = hop_iterates (nat N) a b c (0, 0)"
proof -
  obtain r1 st1 where m1: "Math_random st = (r1, st1)" by (cases "Math_random st") auto
  obtain r2 st2 where m2: "Math_random st1 = (r2, st2)" by (cases "Math_random st1") auto
  have o2: "orbit st2 = orbit st" using Math_random_frame[OF m1] Math_random_frame[OF m2] by simp
  let ?cur = "subsets (orbit st) ! 0"
  have n0: "nth_opt (subsets (orbit st)) 0 = Some ?cur" using assms(2) by (simp add: nth_opt_def)
  from assms(1) obtain x1 y1 cur1 where
    run: "for_loop 0 N (orbit_point_step a b c) (0, 0, ?cur, e) = Inr (x1, y1, cur1, e')"
    and st': "st' = st2\<lparr>orbit := (orbit st2)\<lparr>subsets := (subsets (orbit st2))[0 := cur1]\<rparr>\<rparr>"
    by (auto simp: orbit_subset_step_def m1 m2 o2 n0 subset_seed_def split: sum.splits)
  show ?thesis
  proof (cases "0 \<le> N")
    case True
    from orbit_points_loop_raw[OF run _ True] assms(2,3) show ?thesis
      by (simp add: st' o2)
  next
    case False
    then have "cur1 = ?cur" using run by (simp add: for_loop_done)
    then show ?thesis using False assms(2,3) by (simp add: st' o2)
  qed
qed

subsection \<open>The two passes on an orbit of the right shape\<close>

lemma orbit_shapeD:
  assumes "orbit_shape subs S N"
  shows "nat S \<le> length subs" "\<forall>j < nat S. nat N \<le> length (subs ! j)"
    "\<And>j. j < nat S \<Longrightarrow> length (subs ! j) = nat N"
  using assms by (auto simp: orbit_shape_def list_all_length)

lemma orbit_shape_map_length:
  "map length subs' = map length subs \<Longrightarrow> orbit_shape subs S N \<Longrightarrow> orbit_shape subs' S N"
  unfolding orbit_shape_def list_all_length
  by (metis length_map map_length_nth)

lemma first_pass:
  assumes sh: "orbit_shape (subsets (orbit st2)) S N"
  shows "\<exists>st3 e. for_loop 0 S (orbit_subset_step N a b c)
                    (st2, \<lparr>l_xMin = 0, l_xMax = 0, l_yMin = 0, l_yMax = 0\<rparr>) = Inr (st3, e) \<and>
           frame_orbit st2 st3 \<and>
           map length (subsets (orbit st3)) = map length (subsets (orbit st2)) \<and>
           ext_ok e \<and>
           (\<forall>j < nat S. \<forall>k < nat N. in_extents e (subsets (orbit st3) ! j ! k)) \<and>
           map (map vertex) (subsets (orbit st3)) = map (map vertex) (subsets (orbit st2)) \<and>
           (1 \<le> S \<longrightarrow> map raw (subsets (orbit st3) ! 0) = hop_iterates (nat N) a b c (0, 0))"
proof -
  let ?e0 = "\<lparr>l_xMin = 0, l_xMax = 0, l_yMin = 0, l_yMax = 0\<rparr>"
  let ?body = "orbit_subset_step N a b c"
  have ok0: "ext_ok ?e0" by (simp add: ext_ok_def)
  note shD = orbit_shapeD[OF sh]
  from orbit_subsets_loop[OF _ shD(1) shD(2) ok0, of 0 a b c]
  obtain st3 e where run: "for_loop 0 S ?body (st2, ?e0) = Inr (st3, e)"
    and inv: "subs_inv N 0 st2 ?e0 (max 0 S) (st3, e)"
    by (metis order_refl surj_pair)
  have raw0: "map raw (subsets (orbit st3) ! 0) = hop_iterates (nat N) a b c (0, 0)" if S1: "1 \<le> S"
  proof -
    have i0: "subs_inv N 0 st2 ?e0 0 (st2, ?e0)"
      using ok0 by (auto simp: subs_inv_def ext_le_refl frame_orbit_refl)
    have "\<exists>t'. ?body 0 (st2, ?e0) = Inr t' \<and> subs_inv N 0 st2 ?e0 (0 + 1) t'"
      by (rule orbit_subset_step_inv[where S = S, OF _ _ _ shD(1) shD(2) i0]) (use S1 in simp_all)
    then obtain sta ea where stp: "?body 0 (st2, ?e0) = Inr (sta, ea)"
      and inva: "subs_inv N 0 st2 ?e0 1 (sta, ea)"
      by auto
    have ne: "subsets (orbit st2) \<noteq> []" using shD(1) S1 by auto
    have l0: "length (subsets (orbit st2) ! 0) = nat N" using shD(3)[of 0] S1 by simp
    have rawa: "map raw (subsets (orbit sta) ! 0) = hop_iterates (nat N) a b c (0, 0)"
      by (rule orbit_subset_step_zero_raw[OF stp ne l0])
    from inva have mla: "map length (subsets (orbit sta)) = map length (subsets (orbit st2))"
      and oka: "ext_ok ea" by (auto simp: subs_inv_def)
    have sha: "orbit_shape (subsets (orbit sta)) S N" by (rule orbit_shape_map_length[OF mla sh])
    note shaD = orbit_shapeD[OF sha]
    have run1: "for_loop 1 S ?body (sta, ea) = Inr (st3, e)"
      using run S1 stp by (simp add: for_loop_step)
    from orbit_subsets_loop[OF _ shaD(1) shaD(2) oka, of 1 a b c]
    obtain t where "for_loop 1 S ?body (sta, ea) = Inr t" "subs_inv N 1 sta ea (max 1 S) t"
      by auto
    with run1 have "subs_inv N 1 sta ea (max 1 S) (st3, e)" by simp
    then have "subsets (orbit st3) ! 0 = subsets (orbit sta) ! 0"
      by (auto simp: subs_inv_def)
    with rawa show ?thesis by simp
  qed
  from inv have "frame_orbit st2 st3"
    "map length (subsets (orbit st3)) = map length (subsets (orbit st2))" "ext_ok e"
    "\<forall>j < nat S. \<forall>k < nat N. in_extents e (subsets (orbit st3) ! j ! k)"
    "map (map vertex) (subsets (orbit st3)) = map (map vertex) (subsets (orbit st2))"
    by (auto simp: subs_inv_def)
  with run raw0 show ?thesis by blast
qed

lemma npts_inv_nth:
  assumes "npts_inv sX sY xm ym cur (max 0 N) c'"
  shows "length c' = length cur" "\<And>k. raw (c' ! k) = raw (cur ! k)"
    "\<And>k. k < nat N \<Longrightarrow> c' ! k = normalized sX sY xm ym (cur ! k)"
proof -
  from assms show "length c' = length cur" by (simp add: npts_inv_def)
  from assms have d: "\<And>k. int k < max 0 N \<Longrightarrow> c' ! k = normalized sX sY xm ym (cur ! k)"
    and u: "\<And>k. \<not> int k < max 0 N \<Longrightarrow> c' ! k = cur ! k"
    by (auto simp: npts_inv_def)
  show "raw (c' ! k) = raw (cur ! k)" for k
    using d[of k] u[of k] by (cases "int k < max 0 N") (auto simp: raw_def normalized_def)
  show "c' ! k = normalized sX sY xm ym (cur ! k)" if "k < nat N" for k
    using d[of k] that by simp
qed

lemma second_pass:
  assumes sh: "orbit_shape (subsets (orbit st4)) S N" and n: "n \<le> S"
  shows "\<exists>st5. for_loop 0 n (normalize_subset_step N sX sY xm ym) st4 = Inr st5 \<and>
           frame_orbit st4 st5 \<and> rand_stream st5 = rand_stream st4 \<and>
           map length (subsets (orbit st5)) = map length (subsets (orbit st4)) \<and>
           (\<forall>j k. raw (subsets (orbit st5) ! j ! k) = raw (subsets (orbit st4) ! j ! k)) \<and>
           (\<forall>j < nat n. \<forall>k < nat N.
               subsets (orbit st5) ! j ! k = normalized sX sY xm ym (subsets (orbit st4) ! j ! k))"
proof -
  note shD = orbit_shapeD[OF sh]
  have p1: "nat n \<le> length (subsets (orbit st4))" using shD(1) n by linarith
  have p2: "\<forall>j < nat n. nat N \<le> length (subsets (orbit st4) ! j)" using shD(2) n by auto
  from normalize_subsets_loop[OF p1 p2, of sX sY xm ym]
  obtain st5 where run: "for_loop 0 n (normalize_subset_step N sX sY xm ym) st4 = Inr st5"
    and inv: "nsubs_inv N sX sY xm ym st4 (max 0 n) st5" by blast
  let ?s4 = "subsets (orbit st4)" and ?s5 = "subsets (orbit st5)"
  from inv have fr: "frame_orbit st4 st5" and rs: "rand_stream st5 = rand_stream st4"
    and len: "length ?s5 = length ?s4"
    and d: "\<And>j. int j < max 0 n \<Longrightarrow> npts_inv sX sY xm ym (?s4 ! j) (max 0 N) (?s5 ! j)"
    and u: "\<And>j. \<not> int j < max 0 n \<Longrightarrow> ?s5 ! j = ?s4 ! j"
    by (auto simp: nsubs_inv_def)
  have rowlen: "length (?s5 ! j) = length (?s4 ! j)" for j
  proof (cases "int j < max 0 n")
    case True
    from npts_inv_nth(1)[OF d[OF True]] show ?thesis .
  next
    case False
    from u[OF False] show ?thesis by simp
  qed
  have ml: "map length ?s5 = map length ?s4"
    by (rule nth_equalityI) (simp_all add: len rowlen)
  have rw: "raw (?s5 ! j ! k) = raw (?s4 ! j ! k)" for j k
  proof (cases "int j < max 0 n")
    case True
    from npts_inv_nth(2)[OF d[OF True]] show ?thesis .
  next
    case False
    from u[OF False] show ?thesis by simp
  qed
  have nm: "?s5 ! j ! k = normalized sX sY xm ym (?s4 ! j ! k)" if "j < nat n" "k < nat N" for j k
  proof -
    have "int j < max 0 n" using that(1) by linarith
    from npts_inv_nth(3)[OF d[OF this] that(2)] show ?thesis .
  qed
  from run fr rs ml rw nm show ?thesis by blast
qed

subsection \<open>What generateOrbit returns\<close>

lemma frame_genI: "st' = st\<lparr>orbitParams := op, orbit := ob, rand_stream := r\<rparr> \<Longrightarrow> frame_gen st st'"
  unfolding frame_gen_def by blast

lemma frame_gen_trans:
  assumes "frame_gen st st'" "frame_gen st' st''"
  shows "frame_gen st st''"
proof -
  from assms(1) obtain op ob r where a: "st' = st\<lparr>orbitParams := op, orbit := ob, rand_stream := r\<rparr>"
    unfolding frame_gen_def by blast
  from assms(2) obtain op' ob' r' where b: "st'' = st'\<lparr>orbitParams := op', orbit := ob', rand_stream := r'\<rparr>"
    unfolding frame_gen_def by blast
  show ?thesis by (rule frame_genI[where op = op' and ob = ob' and r = r']) (simp add: a b)
qed

lemma frame_orbit_gen:
  assumes "frame_orbit st st'"
  shows "frame_gen st st'"
proof -
  from assms obtain subs r where a: "st' = st\<lparr>orbit := (orbit st)\<lparr>subsets := subs\<rparr>, rand_stream := r\<rparr>"
    unfolding frame_orbit_def by blast
  show ?thesis
    by (rule frame_genI[where op = "orbitParams st" and ob = "(orbit st)\<lparr>subsets := subs\<rparr>" and r = r])
      (simp add: a)
qed

lemma frame_gen_orbit_update: "frame_gen st (st\<lparr>orbit := ob\<rparr>)"
  by (rule frame_genI[where op = "orbitParams st" and ob = ob and r = "rand_stream st"]) simp

lemma frame_gen_fields:
  assumes "frame_gen st st'"
  shows "numSubsets st' = numSubsets st" "numLevels st' = numLevels st"
    "numPointsSubset st' = numPointsSubset st" "particleSets st' = particleSets st"
    "scene st' = scene st" "hueValues st' = hueValues st"
    "camera st' = camera st" "nextId st' = nextId st" "settingsUpdates st' = settingsUpdates st"
    "speed st' = speed st" "rotationSpeed st' = rotationSpeed st" "mouseX st' = mouseX st"
    "mouseY st' = mouseY st" "mouseLocked st' = mouseLocked st"
  using assms unfolding frame_gen_def by auto

lemma prepareOrbit_props:
  "frame_gen st (prepareOrbit st)"
  "subsets (orbit (prepareOrbit st)) = subsets (orbit st)"
  "orbitParams (prepareOrbit st) = orbitParams (shuffleParams st)"
  "numSubsets (prepareOrbit st) = numSubsets st"
proof -
  show "frame_gen st (prepareOrbit st)"
    by (rule frame_genI[where op = "orbitParams (prepareOrbit st)" and ob = "orbit (prepareOrbit st)"
          and r = "rand_stream (prepareOrbit st)"])
      (simp add: prepareOrbit_def shuffleParams_def Math_random_def Let_def)
qed (simp_all add: prepareOrbit_def shuffleParams_def Math_random_def Let_def)

lemma generateOrbit_wf:
  assumes sh: "orbit_shape (subsets (orbit st)) S N" and ns: "numSubsets st \<le> S"
  obtains st' where "generateOrbit st S N = Inr st'"
    and "frame_gen st st'"
    and "orbitParams st' = orbitParams (shuffleParams st)"
    and "map length (subsets (orbit st')) = map length (subsets (orbit st))"
    and "xMin (orbit st') \<le> 0" "0 \<le> xMax (orbit st')" "yMin (orbit st') \<le> 0" "0 \<le> yMax (orbit st')"
    and "\<And>j k. j < nat S \<Longrightarrow> k < nat N \<Longrightarrow>
           xMin (orbit st') \<le> px (subsets (orbit st') ! j ! k) \<and>
           px (subsets (orbit st') ! j ! k) \<le> xMax (orbit st') \<and>
           yMin (orbit st') \<le> py (subsets (orbit st') ! j ! k) \<and>
           py (subsets (orbit st') ! j ! k) \<le> yMax (orbit st')"
    and "scaleX (orbit st') = js_div (2 * SCALE_FACTOR) (xMax (orbit st') - xMin (orbit st'))"
    and "scaleY (orbit st') = js_div (2 * SCALE_FACTOR) (yMax (orbit st') - yMin (orbit st'))"
    and "\<And>j k. j < nat (numSubsets st) \<Longrightarrow> k < nat N \<Longrightarrow>
           vertex (subsets (orbit st') ! j ! k) = (vertex (subsets (orbit st) ! j ! k))
             \<lparr>vx := map_option (\<lambda>sc. sc * (px (subsets (orbit st') ! j ! k) - xMin (orbit st')) - SCALE_FACTOR)
                      (scaleX (orbit st')),
              vy := map_option (\<lambda>sc. sc * (py (subsets (orbit st') ! j ! k) - yMin (orbit st')) - SCALE_FACTOR)
                      (scaleY (orbit st'))\<rparr>"
    and "1 \<le> S \<Longrightarrow> map raw (subsets (orbit st') ! 0) =
           hop_iterates (nat N) (par_a (orbitParams st')) (par_b (orbitParams st'))
             (par_c (orbitParams st')) (0, 0)"
proof -
  define st1 where "st1 = prepareOrbit st"
  define a where "a = par_a (orbitParams st1)"
  define b where "b = par_b (orbitParams st1)"
  define c where "c = par_c (orbitParams st1)"
  obtain choice st2 where m: "Math_random st1 = (choice, st2)" by (cases "Math_random st1") auto
  have f01: "frame_gen st st1" unfolding st1_def by (rule prepareOrbit_props)
  have f12: "frame_orbit st1 st2" and o2: "orbit st2 = orbit st1"
    using Math_random_frame[OF m] by auto
  have subs2: "subsets (orbit st2) = subsets (orbit st)"
    by (simp add: o2 st1_def prepareOrbit_props)
  have sh2: "orbit_shape (subsets (orbit st2)) S N" using sh subs2 by simp
  from first_pass[OF sh2, of a b c]
  obtain st3 e where run1: "for_loop 0 S (orbit_subset_step N a b c)
                    (st2, \<lparr>l_xMin = 0, l_xMax = 0, l_yMin = 0, l_yMax = 0\<rparr>) = Inr (st3, e)"
    and f23: "frame_orbit st2 st3"
    and ml3: "map length (subsets (orbit st3)) = map length (subsets (orbit st2))"
    and ok: "ext_ok e"
    and inx: "\<And>j k. j < nat S \<Longrightarrow> k < nat N \<Longrightarrow> in_extents e (subsets (orbit st3) ! j ! k)"
    and vt3: "map (map vertex) (subsets (orbit st3)) = map (map vertex) (subsets (orbit st2))"
    and raw3: "1 \<le> S \<Longrightarrow> map raw (subsets (orbit st3) ! 0) = hop_iterates (nat N) a b c (0, 0)"
    by blast
  define sX where "sX = js_div (2 * SCALE_FACTOR) (l_xMax e - l_xMin e)"
  define sY where "sY = js_div (2 * SCALE_FACTOR) (l_yMax e - l_yMin e)"
  define st4 where "st4 = st3\<lparr>orbit := (orbit st3)
                          \<lparr>xMin := l_xMin e, xMax := l_xMax e, yMin := l_yMin e, yMax := l_yMax e,
                           scaleX := sX, scaleY := sY\<rparr>\<rparr>"
  have f34: "frame_gen st3 st4" unfolding st4_def by (rule frame_gen_orbit_update)
  have subs4: "subsets (orbit st4) = subsets (orbit st3)" by (simp add: st4_def)
  have sh4: "orbit_shape (subsets (orbit st4)) S N"
    unfolding subs4 by (rule orbit_shape_map_length[OF ml3 sh2])
  have f03: "frame_gen st st3"
    using f01 f12 f23 frame_orbit_gen frame_gen_trans by blast
  have n4: "numSubsets st4 = numSubsets st"
    using frame_gen_fields(1)[OF f34] frame_gen_fields(1)[OF f03] by simp
  then have n4S: "numSubsets st4 \<le> S" using ns by simp
  from second_pass[OF sh4 n4S, of sX sY "l_xMin e" "l_yMin e"]
  obtain st5 where run2: "for_loop 0 (numSubsets st4)
                            (normalize_subset_step N sX sY (l_xMin e) (l_yMin e)) st4 = Inr st5"
    and f45: "frame_orbit st4 st5"
    and ml5: "map length (subsets (orbit st5)) = map length (subsets (orbit st4))"
    and rw5: "\<And>j k. raw (subsets (orbit st5) ! j ! k) = raw (subsets (orbit st4) ! j ! k)"
    and nm5: "\<And>j k. j < nat (numSubsets st4) \<Longrightarrow> k < nat N \<Longrightarrow>
               subsets (orbit st5) ! j ! k = normalized sX sY (l_xMin e) (l_yMin e) (subsets (orbit st4) ! j ! k)"
    by blast
  have n43: "numSubsets st3 = numSubsets st4" by (simp add: st4_def)
  have gen: "generateOrbit st S N = Inr st5"
    using run1 run2
    by (simp add: n43 generateOrbit_def Let_def st1_def[symmetric] m a_def[symmetric] b_def[symmetric]
        c_def[symmetric] sX_def[symmetric] sY_def[symmetric] st4_def[symmetric])
  have f05: "frame_gen st st5"
    using f03 f34 f45 frame_orbit_gen frame_gen_trans by blast
  have ex5: "xMin (orbit st5) = l_xMin e" "xMax (orbit st5) = l_xMax e"
    "yMin (orbit st5) = l_yMin e" "yMax (orbit st5) = l_yMax e"
    "scaleX (orbit st5) = sX" "scaleY (orbit st5) = sY"
    using frame_orbit_fields(16-21)[OF f45] by (simp_all add: st4_def)
  have par5: "orbitParams st5 = orbitParams st1"
    using frame_orbit_fields(7)[OF f45] frame_orbit_fields(7)[OF f23] frame_orbit_fields(7)[OF f12]
    by (simp add: st4_def)
  have px5: "px (subsets (orbit st5) ! j ! k) = px (subsets (orbit st3) ! j ! k)"
    and py5: "py (subsets (orbit st5) ! j ! k) = py (subsets (orbit st3) ! j ! k)" for j k
    using rw5[of j k] by (simp_all add: raw_def subs4)
  show ?thesis
  proof (rule that[of st5])
    show "generateOrbit st S N = Inr st5" by (rule gen)
    show "frame_gen st st5" by (rule f05)
    show "orbitParams st5 = orbitParams (shuffleParams st)"
      by (simp add: par5 st1_def prepareOrbit_props)
    show "map length (subsets (orbit st5)) = map length (subsets (orbit st))"
      by (simp add: ml5 subs4 ml3 subs2)
    show "xMin (orbit st5) \<le> 0" "0 \<le> xMax (orbit st5)" "yMin (orbit st5) \<le> 0" "0 \<le> yMax (orbit st5)"
      using ok by (simp_all add: ex5 ext_ok_def)
    show "scaleX (orbit st5) = js_div (2 * SCALE_FACTOR) (xMax (orbit st5) - xMin (orbit st5))"
      "scaleY (orbit st5) = js_div (2 * SCALE_FACTOR) (yMax (orbit st5) - yMin (orbit st5))"
      by (simp_all add: ex5 sX_def sY_def)
  next
    fix j k assume "j < nat S" "k < nat N"
    from inx[OF this] show "xMin (orbit st5) \<le> px (subsets (orbit st5) ! j ! k) \<and>
           px (subsets (orbit st5) ! j ! k) \<le> xMax (orbit st5) \<and>
           yMin (orbit st5) \<le> py (subsets (orbit st5) ! j ! k) \<and>
           py (subsets (orbit st5) ! j ! k) \<le> yMax (orbit st5)"
      by (simp add: ex5 px5 py5 in_extents_def)
  next
    fix j k assume j: "j < nat (numSubsets st)" and k: "k < nat N"
    have jS: "j < nat S" using j ns by linarith
    have jl: "j < length (subsets (orbit st))" using orbit_shapeD(1)[OF sh] jS by simp
    have kl: "k < length (subsets (orbit st) ! j)" using orbit_shapeD(3)[OF sh jS] k by simp
    have "map (map vertex) (subsets (orbit st3)) ! j ! k = map (map vertex) (subsets (orbit st)) ! j ! k"
      by (simp add: vt3 subs2)
    moreover have "length (subsets (orbit st3)) = length (subsets (orbit st))"
      using ml3 subs2 by (metis length_map)
    moreover have "length (subsets (orbit st3) ! j) = length (subsets (orbit st) ! j)"
      using map_length_nth[OF ml3] jl subs2 calculation(2) by simp
    ultimately have v3: "vertex (subsets (orbit st3) ! j ! k) = vertex (subsets (orbit st) ! j ! k)"
      using jl kl by simp
    from nm5[of j k] j k n4
    have "subsets (orbit st5) ! j ! k = normalized sX sY (l_xMin e) (l_yMin e) (subsets (orbit st3) ! j ! k)"
      by (simp add: subs4)
    then show "vertex (subsets (orbit st5) ! j ! k) = (vertex (subsets (orbit st) ! j ! k))
             \<lparr>vx := map_option (\<lambda>sc. sc * (px (subsets (orbit st5) ! j ! k) - xMin (orbit st5)) - SCALE_FACTOR)
                      (scaleX (orbit st5)),
              vy := map_option (\<lambda>sc. sc * (py (subsets (orbit st5) ! j ! k) - yMin (orbit st5)) - SCALE_FACTOR)
                      (scaleY (orbit st5))\<rparr>"
      by (simp add: px5 py5 ex5 normalized_def v3)
  next
    assume S1: "1 \<le> S"
    have l5: "length (subsets (orbit st5)) = length (subsets (orbit st4))"
      using ml5 by (metis length_map)
    have "0 < length (subsets (orbit st4))" using orbit_shapeD(1)[OF sh4] S1 by linarith
    then have r0: "length (subsets (orbit st5) ! 0) = length (subsets (orbit st3) ! 0)"
      using map_length_nth[OF ml5, of 0] l5 by (simp add: subs4)
    have "map raw (subsets (orbit st5) ! 0) = map raw (subsets (orbit st3) ! 0)"
    proof (rule nth_equalityI)
      show "length (map raw (subsets (orbit st5) ! 0)) = length (map raw (subsets (orbit st3) ! 0))"
        using r0 by simp
    next
      fix i assume "i < length (map raw (subsets (orbit st5) ! 0))"
      then show "map raw (subsets (orbit st5) ! 0) ! i = map raw (subsets (orbit st3) ! 0) ! i"
        using rw5[of 0 i] r0 by (simp add: subs4)
    qed
    then show "map raw (subsets (orbit st5) ! 0) =
           hop_iterates (nat N) (par_a (orbitParams st5)) (par_b (orbitParams st5))
             (par_c (orbitParams st5)) (0, 0)"
      using raw3[OF S1] by (simp add: par5 a_def b_def c_def)
  qed
qed

subsection \<open>initOrbit\<close>

lemma initOrbit_shape: "orbit_shape (subsets (orbit (initOrbit st S N))) S N"
  by (simp add: initOrbit_subsets orbit_shape_def list_all_length)

lemma initOrbit_fields:
  "numSubsets (initOrbit st S N) = numSubsets st"
  "numLevels (initOrbit st S N) = numLevels st"
  "numPointsSubset (initOrbit st S N) = numPointsSubset st"
  "particleSets (initOrbit st S N) = particleSets st"
  "rand_stream (initOrbit st S N) = rand_stream st"
  "scene (initOrbit st S N) = scene st"
  "nextId (initOrbit st S N) = nextId st"
  by (simp_all add: initOrbit_def)

subsection \<open>A small instance\<close>

lemma example_instance_fields:
  "numSubsets example_instance = 1" "numPointsSubset example_instance = 2"
  "numLevels example_instance = 7"
  by (simp_all add: example_instance_def initOrbit_fields initial_fields_def no_settings_def
      js_or_def DEFAULT_LEVELS_def)

lemma example_instance_shape: "orbit_shape (subsets (orbit example_instance)) 1 2"
  unfolding example_instance_def by (rule initOrbit_shape)

lemma initOrbit_z0:
  "list_all (list_all (\<lambda>p. vz (vertex p) = Some 0)) (subsets (orbit (initOrbit st S N)))"
  by (simp add: initOrbit_subsets list_all_length zero_point_def)

lemma example_instance_generate:
  "\<exists>st'. generateOrbit example_instance 1 2 = Inr st' \<and>
      xMin (orbit st') = 0 \<and> xMax (orbit st') = 15 \<and> yMin (orbit st') = 0 \<and> yMax (orbit st') = 15"
  by (simp add: example_instance_def initial_fields_def no_settings_def js_or_def
      DEFAULT_SPEED_def DEFAULT_ROTATION_SPEED_def DEFAULT_LEVELS_def
      initOrbit_def for_pure.simps zero_point_def
      generateOrbit_def prepareOrbit_def shuffleParams_def Math_random_def Let_def
      A_MIN_def A_MAX_def B_MIN_def B_MAX_def C_MIN_def C_MAX_def D_MIN_def D_MAX_def E_MIN_def E_MAX_def
      for_loop.simps orbit_subset_step_def orbit_point_step_def subset_seed_def nth_opt_def
      hopalong_def track_extents_def js_div_def SCALE_FACTOR_def
      normalize_subset_step_def normalize_point_step_def)

subsection \<open>Generating particle sets\<close>

lemma generateParticleSet_add_set:
  "0 \<le> s \<Longrightarrow> nat s < length (subsets (orbit st)) \<Longrightarrow>
   generateParticleSet st k s = Inr (add_set (k, s) st)"
  by (simp add: generateParticleSet_def add_set_def nth_opt_def Let_def)

lemma add_set_fields:
  "orbit (add_set ks st) = orbit st" "numSubsets (add_set ks st) = numSubsets st"
  "numLevels (add_set ks st) = numLevels st" "numPointsSubset (add_set ks st) = numPointsSubset st"
  "hueValues (add_set ks st) = hueValues st"
  by (simp_all add: add_set_def)

lemma fold_add_set_fields:
  "orbit (fold add_set ps st) = orbit st" "numSubsets (fold add_set ps st) = numSubsets st"
  "numLevels (fold add_set ps st) = numLevels st"
  "numPointsSubset (fold add_set ps st) = numPointsSubset st"
  "hueValues (fold add_set ps st) = hueValues st"
  by (induction ps arbitrary: st; simp add: add_set_fields)+

lemma upto_Cons: "i \<le> j \<Longrightarrow> [i..j] = i # [i + 1..j]"
  by (simp add: upto_rec1)

lemma sets_inner_loop:
  assumes "0 \<le> i" "nat n \<le> length (subsets (orbit st))"
  shows "for_loop i n (\<lambda>s st'. if wanted k s then generateParticleSet st' k s else Inr st') st
         = Inr (fold add_set (filter (\<lambda>(k', s). wanted k' s) (map (Pair k) [i..n - 1])) st)"
  using assms
proof (induction i n "\<lambda>s st'. if wanted k s then generateParticleSet st' k s else Inr st'" st
    rule: for_loop.induct)
  case (1 i n st)
  show ?case
  proof (cases "i < n")
    case True
    then have up: "[i..n - 1] = i # [i + 1..n - 1]" by (simp add: upto_Cons)
    have ilt: "nat i < length (subsets (orbit st))" using True "1.prems" by linarith
    show ?thesis
    proof (cases "wanted k i")
      case w: True
      have b: "(if wanted k i then generateParticleSet st k i else Inr st) = Inr (add_set (k, i) st)"
        using w generateParticleSet_add_set[OF "1.prems"(1) ilt] by simp
      have "for_loop (i + 1) n (\<lambda>s st'. if wanted k s then generateParticleSet st' k s else Inr st')
              (add_set (k, i) st)
            = Inr (fold add_set (filter (\<lambda>(k', s). wanted k' s) (map (Pair k) [i + 1..n - 1]))
                    (add_set (k, i) st))"
        using "1.hyps"[OF True b] "1.prems" by (simp add: add_set_fields)
      then show ?thesis using True b w by (simp add: for_loop_step up)
    next
      case w: False
      have b: "(if wanted k i then generateParticleSet st k i else Inr st) = Inr st"
        using w by simp
      have "for_loop (i + 1) n (\<lambda>s st'. if wanted k s then generateParticleSet st' k s else Inr st') st
            = Inr (fold add_set (filter (\<lambda>(k', s). wanted k' s) (map (Pair k) [i + 1..n - 1])) st)"
        using "1.hyps"[OF True b] "1.prems" by simp
      then show ?thesis using True b w by (simp add: for_loop_step up)
    qed
  next
    case False
    then show ?thesis by (simp add: for_loop_done)
  qed
qed

lemma sets_outer_loop:
  assumes "nat n \<le> length (subsets (orbit st))" "numSubsets st = n"
  shows "for_loop k m
           (\<lambda>k. for_loop 0 n (\<lambda>s st'. if wanted k s then generateParticleSet st' k s else Inr st')) st
         = Inr (fold add_set (filter (\<lambda>(k', s). wanted k' s) (List.product [k..m - 1] [0..n - 1])) st)"
  using assms
proof (induction k m "\<lambda>k. for_loop 0 n (\<lambda>s st'. if wanted k s then generateParticleSet st' k s else Inr st')" st
    rule: for_loop.induct)
  case (1 k m st)
  show ?case
  proof (cases "k < m")
    case True
    then have up: "[k..m - 1] = k # [k + 1..m - 1]" by (simp add: upto_Cons)
    let ?row = "filter (\<lambda>(k', s). wanted k' s) (map (Pair k) [0..n - 1])"
    have b: "for_loop 0 n (\<lambda>s st'. if wanted k s then generateParticleSet st' k s else Inr st') st
             = Inr (fold add_set ?row st)"
      by (rule sets_inner_loop[OF _ "1.prems"(1)]) simp
    have "for_loop (k + 1) m
           (\<lambda>k. for_loop 0 n (\<lambda>s st'. if wanted k s then generateParticleSet st' k s else Inr st'))
           (fold add_set ?row st)
         = Inr (fold add_set (filter (\<lambda>(k', s). wanted k' s) (List.product [k + 1..m - 1] [0..n - 1]))
                  (fold add_set ?row st))"
      using "1.hyps"[OF True b] "1.prems" by (simp add: fold_add_set_fields)
    then show ?thesis using True b by (simp add: for_loop_step up)
  next
    case False
    then show ?thesis by (simp add: for_loop_done)
  qed
qed

lemma generate_sets_loop_fold:
  assumes "nat (numSubsets st) \<le> length (subsets (orbit st))"
  shows "generate_sets_loop wanted st
         = Inr (fold add_set (filter (\<lambda>(k, s). wanted k s)
                  (List.product [0..numLevels st - 1] [0..numSubsets st - 1])) st)"
  unfolding generate_sets_loop_def by (rule sets_outer_loop[OF assms refl])

subsection \<open>What the reconciliation returns\<close>

lemma frame_setsI: "st' = st\<lparr>scene := sc, particleSets := ps, nextId := n\<rparr> \<Longrightarrow> frame_sets st st'"
  unfolding frame_sets_def by blast

lemma frame_sets_refl: "frame_sets st st"
  by (rule frame_setsI[where sc = "scene st" and ps = "particleSets st" and n = "nextId st"]) simp

lemma frame_sets_trans:
  assumes "frame_sets st st'" "frame_sets st' st''"
  shows "frame_sets st st''"
proof -
  from assms(1) obtain sc ps n where a: "st' = st\<lparr>scene := sc, particleSets := ps, nextId := n\<rparr>"
    unfolding frame_sets_def by blast
  from assms(2) obtain sc' ps' n' where b: "st'' = st'\<lparr>scene := sc', particleSets := ps', nextId := n'\<rparr>"
    unfolding frame_sets_def by blast
  show ?thesis by (rule frame_setsI[where sc = sc' and ps = ps' and n = n']) (simp add: a b)
qed

lemma frame_sets_fields:
  assumes "frame_sets st st'"
  shows "orbit st' = orbit st" "numSubsets st' = numSubsets st" "numLevels st' = numLevels st"
    "numPointsSubset st' = numPointsSubset st" "hueValues st' = hueValues st"
    "orbitParams st' = orbitParams st" "rand_stream st' = rand_stream st"
    "settingsUpdates st' = settingsUpdates st" "camera st' = camera st"
    "speed st' = speed st" "rotationSpeed st' = rotationSpeed st" "mouseLocked st' = mouseLocked st"
    "destroyed st' = destroyed st" "mouseX st' = mouseX st" "mouseY st' = mouseY st"
  using assms unfolding frame_sets_def by auto

lemma add_set_frame: "frame_sets st (add_set ks st)"
  by (rule frame_setsI[where sc = "scene (add_set ks st)" and ps = "particleSets (add_set ks st)"
        and n = "nextId (add_set ks st)"]) (simp add: add_set_def)

lemma fold_add_set_frame: "frame_sets st (fold add_set ps st)"
proof (induction ps arbitrary: st)
  case Nil
  show ?case by (simp add: frame_sets_refl)
next
  case (Cons p ps)
  show ?case using frame_sets_trans[OF add_set_frame Cons] by simp
qed

lemma upt_add_Suc: "[n..<n + Suc k] = n # [Suc n..<Suc n + k]"
  by (simp add: upt_conv_Cons del: upt_Suc)

lemma fold_add_set_sets:
  "\<exists>new. particleSets (fold add_set ps st) = particleSets st @ new \<and>
          map set_key new = ps \<and>
          map set_id new = [nextId st..<nextId st + length ps] \<and>
          list_all (\<lambda>p. \<not> needsUpdate p) new \<and>
          scene (fold add_set ps st) = scene st @ [nextId st..<nextId st + length ps] \<and>
          nextId (fold add_set ps st) = nextId st + length ps"
proof (induction ps arbitrary: st)
  case Nil
  show ?case by simp
next
  case (Cons p ps)
  from Cons[of "add_set p st"] obtain new where
    n: "particleSets (fold add_set ps (add_set p st)) = particleSets (add_set p st) @ new"
    "map set_key new = ps"
    "map set_id new = [nextId (add_set p st)..<nextId (add_set p st) + length ps]"
    "list_all (\<lambda>p. \<not> needsUpdate p) new"
    "scene (fold add_set ps (add_set p st)) = scene (add_set p st) @
        [nextId (add_set p st)..<nextId (add_set p st) + length ps]"
    "nextId (fold add_set ps (add_set p st)) = nextId (add_set p st) + length ps"
    by blast
  obtain q where q: "particleSets (add_set p st) = particleSets st @ [q]" "set_key q = p"
    "set_id q = nextId st" "\<not> needsUpdate q"
    by (simp add: add_set_def set_key_def set_id_def)
  have nx: "nextId (add_set p st) = Suc (nextId st)" "scene (add_set p st) = scene st @ [nextId st]"
    by (simp_all add: add_set_def)
  have up: "[nextId st..<nextId st + length (p # ps)] = nextId st # [Suc (nextId st)..<Suc (nextId st) + length ps]"
    using upt_add_Suc[of "nextId st" "length ps"] by simp
  show ?case
    unfolding up by (rule exI[of _ "q # new"]) (simp add: n q nx del: upt_Suc)
qed

lemma pruned_frame: "frame_sets st (pruned st)"
  by (rule frame_setsI[where sc = "scene (pruned st)" and ps = "particleSets (pruned st)"
        and n = "nextId st"]) (simp add: pruned_def)

lemma set_key_fun: "(\<lambda>particleSet. (myLevel particleSet, mySubset particleSet)) = set_key"
  by (simp add: set_key_def fun_eq_iff)

lemma reconcile_fold:
  assumes "nat (numSubsets st) \<le> length (subsets (orbit st))"
  shows "reconcile st = Inr (fold add_set (missing st) (pruned st))"
proof -
  have o: "orbit (pruned st) = orbit st" "numSubsets (pruned st) = numSubsets st"
    "numLevels (pruned st) = numLevels st"
    by (simp_all add: pruned_def)
  have a: "nat (numSubsets (pruned st)) \<le> length (subsets (orbit (pruned st)))"
    using assms by (simp add: o)
  show ?thesis
    unfolding reconcile_def Let_def pruned_def[symmetric] set_key_fun
    by (simp add: generate_sets_loop_fold[OF a] o missing_def)
qed

subsection \<open>Reconciliation of a settled state\<close>

lemma pruned_alt:
  "pruned st = st\<lparr>scene := fold (\<lambda>p. remove1 (set_id p)) (filter (\<lambda>p. \<not> in_range st p) (particleSets st)) (scene st),
                  particleSets := filter (in_range st) (particleSets st)\<rparr>"
  by (simp add: pruned_def in_range_def[abs_def] set_id_def[abs_def])

lemma missing_alt:
  "missing st = filter (\<lambda>ks. ks \<notin> set (map set_key (filter (in_range st) (particleSets st))))
                  (List.product [0..numLevels st - 1] [0..numSubsets st - 1])"
  unfolding missing_def in_range_def[abs_def] by (rule filter_cong) auto

lemma in_range_cong:
  "numLevels st' = numLevels st \<Longrightarrow> numSubsets st' = numSubsets st \<Longrightarrow> in_range st' = in_range st"
  by (simp add: in_range_def fun_eq_iff)

lemma product_upto_range:
  "(k, s) \<in> set (List.product [0..L - 1] [0..n - 1]) \<Longrightarrow> 0 \<le> k \<and> k < L \<and> 0 \<le> s \<and> s < n"
  by auto

lemma reconcile_result:
  assumes wf: "nat (numSubsets st) \<le> length (subsets (orbit st))"
  obtains st1 new where "reconcile st = Inr st1"
    and "frame_sets st st1"
    and "particleSets st1 = filter (in_range st) (particleSets st) @ new"
    and "map set_key new = missing st"
    and "map set_id new = [nextId st..<nextId st + length (missing st)]"
    and "list_all (\<lambda>p. \<not> needsUpdate p) new"
    and "scene st1 = fold (\<lambda>p. remove1 (set_id p)) (filter (\<lambda>p. \<not> in_range st p) (particleSets st)) (scene st)
                      @ [nextId st..<nextId st + length (missing st)]"
    and "nextId st1 = nextId st + length (missing st)"
proof -
  let ?st1 = "fold add_set (missing st) (pruned st)"
  from fold_add_set_sets[of "missing st" "pruned st"] obtain new where
    n: "particleSets ?st1 = particleSets (pruned st) @ new" "map set_key new = missing st"
    "map set_id new = [nextId (pruned st)..<nextId (pruned st) + length (missing st)]"
    "list_all (\<lambda>p. \<not> needsUpdate p) new"
    "scene ?st1 = scene (pruned st) @ [nextId (pruned st)..<nextId (pruned st) + length (missing st)]"
    "nextId ?st1 = nextId (pruned st) + length (missing st)"
    by (elim exE conjE) (rule that)
  have p: "particleSets (pruned st) = filter (in_range st) (particleSets st)"
    "scene (pruned st) = fold (\<lambda>p. remove1 (set_id p)) (filter (\<lambda>p. \<not> in_range st p) (particleSets st)) (scene st)"
    "nextId (pruned st) = nextId st"
    by (simp_all add: pruned_alt)
  show ?thesis
  proof (rule that[of ?st1 new])
    show "reconcile st = Inr ?st1" by (rule reconcile_fold[OF wf])
    show "frame_sets st ?st1" by (rule frame_sets_trans[OF pruned_frame fold_add_set_frame])
  qed (use n p in simp_all)
qed

lemma reconcile_fixed:
  assumes wf: "nat (numSubsets st) \<le> length (subsets (orbit st))"
    and all_in: "list_all (in_range st) (particleSets st)"
    and complete: "set (List.product [0..numLevels st - 1] [0..numSubsets st - 1])
                     \<subseteq> set (map set_key (particleSets st))"
  shows "reconcile st = Inr st"
proof -
  have f1: "filter (in_range st) (particleSets st) = particleSets st"
    using all_in by (simp add: list_all_iff)
  have f2: "filter (\<lambda>p. \<not> in_range st p) (particleSets st) = []"
    using all_in by (simp add: list_all_iff)
  have pr: "pruned st = st" by (simp add: pruned_alt f1 f2)
  have ms: "missing st = []"
    unfolding missing_alt f1 filter_empty_conv using complete by blast
  show ?thesis by (simp add: reconcile_fold[OF wf] pr ms)
qed

lemma reconcile_settled:
  assumes wf: "nat (numSubsets st) \<le> length (subsets (orbit st))"
  obtains st1 new where "reconcile st = Inr st1" and "frame_sets st st1"
    and "particleSets st1 = filter (in_range st) (particleSets st) @ new"
    and "list_all (in_range st1) (particleSets st1)"
    and "set (List.product [0..numLevels st1 - 1] [0..numSubsets st1 - 1])
           \<subseteq> set (map set_key (particleSets st1))"
proof (rule reconcile_result[OF wf])
  fix st1 new
  assume r: "reconcile st = Inr st1" and fr: "frame_sets st st1"
    and ps: "particleSets st1 = filter (in_range st) (particleSets st) @ new"
    and keys: "map set_key new = missing st"
  note ff = frame_sets_fields[OF fr]
  have ir: "in_range st1 = in_range st" by (rule in_range_cong) (simp_all add: ff)
  have new_in: "in_range st p" if "p \<in> set new" for p
  proof -
    have "set_key p \<in> set (missing st)" using that keys by (metis image_eqI set_map)
    then have "set_key p \<in> set (List.product [0..numLevels st - 1] [0..numSubsets st - 1])"
      unfolding missing_alt by (simp only: set_filter mem_Collect_eq)
    then have "(myLevel p, mySubset p) \<in> set (List.product [0..numLevels st - 1] [0..numSubsets st - 1])"
      by (simp only: set_key_def)
    from product_upto_range[OF this] show ?thesis by (simp only: in_range_def simp_thms)
  qed
  have all_in: "list_all (in_range st1) (particleSets st1)"
    unfolding ir ps list_all_append
  proof
    show "list_all (in_range st) (filter (in_range st) (particleSets st))"
      by (simp add: list_all_iff)
    show "list_all (in_range st) new" using new_in by (simp add: list_all_iff)
  qed
  have complete: "set (List.product [0..numLevels st1 - 1] [0..numSubsets st1 - 1])
                     \<subseteq> set (map set_key (particleSets st1))"
  proof
    fix ks assume a: "ks \<in> set (List.product [0..numLevels st1 - 1] [0..numSubsets st1 - 1])"
    show "ks \<in> set (map set_key (particleSets st1))"
    proof (cases "ks \<in> set (map set_key (filter (in_range st) (particleSets st)))")
      case True
      then show ?thesis unfolding ps map_append set_append by (rule UnI1)
    next
      case False
      have "ks \<in> set (List.product [0..numLevels st - 1] [0..numSubsets st - 1])"
        using a by (simp only: ff)
      with False have "ks \<in> set (missing st)"
        unfolding missing_alt by (simp only: set_filter mem_Collect_eq simp_thms)
      then have "ks \<in> set (map set_key new)" by (simp only: keys)
      then show ?thesis unfolding ps map_append set_append by (rule UnI2)
    qed
  qed
  show ?thesis by (rule that[OF r fr ps all_in complete])
qed

subsection \<open>The frame step and updateOrbit\<close>

lemma render_particleSet_advance:
  "subset_ok st p \<Longrightarrow> render_particleSet st p = Inr (advance st p)"
  by (simp add: render_particleSet_def advance_def subset_ok_def nth_opt_def Let_def)

lemma render_particleSet_clean:
  "\<not> needsUpdate p \<Longrightarrow> render_particleSet st p = Inr (advance st p)"
  by (simp add: render_particleSet_def advance_def Let_def)

lemma for_of_map:
  "list_all (\<lambda>x. body x = Inr (f x)) xs \<Longrightarrow> for_of body xs = Inr (map f xs)"
  by (induction xs) simp_all

lemma advance_camera: "cam_z c = cam_z (camera st) \<Longrightarrow> advance (st\<lparr>camera := c\<rparr>) = advance st"
  by (simp add: advance_def fun_eq_iff)

lemma render_advance:
  assumes "list_all (\<lambda>p. subset_ok st p \<or> \<not> needsUpdate p) (particleSets st)"
  shows "render st = Inr (st\<lparr>camera := (camera st)
                              \<lparr>cam_x := ease_axis (cam_x (camera st)) (mouseX st),
                               cam_y := ease_axis (cam_y (camera st)) (- mouseY st)\<rparr>,
                            particleSets := map (advance st) (particleSets st)\<rparr>)"
proof -
  let ?st1 = "st\<lparr>camera := (camera st)
                    \<lparr>cam_x := ease_axis (cam_x (camera st)) (getMouseX st),
                     cam_y := ease_axis (cam_y (camera st)) (- getMouseY st)\<rparr>\<rparr>"
  have adv: "advance ?st1 = advance st" by (rule advance_camera) simp
  have "render_particleSet ?st1 p = Inr (advance ?st1 p)" if "p \<in> set (particleSets st)" for p
  proof (cases "needsUpdate p")
    case True
    then have "subset_ok st p" using assms that by (auto simp: list_all_iff)
    then have "subset_ok ?st1 p" by (simp add: subset_ok_def)
    then show ?thesis by (rule render_particleSet_advance)
  next
    case False
    then show ?thesis by (rule render_particleSet_clean)
  qed
  then have "list_all (\<lambda>p. render_particleSet ?st1 p = Inr (advance ?st1 p)) (particleSets ?st1)"
    by (simp add: list_all_iff)
  from for_of_map[OF this] show ?thesis
    by (simp add: render_def Let_def advance_camera getMouseX_def getMouseY_def)
qed

lemma advance_props:
  "myLevel (advance st p) = myLevel p" "mySubset (advance st p) = mySubset p"
  "obj_id (particles (advance st p)) = obj_id (particles p)"
  "set_key (advance st p) = set_key p" "set_id (advance st p) = set_id p"
  by (simp_all add: advance_def set_key_def set_id_def)

lemma generateHues_result:
  "0 \<le> n \<Longrightarrow> generateHues st n =
     Inr (st\<lparr>hueValues := map (rand_stream st) [0..<nat n],
             rand_stream := (\<lambda>k. rand_stream st (nat n + k))\<rparr>)"
  by (simp add: generateHues_def)

lemma updateOrbit_result:
  assumes sh: "orbit_shape (subsets (orbit st)) (numSubsets st) (numPointsSubset st)"
    and n0: "0 \<le> numSubsets st"
  obtains st' where "updateOrbit st = Inr st'"
    and "st' = st\<lparr>orbitParams := orbitParams st', orbit := orbit st', hueValues := hueValues st',
                   rand_stream := rand_stream st',
                   particleSets := map (\<lambda>p. p\<lparr>needsUpdate := True\<rparr>) (particleSets st)\<rparr>"
    and "orbit_shape (subsets (orbit st')) (numSubsets st) (numPointsSubset st)"
    and "length (hueValues st') = nat (numSubsets st)"
proof (rule generateOrbit_wf[OF sh order_refl])
  fix st1
  assume gen: "generateOrbit st (numSubsets st) (numPointsSubset st) = Inr st1"
    and fr: "frame_gen st st1"
    and ml: "map length (subsets (orbit st1)) = map length (subsets (orbit st))"
  from fr obtain op ob r where st1: "st1 = st\<lparr>orbitParams := op, orbit := ob, rand_stream := r\<rparr>"
    unfolding frame_gen_def by blast
  have n1: "numSubsets st1 = numSubsets st" by (simp add: st1)
  let ?st2 = "st1\<lparr>hueValues := map (rand_stream st1) [0..<nat (numSubsets st)],
                  rand_stream := (\<lambda>k. rand_stream st1 (nat (numSubsets st) + k))\<rparr>"
  let ?st3 = "?st2\<lparr>particleSets := map (\<lambda>p. p\<lparr>needsUpdate := True\<rparr>) (particleSets ?st2)\<rparr>"
  have up: "updateOrbit st = Inr ?st3"
    by (simp add: updateOrbit_def gen n1 generateHues_result[OF n0])
  show ?thesis
  proof (rule that[of ?st3])
    show "updateOrbit st = Inr ?st3" by (rule up)
    show "?st3 = st\<lparr>orbitParams := orbitParams ?st3, orbit := orbit ?st3, hueValues := hueValues ?st3,
                   rand_stream := rand_stream ?st3,
                   particleSets := map (\<lambda>p. p\<lparr>needsUpdate := True\<rparr>) (particleSets st)\<rparr>"
      by (simp add: st1)
    show "orbit_shape (subsets (orbit ?st3)) (numSubsets st) (numPointsSubset st)"
      using orbit_shape_map_length[OF ml sh] by simp
    show "length (hueValues ?st3) = nat (numSubsets st)" by simp
  qed
qed

subsection \<open>What init returns\<close>

lemma map_skel_zip:
  "map set_key ps = ks \<Longrightarrow> map set_id ps = ids \<Longrightarrow> map skel ps = zip ks ids"
  by (auto simp: skel_def[abs_def] zip_map_map[symmetric] intro!: nth_equalityI dest: map_eq_imp_length_eq)

lemma skel_advance: "skel (advance st p) = skel p"
  by (simp add: skel_def advance_props)

lemma skel_dirty: "skel (p\<lparr>needsUpdate := True\<rparr>) = skel p"
  by (simp add: skel_def set_key_def set_id_def)

lemma map_skel_advance: "map skel (map (advance st) ps) = map skel ps"
  by (simp add: skel_def[abs_def] advance_props)

lemma map_skel_dirty: "map skel (map (\<lambda>p. p\<lparr>needsUpdate := True\<rparr>) ps) = map skel ps"
  by (simp add: skel_def[abs_def] set_key_def set_id_def)

lemma init_result:
  assumes sh: "orbit_shape (subsets (orbit st)) (numSubsets st) (numPointsSubset st)"
    and n0: "0 \<le> numSubsets st" and emp: "particleSets st = []"
  obtains st' where "init st w h = Inr st'"
    and "numLevels st' = numLevels st" "numSubsets st' = numSubsets st"
    and "numPointsSubset st' = numPointsSubset st"
    and "orbit_shape (subsets (orbit st')) (numSubsets st) (numPointsSubset st)"
    and "map skel (particleSets st') =
           zip (List.product [0..numLevels st - 1] [0..numSubsets st - 1])
               [nextId st..<nextId st + length (List.product [0..numLevels st - 1] [0..numSubsets st - 1])]"
    and "scene st' = [nextId st..<nextId st + length (List.product [0..numLevels st - 1] [0..numSubsets st - 1])]"
    and "list_all (\<lambda>p. \<not> needsUpdate p) (particleSets st')"
    and "destroyed st' = destroyed st" and "settingsUpdates st' = settingsUpdates st"
proof -
  let ?st1 = "st\<lparr>camera := \<lparr>cam_x = 0, cam_y = 0, cam_z = SCALE_FACTOR / 2, fov = DEFAULT_FOV\<rparr>,
                   scene := []\<rparr>"
  have sh1: "orbit_shape (subsets (orbit ?st1)) (numSubsets ?st1) (numPointsSubset ?st1)"
    using sh by simp
  show ?thesis
  proof (rule generateOrbit_wf[OF sh1 order_refl])
    fix st2
    assume gen: "generateOrbit ?st1 (numSubsets ?st1) (numPointsSubset ?st1) = Inr st2"
      and fr: "frame_gen ?st1 st2"
      and ml: "map length (subsets (orbit st2)) = map length (subsets (orbit ?st1))"
    from fr obtain op ob r where st2: "st2 = ?st1\<lparr>orbitParams := op, orbit := ob, rand_stream := r\<rparr>"
      unfolding frame_gen_def by blast
    have sh2: "orbit_shape (subsets (orbit st2)) (numSubsets st) (numPointsSubset st)"
      using orbit_shape_map_length[OF ml sh1] by simp
    let ?st3 = "st2\<lparr>hueValues := map (rand_stream st2) [0..<nat (numSubsets st)],
                    rand_stream := (\<lambda>k. rand_stream st2 (nat (numSubsets st) + k))\<rparr>"
    have hues: "generateHues st2 (numSubsets st2) = Inr ?st3"
      using generateHues_result[OF n0, of st2] by (simp add: st2)
    have wf3: "nat (numSubsets ?st3) \<le> length (subsets (orbit ?st3))"
      using sh2 by (simp add: st2 orbit_shape_def)
    let ?pairs = "List.product [0..numLevels st - 1] [0..numSubsets st - 1]"
    let ?st4 = "fold add_set ?pairs ?st3"
    have loop: "generate_sets_loop (\<lambda>k s. True) ?st3 = Inr ?st4"
      using generate_sets_loop_fold[OF wf3, of "\<lambda>k s. True"] by (simp add: st2)
    have ini: "init st w h = Inr (onWindowResize ?st4 w h)"
      using gen hues loop by (simp add: init_def Let_def)
    from fold_add_set_sets[of ?pairs ?st3] obtain new where
      n: "particleSets ?st4 = particleSets ?st3 @ new" "map set_key new = ?pairs"
      "map set_id new = [nextId ?st3..<nextId ?st3 + length ?pairs]"
      "list_all (\<lambda>p. \<not> needsUpdate p) new"
      "scene ?st4 = scene ?st3 @ [nextId ?st3..<nextId ?st3 + length ?pairs]"
      "nextId ?st4 = nextId ?st3 + length ?pairs"
      by (elim exE conjE) (rule that)
    have e3: "particleSets ?st3 = []" "scene ?st3 = []" "nextId ?st3 = nextId st"
      by (simp_all add: st2 emp)
    show ?thesis
    proof (rule that[of "onWindowResize ?st4 w h"])
      show "init st w h = Inr (onWindowResize ?st4 w h)" by (rule ini)
      show "numLevels (onWindowResize ?st4 w h) = numLevels st"
        "numSubsets (onWindowResize ?st4 w h) = numSubsets st"
        "numPointsSubset (onWindowResize ?st4 w h) = numPointsSubset st"
        by (simp_all add: onWindowResize_def fold_add_set_fields st2)
      show "orbit_shape (subsets (orbit (onWindowResize ?st4 w h))) (numSubsets st) (numPointsSubset st)"
        using sh2 by (simp add: onWindowResize_def fold_add_set_fields)
      show "map skel (particleSets (onWindowResize ?st4 w h)) = zip ?pairs [nextId st..<nextId st + length ?pairs]"
        using map_skel_zip[OF n(2) n(3)] by (simp add: onWindowResize_def n(1) e3)
      show "scene (onWindowResize ?st4 w h) = [nextId st..<nextId st + length ?pairs]"
        by (simp add: onWindowResize_def n(5) e3)
      show "list_all (\<lambda>p. \<not> needsUpdate p) (particleSets (onWindowResize ?st4 w h))"
        using n(4) by (simp add: onWindowResize_def n(1) e3)
      have fs: "frame_sets ?st3 ?st4" by (rule fold_add_set_frame)
      have "destroyed ?st4 = destroyed ?st3" "settingsUpdates ?st4 = settingsUpdates ?st3"
        using frame_sets_fields(13)[OF fs] frame_sets_fields(8)[OF fs] by blast+
      then show "destroyed (onWindowResize ?st4 w h) = destroyed st"
        "settingsUpdates (onWindowResize ?st4 w h) = settingsUpdates st"
        by (simp_all add: onWindowResize_def st2)
    qed
  qed
qed

subsection \<open>What the constructor returns\<close>

lemma initial_fields_props:
  "numLevels (initial_fields settings w h rnd) = js_or (opt_levelCount settings) DEFAULT_LEVELS"
  "numSubsets (initial_fields settings w h rnd) = js_or (opt_subsetCount settings) DEFAULT_SUBSETS"
  "numPointsSubset (initial_fields settings w h rnd) = js_or (opt_pointsPerSubset settings) DEFAULT_POINTS_SUBSET"
  "particleSets (initial_fields settings w h rnd) = []"
  "nextId (initial_fields settings w h rnd) = 0"
  "destroyed (initial_fields settings w h rnd) = False"
  "rand_stream (initial_fields settings w h rnd) = rnd"
  by (simp_all add: initial_fields_def)

lemma Hopalong_new_result:
  assumes n0: "0 \<le> js_or (opt_subsetCount settings) DEFAULT_SUBSETS"
  obtains st where "Hopalong_new settings w h rnd = Inr st"
    and "numLevels st = js_or (opt_levelCount settings) DEFAULT_LEVELS"
    and "numSubsets st = js_or (opt_subsetCount settings) DEFAULT_SUBSETS"
    and "numPointsSubset st = js_or (opt_pointsPerSubset settings) DEFAULT_POINTS_SUBSET"
    and "orbit_shape (subsets (orbit st)) (numSubsets st) (numPointsSubset st)"
    and "map skel (particleSets st) =
           zip (List.product [0..numLevels st - 1] [0..numSubsets st - 1])
               [0..<length (List.product [0..numLevels st - 1] [0..numSubsets st - 1])]"
    and "scene st = [0..<length (List.product [0..numLevels st - 1] [0..numSubsets st - 1])]"
proof -
  let ?st0 = "initial_fields settings w h rnd"
  let ?st1 = "initOrbit ?st0 (numSubsets ?st0) (numPointsSubset ?st0)"
  note ip = initial_fields_props[of settings w h rnd]
  have sh1: "orbit_shape (subsets (orbit ?st1)) (numSubsets ?st1) (numPointsSubset ?st1)"
    using initOrbit_shape[of ?st0 "numSubsets ?st0" "numPointsSubset ?st0"]
    by (simp only: initOrbit_fields)
  have n1: "0 \<le> numSubsets ?st1" using n0 by (simp only: initOrbit_fields ip)
  have e1: "particleSets ?st1 = []" by (simp only: initOrbit_fields ip)
  show ?thesis
  proof (rule init_result[OF sh1 n1 e1, of w h])
    fix st2
    assume ini: "init ?st1 w h = Inr st2"
      and c: "numLevels st2 = numLevels ?st1" "numSubsets st2 = numSubsets ?st1"
        "numPointsSubset st2 = numPointsSubset ?st1"
      and sh2: "orbit_shape (subsets (orbit st2)) (numSubsets ?st1) (numPointsSubset ?st1)"
      and sk: "map skel (particleSets st2) =
           zip (List.product [0..numLevels ?st1 - 1] [0..numSubsets ?st1 - 1])
               [nextId ?st1..<nextId ?st1 + length (List.product [0..numLevels ?st1 - 1] [0..numSubsets ?st1 - 1])]"
      and sc: "scene st2 = [nextId ?st1..<nextId ?st1 + length (List.product [0..numLevels ?st1 - 1] [0..numSubsets ?st1 - 1])]"
      and clean: "list_all (\<lambda>p. \<not> needsUpdate p) (particleSets st2)"
      and d: "destroyed st2 = destroyed ?st1"
    have ok: "list_all (\<lambda>p. subset_ok st2 p \<or> \<not> needsUpdate p) (particleSets st2)"
      using clean by (simp add: list_all_iff)
    let ?st3 = "st2\<lparr>camera := (camera st2)
                              \<lparr>cam_x := ease_axis (cam_x (camera st2)) (mouseX st2),
                               cam_y := ease_axis (cam_y (camera st2)) (- mouseY st2)\<rparr>,
                            particleSets := map (advance st2) (particleSets st2)\<rparr>"
    have nd: "\<not> destroyed st2" using d by (simp add: initOrbit_def ip)
    have an: "animate st2 = Inr ?st3" using render_advance[OF ok] nd by (simp add: animate_def)
    have new: "Hopalong_new settings w h rnd = Inr (fireSettingsChange ?st3)"
      using ini an by (simp add: Hopalong_new_def Let_def)
    have c1: "numLevels ?st1 = js_or (opt_levelCount settings) DEFAULT_LEVELS"
      "numSubsets ?st1 = js_or (opt_subsetCount settings) DEFAULT_SUBSETS"
      "numPointsSubset ?st1 = js_or (opt_pointsPerSubset settings) DEFAULT_POINTS_SUBSET"
      "nextId ?st1 = 0"
      by (simp_all only: initOrbit_fields ip)
    show ?thesis
    proof (rule that[of "fireSettingsChange ?st3"])
      show "Hopalong_new settings w h rnd = Inr (fireSettingsChange ?st3)" by (rule new)
      show "numLevels (fireSettingsChange ?st3) = js_or (opt_levelCount settings) DEFAULT_LEVELS"
        "numSubsets (fireSettingsChange ?st3) = js_or (opt_subsetCount settings) DEFAULT_SUBSETS"
        "numPointsSubset (fireSettingsChange ?st3) = js_or (opt_pointsPerSubset settings) DEFAULT_POINTS_SUBSET"
        using c c1 by (simp_all add: fireSettingsChange_def)
      show "orbit_shape (subsets (orbit (fireSettingsChange ?st3)))
              (numSubsets (fireSettingsChange ?st3)) (numPointsSubset (fireSettingsChange ?st3))"
        using sh2 c by (simp add: fireSettingsChange_def)
      show "map skel (particleSets (fireSettingsChange ?st3)) =
           zip (List.product [0..numLevels (fireSettingsChange ?st3) - 1] [0..numSubsets (fireSettingsChange ?st3) - 1])
               [0..<length (List.product [0..numLevels (fireSettingsChange ?st3) - 1]
                                         [0..numSubsets (fireSettingsChange ?st3) - 1])]"
        using sk c c1(4) by (simp add: fireSettingsChange_def o_def skel_advance)
      show "scene (fireSettingsChange ?st3) =
              [0..<length (List.product [0..numLevels (fireSettingsChange ?st3) - 1]
                                        [0..numSubsets (fireSettingsChange ?st3) - 1])]"
        using sc c c1(4) by (simp add: fireSettingsChange_def)
    qed
  qed
qed

subsection \<open>setLevelSubsetCount with regeneration\<close>

lemma default_skeleton_missing:
  "filter (\<lambda>ks. ks \<notin> set (map fst (filter within_six default_skeleton)))
     (List.product [0..5] [0..5]) = []"
  by code_simp

lemma default_skeleton_kept: "map fst (filter within_six default_skeleton) = List.product [0..5] [0..5]"
  by code_simp

lemma default_skeleton_scene:
  "fold remove1 (map snd (filter (\<lambda>x. \<not> within_six x) default_skeleton)) [0..<49]
   = map snd (filter within_six default_skeleton)"
  by code_simp

lemma default_skeleton_removed: "length (filter (\<lambda>x. \<not> within_six x) default_skeleton) = 13"
  by code_simp

lemma default_skeleton_ids: "map snd default_skeleton = [0..<49]"
  by code_simp

lemma default_skeleton_length: "length (List.product [0..6] [0..6 :: int]) = 49"
  by code_simp

lemma default_skeleton_remaining:
  "filter (\<lambda>i. i \<notin> set (map snd (filter (\<lambda>x. \<not> within_six x) default_skeleton))) [0..<49]
   = map snd (filter within_six default_skeleton)"
  by code_simp

lemma filter_skel:
  assumes "\<And>p. P p = Q (skel p)"
  shows "map skel (filter P ps) = filter Q (map skel ps)"
  by (induction ps) (simp_all add: assms)

lemma set_key_skel: "map set_key ps = map fst (map skel ps)"
  by (simp add: skel_def o_def)

lemma set_id_skel: "map set_id ps = map snd (map skel ps)"
  by (simp add: skel_def o_def)

lemma fold_remove_ids:
  "fold (\<lambda>p. remove1 (set_id p)) ps sc = fold remove1 (map set_id ps) sc"
  by (simp add: fold_map o_def)

lemma setLevelSubsetCount_regenerate:
  assumes regen: "opt_subsetCount ps \<noteq> None \<or> opt_pointsPerSubset ps \<noteq> None"
    and n0: "0 \<le> js_or (opt_subsetCount ps) (numSubsets st)"
  obtains st2 st3 new where
    "setLevelSubsetCount st ps = Inr (fireSettingsChange st3)"
    and "updateOrbit (initOrbit (st\<lparr>numLevels := js_or (opt_levelCount ps) (numLevels st),
                                    numSubsets := js_or (opt_subsetCount ps) (numSubsets st),
                                    numPointsSubset := js_or (opt_pointsPerSubset ps) (numPointsSubset st)\<rparr>)
                         (js_or (opt_subsetCount ps) (numSubsets st))
                         (js_or (opt_pointsPerSubset ps) (numPointsSubset st))) = Inr st2"
    and "numLevels st2 = js_or (opt_levelCount ps) (numLevels st)"
    and "numSubsets st2 = js_or (opt_subsetCount ps) (numSubsets st)"
    and "numPointsSubset st2 = js_or (opt_pointsPerSubset ps) (numPointsSubset st)"
    and "orbit_shape (subsets (orbit st2)) (numSubsets st2) (numPointsSubset st2)"
    and "particleSets st2 = map (\<lambda>p. p\<lparr>needsUpdate := True\<rparr>) (particleSets st)"
    and "scene st2 = scene st" "nextId st2 = nextId st"
    and "orbitParams st2 = orbitParams (shuffleParams st)"
    and "reconcile st2 = Inr st3" and "frame_sets st2 st3"
    and "particleSets st3 = filter (in_range st2) (particleSets st2) @ new"
    and "map set_key new = missing st2"
    and "scene st3 = fold (\<lambda>p. remove1 (set_id p)) (filter (\<lambda>p. \<not> in_range st2 p) (particleSets st2)) (scene st2)
                      @ [nextId st2..<nextId st2 + length (missing st2)]"
proof -
  let ?L = "js_or (opt_levelCount ps) (numLevels st)"
  let ?n = "js_or (opt_subsetCount ps) (numSubsets st)"
  let ?N = "js_or (opt_pointsPerSubset ps) (numPointsSubset st)"
  let ?st1 = "st\<lparr>numLevels := ?L, numSubsets := ?n, numPointsSubset := ?N\<rparr>"
  let ?sti = "initOrbit ?st1 ?n ?N"
  have shi: "orbit_shape (subsets (orbit ?sti)) (numSubsets ?sti) (numPointsSubset ?sti)"
    using initOrbit_shape[of ?st1 ?n ?N] by (simp add: initOrbit_fields)
  have ni: "0 \<le> numSubsets ?sti" using n0 by (simp add: initOrbit_fields)
  show ?thesis
  proof (rule updateOrbit_result[OF shi ni])
    fix st2
    assume up: "updateOrbit ?sti = Inr st2"
      and eq: "st2 = ?sti\<lparr>orbitParams := orbitParams st2, orbit := orbit st2, hueValues := hueValues st2,
                   rand_stream := rand_stream st2,
                   particleSets := map (\<lambda>p. p\<lparr>needsUpdate := True\<rparr>) (particleSets ?sti)\<rparr>"
      and sh2: "orbit_shape (subsets (orbit st2)) (numSubsets ?sti) (numPointsSubset ?sti)"
    have f2: "numLevels st2 = ?L" "numSubsets st2 = ?n" "numPointsSubset st2 = ?N"
      "particleSets st2 = map (\<lambda>p. p\<lparr>needsUpdate := True\<rparr>) (particleSets st)"
      "scene st2 = scene st" "nextId st2 = nextId st"
      by (subst eq, simp add: initOrbit_fields)+
    have par: "orbitParams st2 = orbitParams (shuffleParams st)"
    proof -
      have "generateOrbit ?sti (numSubsets ?sti) (numPointsSubset ?sti) \<noteq> Inl e" for e
        using up by (auto simp: updateOrbit_def split: sum.splits)
      then obtain g where g: "generateOrbit ?sti (numSubsets ?sti) (numPointsSubset ?sti) = Inr g"
        by (cases "generateOrbit ?sti (numSubsets ?sti) (numPointsSubset ?sti)") auto
      have "orbitParams g = orbitParams (shuffleParams ?sti)"
        by (rule generateOrbit_wf[OF shi order_refl]) (use g in simp)
      moreover have "orbitParams st2 = orbitParams g"
        using up g by (auto simp: updateOrbit_def generateHues_def split: sum.splits if_splits)
      moreover have "orbitParams (shuffleParams ?sti) = orbitParams (shuffleParams st)"
        by (simp add: shuffleParams_def Math_random_def Let_def initOrbit_def)
      ultimately show ?thesis by simp
    qed
    have sh2': "orbit_shape (subsets (orbit st2)) (numSubsets st2) (numPointsSubset st2)"
      using sh2 by (simp add: f2 initOrbit_fields)
    have wf2: "nat (numSubsets st2) \<le> length (subsets (orbit st2))"
      using sh2' by (simp add: orbit_shape_def)
    show ?thesis
    proof (rule reconcile_result[OF wf2])
      fix st3 new
      assume r: "reconcile st2 = Inr st3" and fr: "frame_sets st2 st3"
        and p3: "particleSets st3 = filter (in_range st2) (particleSets st2) @ new"
        and k3: "map set_key new = missing st2"
        and s3: "scene st3 = fold (\<lambda>p. remove1 (set_id p)) (filter (\<lambda>p. \<not> in_range st2 p) (particleSets st2)) (scene st2)
                      @ [nextId st2..<nextId st2 + length (missing st2)]"
      have res: "setLevelSubsetCount st ps = Inr (fireSettingsChange st3)"
        using regen up r by (simp add: setLevelSubsetCount_def Let_def)
      show ?thesis
        by (rule that[of st3 st2 new]) (intro res up f2 sh2' par r fr p3 k3 s3)+
    qed
  qed
qed

subsection \<open>changeLevelSubset on the default configuration\<close>

lemma changeLevelSubset_defaults:
  obtains st0 st' where
    "Hopalong_new no_settings w h rnd = Inr st0"
    and "numLevels st0 = 7" "numSubsets st0 = 7" "numPointsSubset st0 = 4000"
    and "map set_key (particleSets st0) = List.product [0..6] [0..6]"
    and "scene st0 = map set_id (particleSets st0)" "scene st0 = [0..<49]"
    and "length (subsets (orbit st0)) = 7"
    and "changeLevelSubset st0 (- 1) = Inr st'"
    and "numLevels st' = 6" "numSubsets st' = 6" "numPointsSubset st' = 4000"
    and "particleSets st' = map (\<lambda>p. p\<lparr>needsUpdate := True\<rparr>)
                               (filter (\<lambda>p. myLevel p < 6 \<and> mySubset p < 6) (particleSets st0))"
    and "map set_key (particleSets st') = List.product [0..5] [0..5]"
    and "length (filter (\<lambda>p. \<not> (myLevel p < 6 \<and> mySubset p < 6)) (particleSets st0)) = 13"
    and "scene st' = map set_id (particleSets st')"
    and "scene st' = filter (\<lambda>i. i \<notin> set (map set_id
                        (filter (\<lambda>p. \<not> (myLevel p < 6 \<and> mySubset p < 6)) (particleSets st0))))
                      (scene st0)"
    and "orbit_shape (subsets (orbit st')) 6 4000"
    and "orbitParams st' = orbitParams (shuffleParams st0)"
proof -
  have n0: "0 \<le> js_or (opt_subsetCount no_settings) DEFAULT_SUBSETS"
    by (simp add: no_settings_def js_or_def DEFAULT_SUBSETS_def)
  show ?thesis
  proof (rule Hopalong_new_result[OF n0, of w h rnd])
    fix st0
    assume new0: "Hopalong_new no_settings w h rnd = Inr st0"
      and L0: "numLevels st0 = js_or (opt_levelCount no_settings) DEFAULT_LEVELS"
      and S0: "numSubsets st0 = js_or (opt_subsetCount no_settings) DEFAULT_SUBSETS"
      and N0: "numPointsSubset st0 = js_or (opt_pointsPerSubset no_settings) DEFAULT_POINTS_SUBSET"
      and sh0: "orbit_shape (subsets (orbit st0)) (numSubsets st0) (numPointsSubset st0)"
      and sk0: "map skel (particleSets st0) =
           zip (List.product [0..numLevels st0 - 1] [0..numSubsets st0 - 1])
               [0..<length (List.product [0..numLevels st0 - 1] [0..numSubsets st0 - 1])]"
      and sc0: "scene st0 = [0..<length (List.product [0..numLevels st0 - 1] [0..numSubsets st0 - 1])]"
    have c0: "numLevels st0 = 7" "numSubsets st0 = 7" "numPointsSubset st0 = 4000"
      using L0 S0 N0
      by (simp_all add: no_settings_def js_or_def DEFAULT_LEVELS_def DEFAULT_SUBSETS_def
          DEFAULT_POINTS_SUBSET_def)
    have skel0: "map skel (particleSets st0) = default_skeleton"
      using sk0 by (simp add: c0 default_skeleton_def)
    have scene0: "scene st0 = [0..<49]"
      using sc0 default_skeleton_length by (simp add: c0)
    have ids0: "map set_id (particleSets st0) = [0..<49]"
      by (simp add: set_id_skel skel0 default_skeleton_ids)
    have keys0: "map set_key (particleSets st0) = List.product [0..6] [0..6]"
      by (simp add: set_key_skel skel0 default_skeleton_def)
    have len0: "length (subsets (orbit st0)) = 7" using sh0 by (simp add: orbit_shape_def c0)
    let ?ps = "no_settings\<lparr>opt_levelCount := Some (numLevels st0 + - 1),
                             opt_subsetCount := Some (numSubsets st0 + - 1)\<rparr>"
    have o: "js_or (opt_levelCount ?ps) (numLevels st0) = 6"
      "js_or (opt_subsetCount ?ps) (numSubsets st0) = 6"
      "js_or (opt_pointsPerSubset ?ps) (numPointsSubset st0) = 4000"
      by (simp_all add: c0 js_or_def no_settings_def)
    have regen: "opt_subsetCount ?ps \<noteq> None \<or> opt_pointsPerSubset ?ps \<noteq> None" by simp
    have n6: "0 \<le> js_or (opt_subsetCount ?ps) (numSubsets st0)" unfolding o by simp
    show ?thesis
    proof (rule setLevelSubsetCount_regenerate[OF regen n6])
      fix st2 st3 new
      assume res: "setLevelSubsetCount st0 ?ps = Inr (fireSettingsChange st3)"
        and c2: "numLevels st2 = js_or (opt_levelCount ?ps) (numLevels st0)"
          "numSubsets st2 = js_or (opt_subsetCount ?ps) (numSubsets st0)"
          "numPointsSubset st2 = js_or (opt_pointsPerSubset ?ps) (numPointsSubset st0)"
        and sh2: "orbit_shape (subsets (orbit st2)) (numSubsets st2) (numPointsSubset st2)"
        and p2: "particleSets st2 = map (\<lambda>p. p\<lparr>needsUpdate := True\<rparr>) (particleSets st0)"
        and s2: "scene st2 = scene st0"
        and par: "orbitParams st2 = orbitParams (shuffleParams st0)"
        and fr: "frame_sets st2 st3"
        and p3: "particleSets st3 = filter (in_range st2) (particleSets st2) @ new"
        and k3: "map set_key new = missing st2"
        and s3: "scene st3 = fold (\<lambda>p. remove1 (set_id p)) (filter (\<lambda>p. \<not> in_range st2 p) (particleSets st2)) (scene st2)
                      @ [nextId st2..<nextId st2 + length (missing st2)]"
      note c2' = c2[unfolded o]
      have ir: "in_range st2 p = within_six (skel p)" for p
        by (simp add: in_range_def within_six_def skel_def set_key_def c2')
      have nir: "(\<not> in_range st2 p) = (\<not> within_six (skel p))" for p
        by (simp add: ir)
      have skel2: "map skel (particleSets st2) = default_skeleton"
        by (simp add: p2 o_def skel_dirty skel0)
      have kept: "map skel (filter (in_range st2) (particleSets st2)) = filter within_six default_skeleton"
        using filter_skel[of "in_range st2" within_six, OF ir] by (simp add: skel2)
      have gone: "map skel (filter (\<lambda>p. \<not> in_range st2 p) (particleSets st2))
                  = filter (\<lambda>x. \<not> within_six x) default_skeleton"
        using filter_skel[of "\<lambda>p. \<not> in_range st2 p" "\<lambda>x. \<not> within_six x", OF nir] by (simp add: skel2)
      have ms: "missing st2 = []"
        unfolding missing_alt set_key_skel kept c2'
        using default_skeleton_missing by simp
      have new: "new = []" using k3 ms by simp
      have ps3: "particleSets st3 = filter (in_range st2) (particleSets st2)" by (simp add: p3 new)
      have sc3: "scene st3 = map snd (filter within_six default_skeleton)"
        unfolding s3 ms fold_remove_ids set_id_skel gone s2 scene0
        using default_skeleton_scene by simp
      have sc3': "scene st3 = map set_id (particleSets st3)"
        by (simp add: sc3 ps3 set_id_skel kept)
      have in6: "(\<lambda>p. myLevel p < 6 \<and> mySubset p < 6) = in_range st2"
        by (simp add: in_range_def c2' fun_eq_iff)
      have in6d: "in_range st2 (p\<lparr>needsUpdate := True\<rparr>) = in_range st2 p" for p
        by (simp add: in_range_def)
      have ps3': "particleSets st3 = map (\<lambda>p. p\<lparr>needsUpdate := True\<rparr>)
                               (filter (in_range st2) (particleSets st0))"
        by (simp add: ps3 p2 filter_map o_def in6d)
      have keys3: "map set_key (particleSets st3) = List.product [0..5] [0..5]"
        by (simp add: ps3 set_key_skel kept default_skeleton_kept)
      have gone0: "map skel (filter (\<lambda>p. \<not> in_range st2 p) (particleSets st0))
                  = filter (\<lambda>x. \<not> within_six x) default_skeleton"
        using filter_skel[of "\<lambda>p. \<not> in_range st2 p" "\<lambda>x. \<not> within_six x", OF nir] by (simp add: skel0)
      have cnt: "length (filter (\<lambda>p. \<not> in_range st2 p) (particleSets st0)) = 13"
        using arg_cong[OF gone0, of length] by (simp add: default_skeleton_removed)
      have rem: "scene st3 = filter (\<lambda>i. i \<notin> set (map set_id
                        (filter (\<lambda>p. \<not> in_range st2 p) (particleSets st0)))) (scene st0)"
        unfolding sc3 set_id_skel gone0 scene0 using default_skeleton_remaining by simp
      note f3 = frame_sets_fields[OF fr]
      let ?st' = "fireSettingsChange st3"
      have fs: "numLevels ?st' = numLevels st3" "numSubsets ?st' = numSubsets st3"
        "numPointsSubset ?st' = numPointsSubset st3" "particleSets ?st' = particleSets st3"
        "scene ?st' = scene st3" "orbit ?st' = orbit st3" "orbitParams ?st' = orbitParams st3"
        by (simp_all add: fireSettingsChange_def)
      show ?thesis
      proof (rule that[of st0 ?st'])
        show "Hopalong_new no_settings w h rnd = Inr st0" by (rule new0)
        show "numLevels st0 = 7" "numSubsets st0 = 7" "numPointsSubset st0 = 4000" by (rule c0)+
        show "map set_key (particleSets st0) = List.product [0..6] [0..6]" by (rule keys0)
        show "scene st0 = map set_id (particleSets st0)" by (simp add: scene0 ids0)
        show "scene st0 = [0..<49]" by (rule scene0)
        show "length (subsets (orbit st0)) = 7" by (rule len0)
        show "changeLevelSubset st0 (- 1) = Inr ?st'"
          using res by (simp add: changeLevelSubset_def)
        show "numLevels ?st' = 6" "numSubsets ?st' = 6" "numPointsSubset ?st' = 4000"
          by (simp_all add: fs f3 c2')
        show "particleSets ?st' = map (\<lambda>p. p\<lparr>needsUpdate := True\<rparr>)
                               (filter (\<lambda>p. myLevel p < 6 \<and> mySubset p < 6) (particleSets st0))"
          by (simp only: fs ps3' in6)
        show "map set_key (particleSets ?st') = List.product [0..5] [0..5]"
          by (simp only: fs keys3)
        show "length (filter (\<lambda>p. \<not> (myLevel p < 6 \<and> mySubset p < 6)) (particleSets st0)) = 13"
          using cnt by (simp add: in_range_def c2')
        show "scene ?st' = map set_id (particleSets ?st')" by (simp only: fs sc3')
        show "scene ?st' = filter (\<lambda>i. i \<notin> set (map set_id
                        (filter (\<lambda>p. \<not> (myLevel p < 6 \<and> mySubset p < 6)) (particleSets st0))))
                      (scene st0)"
          using rem by (simp add: fs in_range_def c2')
        show "orbit_shape (subsets (orbit ?st')) 6 4000"
          using sh2 by (simp add: fs f3 c2')
        show "orbitParams ?st' = orbitParams (shuffleParams st0)"
          by (simp add: fs f3 par)
      qed
    qed
  qed
qed

subsection \<open>A small instance with particle sets\<close>

lemma example_frame_fields:
  "numSubsets example_frame = 1" "numPointsSubset example_frame = 2" "numLevels example_frame = 7"
  "speed example_frame = 8" "cam_z (camera example_frame) = 750"
  "orbit example_frame = orbit example_instance" "length (particleSets example_frame) = 2"
  "rotationSpeed example_frame = 5 / 1000"
  by (simp_all add: example_frame_def example_instance_fields)
     (simp_all add: example_instance_def initOrbit_def initial_fields_def no_settings_def js_or_def
        DEFAULT_SPEED_def DEFAULT_ROTATION_SPEED_def)

lemma example_frame_shape:
  "orbit_shape (subsets (orbit example_frame)) (numSubsets example_frame) (numPointsSubset example_frame)"
  using example_instance_shape by (simp add: example_frame_fields)

lemma example_frame_subsets_length: "length (subsets (orbit example_frame)) = 1"
  using example_frame_shape by (simp add: orbit_shape_def example_frame_fields)

lemma example_frame_sets:
  "particleSets example_frame =
          [\<lparr>myMaterial = HSL_of_HSV None DEF_SATURATION DEF_BRIGHTNESS, myLevel = 0, mySubset = 0,
            needsUpdate = True,
            particles = \<lparr>obj_id = 0, geometry = [], position_x = 0, position_y = 0,
                         position_z = 745, rotation_z = 0\<rparr>\<rparr>,
           \<lparr>myMaterial = HSL_of_HSV None DEF_SATURATION DEF_BRIGHTNESS, myLevel = 9, mySubset = 0,
            needsUpdate = True,
            particles = \<lparr>obj_id = 1, geometry = [], position_x = 0, position_y = 0,
                         position_z = 0, rotation_z = 0\<rparr>\<rparr>]"
  by (simp add: example_frame_def)

lemma example_frame_subset_ok: "list_all (subset_ok example_frame) (particleSets example_frame)"
  by (simp add: example_frame_sets subset_ok_def example_frame_subsets_length)

subsection \<open>Pointer events under the mouse lock\<close>

lemma pointer_locked: "mouseLocked st \<Longrightarrow> pointer ev st = st"
  by (cases ev) (simp_all add: onDocumentMouseMove_def onDocumentTouchStart_def onDocumentTouchMove_def)

lemma pointers_locked: "mouseLocked st \<Longrightarrow> fold pointer evs st = st"
  by (induction evs) (simp_all add: pointer_locked)

lemma recenterCamera_locked: "mouseLocked (recenterCamera st)"
  by (simp add: recenterCamera_def setMouseLock_def fireSettingsChange_def)

subsection \<open>Further facts\<close>

text \<open>Beyond the subsets allocated, the normalisation pass throws.\<close>

lemma generateOrbit_beyond_allocation:
  assumes sh: "orbit_shape (subsets (orbit st)) S N"
    and big: "S < numSubsets st" and N1: "0 < N" and S0: "0 \<le> S"
  shows "generateOrbit st S N = Inl TypeError"
proof -
  define st1 where "st1 = prepareOrbit st"
  define a where "a = par_a (orbitParams st1)"
  define b where "b = par_b (orbitParams st1)"
  define c where "c = par_c (orbitParams st1)"
  obtain choice st2 where m: "Math_random st1 = (choice, st2)" by (cases "Math_random st1") auto
  have f01: "frame_gen st st1" unfolding st1_def by (rule prepareOrbit_props)
  have f12: "frame_orbit st1 st2" and o2: "orbit st2 = orbit st1"
    using Math_random_frame[OF m] by auto
  have subs2: "subsets (orbit st2) = subsets (orbit st)"
    by (simp add: o2 st1_def prepareOrbit_props)
  have sh2: "orbit_shape (subsets (orbit st2)) S N" using sh subs2 by simp
  from first_pass[OF sh2, of a b c]
  obtain st3 e where run1: "for_loop 0 S (orbit_subset_step N a b c)
                    (st2, \<lparr>l_xMin = 0, l_xMax = 0, l_yMin = 0, l_yMax = 0\<rparr>) = Inr (st3, e)"
    and f23: "frame_orbit st2 st3"
    and ml3: "map length (subsets (orbit st3)) = map length (subsets (orbit st2))"
    by blast
  define sX where "sX = js_div (2 * SCALE_FACTOR) (l_xMax e - l_xMin e)"
  define sY where "sY = js_div (2 * SCALE_FACTOR) (l_yMax e - l_yMin e)"
  define st4 where "st4 = st3\<lparr>orbit := (orbit st3)
                          \<lparr>xMin := l_xMin e, xMax := l_xMax e, yMin := l_yMin e, yMax := l_yMax e,
                           scaleX := sX, scaleY := sY\<rparr>\<rparr>"
  let ?body = "normalize_subset_step N sX sY (l_xMin e) (l_yMin e)"
  have subs4: "subsets (orbit st4) = subsets (orbit st3)" by (simp add: st4_def)
  have sh4: "orbit_shape (subsets (orbit st4)) S N"
    unfolding subs4 by (rule orbit_shape_map_length[OF ml3 sh2])
  have f03: "frame_gen st st3"
    using f01 f12 f23 frame_orbit_gen frame_gen_trans by blast
  have n43: "numSubsets st3 = numSubsets st4" by (simp add: st4_def)
  have n4: "numSubsets st4 = numSubsets st"
    using frame_gen_fields(1)[OF f03] n43 by simp
  from second_pass[OF sh4 order_refl, of sX sY "l_xMin e" "l_yMin e"]
  obtain st5 where run2: "for_loop 0 S ?body st4 = Inr st5"
    and ml5: "map length (subsets (orbit st5)) = map length (subsets (orbit st4))"
    by blast
  have "length (subsets (orbit st5)) = nat S"
    using orbit_shape_map_length[OF ml5 sh4] by (simp add: orbit_shape_def)
  then have none: "nth_opt (subsets (orbit st5)) S = None" by (simp add: nth_opt_def)
  have stepS: "?body S st5 = Inl TypeError"
    using N1 by (simp add: normalize_subset_step_def none)
  have rest: "for_loop S (numSubsets st4) ?body st5 = Inl TypeError"
    using big n4 stepS by (simp add: for_loop_step)
  have "for_loop 0 (numSubsets st4) ?body st4 = Inl TypeError"
    using for_loop_split[of 0 S "numSubsets st4" ?body st4] S0 big n4 run2 rest by simp
  then show ?thesis
    using run1
    by (simp add: n43 generateOrbit_def Let_def st1_def[symmetric] m a_def[symmetric] b_def[symmetric]
        c_def[symmetric] sX_def[symmetric] sY_def[symmetric] st4_def[symmetric])
qed

lemma setLevelSubsetCount_nothing:
  "setLevelSubsetCount st no_settings =
     (case reconcile st of Inl err \<Rightarrow> Inl err | Inr st3 \<Rightarrow> Inr (fireSettingsChange st3))"
  by (simp add: setLevelSubsetCount_def no_settings_def js_or_def Let_def)

lemma reconcile_fixed_fire:
  assumes wf: "nat (numSubsets st) \<le> length (subsets (orbit st))"
    and all_in: "list_all (in_range st) (particleSets st)"
    and complete: "set (List.product [0..numLevels st - 1] [0..numSubsets st - 1])
                     \<subseteq> set (map set_key (particleSets st))"
  shows "reconcile (fireSettingsChange st) = Inr (fireSettingsChange st)"
proof (rule reconcile_fixed)
  show "nat (numSubsets (fireSettingsChange st)) \<le> length (subsets (orbit (fireSettingsChange st)))"
    using wf by (simp add: fireSettingsChange_def)
  have "in_range (fireSettingsChange st) = in_range st"
    by (rule in_range_cong) (simp_all add: fireSettingsChange_def)
  then show "list_all (in_range (fireSettingsChange st)) (particleSets (fireSettingsChange st))"
    using all_in by (simp add: fireSettingsChange_def)
  show "set (List.product [0..numLevels (fireSettingsChange st) - 1] [0..numSubsets (fireSettingsChange st) - 1])
          \<subseteq> set (map set_key (particleSets (fireSettingsChange st)))"
    using complete by (simp add: fireSettingsChange_def)
qed

section \<open>The claims\<close>

text \<open>
  Claim C1, as the code has it. From the default configuration (7 levels, 7 subsets,
  4000 points per subset; 49 particle sets), \<open>changeLevelSubset(-1)\<close> returns with
  6 levels and 6 subsets, tracking exactly one particle set for each pair
  \<open>(level, subset)\<close> with \<open>level < 6\<close> and \<open>subset < 6\<close>: they are the particle sets that
  were in range, in their order, each with its dirty flag set. The 13 particle sets out
  of range are dropped and the scene is the former scene without them. The orbit is
  regenerated, since \<open>subsetCount\<close> is passed: it is re-initialised to 6 subsets of 4000
  points and new parameters are drawn.
\<close>

theorem changeLevelSubset_from_defaults:
  "\<exists>st0 st'.
     Hopalong_new no_settings w h rnd = Inr st0 \<and>
     numLevels st0 = 7 \<and> numSubsets st0 = 7 \<and> numPointsSubset st0 = 4000 \<and>
     map set_key (particleSets st0) = List.product [0..6] [0..6] \<and>
     scene st0 = map set_id (particleSets st0) \<and> distinct (scene st0) \<and>
     length (subsets (orbit st0)) = 7 \<and>
     changeLevelSubset st0 (- 1) = Inr st' \<and>
     numLevels st' = 6 \<and> numSubsets st' = 6 \<and> numPointsSubset st' = 4000 \<and>
     map set_key (particleSets st') = List.product [0..5] [0..5] \<and>
     length (particleSets st') = 36 \<and>
     particleSets st' = map (\<lambda>p. p\<lparr>needsUpdate := True\<rparr>)
                          (filter (\<lambda>p. myLevel p < 6 \<and> mySubset p < 6) (particleSets st0)) \<and>
     length (filter (\<lambda>p. \<not> (myLevel p < 6 \<and> mySubset p < 6)) (particleSets st0)) = 13 \<and>
     scene st' = map set_id (particleSets st') \<and>
     scene st' = filter (\<lambda>i. i \<notin> set (map set_id
                    (filter (\<lambda>p. \<not> (myLevel p < 6 \<and> mySubset p < 6)) (particleSets st0))))
                  (scene st0) \<and>
     orbit_shape (subsets (orbit st')) 6 4000 \<and>
     orbitParams st' = orbitParams (shuffleParams st0)"
proof (rule changeLevelSubset_defaults[of w h rnd])
  fix st0 st'
  assume a: "Hopalong_new no_settings w h rnd = Inr st0"
    "numLevels st0 = 7" "numSubsets st0 = 7" "numPointsSubset st0 = 4000"
    "map set_key (particleSets st0) = List.product [0..6] [0..6]"
    "scene st0 = map set_id (particleSets st0)"
    and sc: "scene st0 = [0..<49]"
    and b: "length (subsets (orbit st0)) = 7"
    "changeLevelSubset st0 (- 1) = Inr st'"
    "numLevels st' = 6" "numSubsets st' = 6" "numPointsSubset st' = 4000"
    and ps: "particleSets st' = map (\<lambda>p. p\<lparr>needsUpdate := True\<rparr>)
                               (filter (\<lambda>p. myLevel p < 6 \<and> mySubset p < 6) (particleSets st0))"
    and keys: "map set_key (particleSets st') = List.product [0..5] [0..5]"
    and c: "length (filter (\<lambda>p. \<not> (myLevel p < 6 \<and> mySubset p < 6)) (particleSets st0)) = 13"
    "scene st' = map set_id (particleSets st')"
    "scene st' = filter (\<lambda>i. i \<notin> set (map set_id
                        (filter (\<lambda>p. \<not> (myLevel p < 6 \<and> mySubset p < 6)) (particleSets st0))))
                      (scene st0)"
    "orbit_shape (subsets (orbit st')) 6 4000"
    "orbitParams st' = orbitParams (shuffleParams st0)"
  have d: "distinct (scene st0)" by (simp add: sc)
  have "length (map set_key (particleSets st')) = length (List.product [0..5] [0..5 :: int])"
    by (simp only: keys)
  then have n: "length (particleSets st') = 36" by simp
  show ?thesis
    by (rule exI[of _ st0], rule exI[of _ st']) (intro conjI a b ps keys c d n)
qed

text \<open>
  The claim as stated fails: it says that the orbit is left unchanged and that no
  regeneration fires. In a window of 800 by 600 with a random source that always
  returns 1/2, the orbit after \<open>changeLevelSubset(-1)\<close> differs from the orbit before
  (6 subsets instead of 7).
\<close>

theorem changeLevelSubset_orbit_counterexample:
  "\<exists>st0 st'.
     Hopalong_new no_settings 800 600 (\<lambda>_. 1 / 2) = Inr st0 \<and>
     numLevels st0 = 7 \<and> numSubsets st0 = 7 \<and> numPointsSubset st0 = 4000 \<and>
     changeLevelSubset st0 (- 1) = Inr st' \<and>
     length (subsets (orbit st0)) = 7 \<and> length (subsets (orbit st')) = 6 \<and>
     orbit st' \<noteq> orbit st0"
proof (rule changeLevelSubset_defaults[of 800 600 "\<lambda>_. 1 / 2"])
  fix st0 st'
  assume a: "Hopalong_new no_settings 800 600 (\<lambda>_. 1 / 2) = Inr st0"
    "numLevels st0 = 7" "numSubsets st0 = 7" "numPointsSubset st0 = 4000"
    "changeLevelSubset st0 (- 1) = Inr st'"
    "length (subsets (orbit st0)) = 7"
    and sh: "orbit_shape (subsets (orbit st')) 6 4000"
  have l: "length (subsets (orbit st')) = 6" using sh by (simp add: orbit_shape_def)
  have ne: "orbit st' \<noteq> orbit st0" using l a(6) by auto
  show ?thesis
    by (rule exI[of _ st0], rule exI[of _ st']) (intro conjI a l ne)
qed

text \<open>
  Claim C2. For every \<open>S \<ge> 1\<close> and \<open>N \<ge> 1\<close>, \<open>initOrbit(S, N)\<close> followed by
  \<open>generateOrbit(S, N)\<close> returns, on an instance whose \<open>numSubsets\<close> field does not exceed
  \<open>S\<close> (the normalisation pass runs over that field and throws beyond the \<open>S\<close> subsets
  allocated, see \<open>generateOrbit_beyond_allocation\<close>; at every call in the source the
  field equals \<open>S\<close>). In the state it returns
  there are \<open>S\<close> subsets of exactly \<open>N\<close> points each, every stored raw point lies
  within the recorded extents, and the extents contain 0 on both axes.
\<close>

theorem generate_extents_bound_points:
  assumes "1 \<le> S" and "1 \<le> N" and "numSubsets st \<le> S"
  shows "\<exists>st'. generateOrbit (initOrbit st S N) S N = Inr st' \<and>
           length (subsets (orbit st')) = nat S \<and>
           (\<forall>sub \<in> set (subsets (orbit st')).
              length sub = nat N \<and>
              (\<forall>p \<in> set sub. xMin (orbit st') \<le> px p \<and> px p \<le> xMax (orbit st') \<and>
                              yMin (orbit st') \<le> py p \<and> py p \<le> yMax (orbit st'))) \<and>
           xMin (orbit st') \<le> 0 \<and> 0 \<le> xMax (orbit st') \<and>
           yMin (orbit st') \<le> 0 \<and> 0 \<le> yMax (orbit st')"
proof -
  let ?st = "initOrbit st S N"
  have sh: "orbit_shape (subsets (orbit ?st)) S N" by (rule initOrbit_shape)
  have ns: "numSubsets ?st \<le> S" using assms(3) by (simp add: initOrbit_fields)
  show ?thesis
  proof (rule generateOrbit_wf[OF sh ns])
    fix st'
    assume gen: "generateOrbit ?st S N = Inr st'"
      and ml: "map length (subsets (orbit st')) = map length (subsets (orbit ?st))"
      and ex: "xMin (orbit st') \<le> 0" "0 \<le> xMax (orbit st')" "yMin (orbit st') \<le> 0" "0 \<le> yMax (orbit st')"
      and bd: "\<And>j k. j < nat S \<Longrightarrow> k < nat N \<Longrightarrow>
           xMin (orbit st') \<le> px (subsets (orbit st') ! j ! k) \<and>
           px (subsets (orbit st') ! j ! k) \<le> xMax (orbit st') \<and>
           yMin (orbit st') \<le> py (subsets (orbit st') ! j ! k) \<and>
           py (subsets (orbit st') ! j ! k) \<le> yMax (orbit st')"
    have sh': "orbit_shape (subsets (orbit st')) S N" by (rule orbit_shape_map_length[OF ml sh])
    then have len: "length (subsets (orbit st')) = nat S" by (simp add: orbit_shape_def)
    have rows: "\<forall>sub \<in> set (subsets (orbit st')).
              length sub = nat N \<and>
              (\<forall>p \<in> set sub. xMin (orbit st') \<le> px p \<and> px p \<le> xMax (orbit st') \<and>
                              yMin (orbit st') \<le> py p \<and> py p \<le> yMax (orbit st'))"
    proof (intro ballI conjI)
      fix sub assume "sub \<in> set (subsets (orbit st'))"
      then show "length sub = nat N" using sh' by (simp add: orbit_shape_def list_all_iff)
    next
      fix sub p assume sub: "sub \<in> set (subsets (orbit st'))" and p: "p \<in> set sub"
      from sub obtain j where j: "j < length (subsets (orbit st'))" "sub = subsets (orbit st') ! j"
        by (auto simp: in_set_conv_nth)
      from p obtain k where k: "k < length sub" "p = sub ! k"
        by (auto simp: in_set_conv_nth)
      have jS: "j < nat S" using j(1) len by simp
      have "k < nat N" using k(1) j(2) orbit_shapeD(3)[OF sh' jS] by simp
      from bd[OF jS this] have b: "xMin (orbit st') \<le> px p \<and> px p \<le> xMax (orbit st') \<and>
                       yMin (orbit st') \<le> py p \<and> py p \<le> yMax (orbit st')"
        by (simp add: j(2) k(2))
      from b show "xMin (orbit st') \<le> px p" by simp
      from b show "px p \<le> xMax (orbit st')" by simp
      from b show "yMin (orbit st') \<le> py p" by simp
      from b show "py p \<le> yMax (orbit st')" by simp
    qed
    show ?thesis
      by (rule exI[of _ st']) (intro conjI gen len rows ex)
  qed
qed

theorem generate_extents_bound_points_witness:
  "(1::int) \<le> 1 \<and> (1::int) \<le> 2 \<and> numSubsets example_instance \<le> 1 \<and>
   (\<exists>st'. generateOrbit (initOrbit example_instance 1 2) 1 2 = Inr st' \<and>
           length (subsets (orbit st')) = nat 1 \<and>
           (\<forall>sub \<in> set (subsets (orbit st')).
              length sub = nat 2 \<and>
              (\<forall>p \<in> set sub. xMin (orbit st') \<le> px p \<and> px p \<le> xMax (orbit st') \<and>
                              yMin (orbit st') \<le> py p \<and> py p \<le> yMax (orbit st'))) \<and>
           xMin (orbit st') \<le> 0 \<and> 0 \<le> xMax (orbit st') \<and>
           yMin (orbit st') \<le> 0 \<and> 0 \<le> yMax (orbit st'))"
  using generate_extents_bound_points[of 1 2 example_instance]
  by (simp add: example_instance_fields)

text \<open>
  Claim C3. Let \<open>generateOrbit(S, N)\<close> run on an instance whose orbit has \<open>S\<close> subsets
  of \<open>N\<close> points with vertex z equal to 0 (the shape \<open>initOrbit\<close> leaves and
  \<open>generateOrbit\<close> keeps) and whose \<open>numSubsets\<close> field is \<open>S\<close>. Then it returns, and
  the orbit it returns still has \<open>S\<close> subsets of \<open>N\<close> points. If the batch is not
  degenerate (\<open>xMax \<noteq> xMin\<close> and \<open>yMax \<noteq> yMin\<close>), then the scales are
  \<open>2 K / (xMax - xMin)\<close> and \<open>2 K / (yMax - yMin)\<close> with \<open>K = 1500\<close>, and every one of
  the \<open>N\<close> points of every one of the \<open>S\<close> subsets has the vertex
  \<open>(scaleX (x - xMin) - K, scaleY (y - yMin) - K, 0)\<close>; so a point with \<open>x = xMin\<close>
  has vertex x equal to \<open>-K\<close> and one with \<open>x = xMax\<close> has vertex x equal to \<open>K\<close>.
\<close>

theorem normalization_formula:
  assumes sh: "orbit_shape (subsets (orbit st)) S N" and ns: "numSubsets st = S"
    and z0: "list_all (list_all (\<lambda>p. vz (vertex p) = Some 0)) (subsets (orbit st))"
  shows "\<exists>st'. generateOrbit st S N = Inr st' \<and>
           orbit_shape (subsets (orbit st')) S N \<and>
           length (subsets (orbit st')) = nat S \<and>
           (\<forall>j < nat S. length (subsets (orbit st') ! j) = nat N) \<and>
           SCALE_FACTOR = 1500 \<and>
           (xMax (orbit st') \<noteq> xMin (orbit st') \<and> yMax (orbit st') \<noteq> yMin (orbit st') \<longrightarrow>
              scaleX (orbit st') = Some (2 * SCALE_FACTOR / (xMax (orbit st') - xMin (orbit st'))) \<and>
              scaleY (orbit st') = Some (2 * SCALE_FACTOR / (yMax (orbit st') - yMin (orbit st'))) \<and>
              (\<forall>j < nat S. \<forall>k < nat N.
                 vertex (subsets (orbit st') ! j ! k) =
                   \<lparr>vx = Some (2 * SCALE_FACTOR / (xMax (orbit st') - xMin (orbit st'))
                                * (px (subsets (orbit st') ! j ! k) - xMin (orbit st')) - SCALE_FACTOR),
                    vy = Some (2 * SCALE_FACTOR / (yMax (orbit st') - yMin (orbit st'))
                                * (py (subsets (orbit st') ! j ! k) - yMin (orbit st')) - SCALE_FACTOR),
                    vz = Some 0\<rparr>) \<and>
              (\<forall>sub \<in> set (subsets (orbit st')). \<forall>p \<in> set sub.
                 vertex p =
                   \<lparr>vx = Some (2 * SCALE_FACTOR / (xMax (orbit st') - xMin (orbit st')) * (px p - xMin (orbit st'))
                               - SCALE_FACTOR),
                    vy = Some (2 * SCALE_FACTOR / (yMax (orbit st') - yMin (orbit st')) * (py p - yMin (orbit st'))
                               - SCALE_FACTOR),
                    vz = Some 0\<rparr> \<and>
                 (px p = xMin (orbit st') \<longrightarrow> vx (vertex p) = Some (- SCALE_FACTOR)) \<and>
                 (px p = xMax (orbit st') \<longrightarrow> vx (vertex p) = Some SCALE_FACTOR)))"
proof -
  have ns': "numSubsets st \<le> S" using ns by simp
  show ?thesis
  proof (rule generateOrbit_wf[OF sh ns'])
    fix st'
    assume gen: "generateOrbit st S N = Inr st'"
      and ml: "map length (subsets (orbit st')) = map length (subsets (orbit st))"
      and sx: "scaleX (orbit st') = js_div (2 * SCALE_FACTOR) (xMax (orbit st') - xMin (orbit st'))"
      and sy: "scaleY (orbit st') = js_div (2 * SCALE_FACTOR) (yMax (orbit st') - yMin (orbit st'))"
      and vt: "\<And>j k. j < nat (numSubsets st) \<Longrightarrow> k < nat N \<Longrightarrow>
           vertex (subsets (orbit st') ! j ! k) = (vertex (subsets (orbit st) ! j ! k))
             \<lparr>vx := map_option (\<lambda>sc. sc * (px (subsets (orbit st') ! j ! k) - xMin (orbit st')) - SCALE_FACTOR)
                      (scaleX (orbit st')),
              vy := map_option (\<lambda>sc. sc * (py (subsets (orbit st') ! j ! k) - yMin (orbit st')) - SCALE_FACTOR)
                      (scaleY (orbit st'))\<rparr>"
    let ?o = "orbit st'"
    have sh': "orbit_shape (subsets ?o) S N" by (rule orbit_shape_map_length[OF ml sh])
    have len: "length (subsets ?o) = nat S" using sh' by (simp add: orbit_shape_def)
    have rows: "\<forall>j < nat S. length (subsets ?o ! j) = nat N"
      using orbit_shapeD(3)[OF sh'] by simp
    have K: "SCALE_FACTOR = 1500" by (simp add: SCALE_FACTOR_def)
    have nd: "scaleX ?o = Some (2 * SCALE_FACTOR / (xMax ?o - xMin ?o)) \<and>
              scaleY ?o = Some (2 * SCALE_FACTOR / (yMax ?o - yMin ?o)) \<and>
              (\<forall>j < nat S. \<forall>k < nat N.
                 vertex (subsets ?o ! j ! k) =
                   \<lparr>vx = Some (2 * SCALE_FACTOR / (xMax ?o - xMin ?o)
                                * (px (subsets ?o ! j ! k) - xMin ?o) - SCALE_FACTOR),
                    vy = Some (2 * SCALE_FACTOR / (yMax ?o - yMin ?o)
                                * (py (subsets ?o ! j ! k) - yMin ?o) - SCALE_FACTOR),
                    vz = Some 0\<rparr>) \<and>
              (\<forall>sub \<in> set (subsets ?o). \<forall>p \<in> set sub.
                 vertex p =
                   \<lparr>vx = Some (2 * SCALE_FACTOR / (xMax ?o - xMin ?o) * (px p - xMin ?o) - SCALE_FACTOR),
                    vy = Some (2 * SCALE_FACTOR / (yMax ?o - yMin ?o) * (py p - yMin ?o) - SCALE_FACTOR),
                    vz = Some 0\<rparr> \<and>
                 (px p = xMin ?o \<longrightarrow> vx (vertex p) = Some (- SCALE_FACTOR)) \<and>
                 (px p = xMax ?o \<longrightarrow> vx (vertex p) = Some SCALE_FACTOR))"
      if ndx: "xMax ?o \<noteq> xMin ?o" and ndy: "yMax ?o \<noteq> yMin ?o"
    proof -
      have sx': "scaleX ?o = Some (2 * SCALE_FACTOR / (xMax ?o - xMin ?o))"
        using sx ndx by (simp add: js_div_def)
      have sy': "scaleY ?o = Some (2 * SCALE_FACTOR / (yMax ?o - yMin ?o))"
        using sy ndy by (simp add: js_div_def)
      have idx: "vertex (subsets ?o ! j ! k) =
                   \<lparr>vx = Some (2 * SCALE_FACTOR / (xMax ?o - xMin ?o)
                                * (px (subsets ?o ! j ! k) - xMin ?o) - SCALE_FACTOR),
                    vy = Some (2 * SCALE_FACTOR / (yMax ?o - yMin ?o)
                                * (py (subsets ?o ! j ! k) - yMin ?o) - SCALE_FACTOR),
                    vz = Some 0\<rparr>"
        if jS: "j < nat S" and kN: "k < nat N" for j k
      proof -
        have jl: "j < length (subsets (orbit st))" using jS sh by (simp add: orbit_shape_def)
        have kl: "k < length (subsets (orbit st) ! j)" using kN orbit_shapeD(3)[OF sh jS] by simp
        have z: "vz (vertex (subsets (orbit st) ! j ! k)) = Some 0"
          using z0 jl kl by (simp add: list_all_length)
        have "vertex (subsets ?o ! j ! k) = (vertex (subsets (orbit st) ! j ! k))
             \<lparr>vx := map_option (\<lambda>sc. sc * (px (subsets ?o ! j ! k) - xMin ?o) - SCALE_FACTOR) (scaleX ?o),
              vy := map_option (\<lambda>sc. sc * (py (subsets ?o ! j ! k) - yMin ?o) - SCALE_FACTOR) (scaleY ?o)\<rparr>"
          using vt[of j k] jS kN ns by simp
        then show ?thesis using z by (simp add: sx' sy')
      qed
      have pts: "vertex p =
                   \<lparr>vx = Some (2 * SCALE_FACTOR / (xMax ?o - xMin ?o) * (px p - xMin ?o) - SCALE_FACTOR),
                    vy = Some (2 * SCALE_FACTOR / (yMax ?o - yMin ?o) * (py p - yMin ?o) - SCALE_FACTOR),
                    vz = Some 0\<rparr>"
        if sub: "sub \<in> set (subsets ?o)" and p: "p \<in> set sub" for sub p
      proof -
        from sub obtain j where j: "j < length (subsets ?o)" "sub = subsets ?o ! j"
          by (auto simp: in_set_conv_nth)
        from p obtain k where k: "k < length sub" "p = sub ! k"
          by (auto simp: in_set_conv_nth)
        have jS: "j < nat S" using j(1) len by simp
        have kN: "k < nat N" using k(1) j(2) orbit_shapeD(3)[OF sh' jS] by simp
        from idx[OF jS kN] show ?thesis by (simp add: j(2) k(2))
      qed
      have all: "\<forall>sub \<in> set (subsets ?o). \<forall>p \<in> set sub.
                 vertex p =
                   \<lparr>vx = Some (2 * SCALE_FACTOR / (xMax ?o - xMin ?o) * (px p - xMin ?o) - SCALE_FACTOR),
                    vy = Some (2 * SCALE_FACTOR / (yMax ?o - yMin ?o) * (py p - yMin ?o) - SCALE_FACTOR),
                    vz = Some 0\<rparr> \<and>
                 (px p = xMin ?o \<longrightarrow> vx (vertex p) = Some (- SCALE_FACTOR)) \<and>
                 (px p = xMax ?o \<longrightarrow> vx (vertex p) = Some SCALE_FACTOR)"
      proof (intro ballI conjI impI)
        fix sub p assume a: "sub \<in> set (subsets ?o)" "p \<in> set sub"
        show "vertex p =
                   \<lparr>vx = Some (2 * SCALE_FACTOR / (xMax ?o - xMin ?o) * (px p - xMin ?o) - SCALE_FACTOR),
                    vy = Some (2 * SCALE_FACTOR / (yMax ?o - yMin ?o) * (py p - yMin ?o) - SCALE_FACTOR),
                    vz = Some 0\<rparr>" by (rule pts[OF a])
        show "vx (vertex p) = Some (- SCALE_FACTOR)" if "px p = xMin ?o"
          using pts[OF a] that by simp
        show "vx (vertex p) = Some SCALE_FACTOR" if "px p = xMax ?o"
          using pts[OF a] that ndx by simp
      qed
      have ix: "\<forall>j < nat S. \<forall>k < nat N.
                 vertex (subsets ?o ! j ! k) =
                   \<lparr>vx = Some (2 * SCALE_FACTOR / (xMax ?o - xMin ?o)
                                * (px (subsets ?o ! j ! k) - xMin ?o) - SCALE_FACTOR),
                    vy = Some (2 * SCALE_FACTOR / (yMax ?o - yMin ?o)
                                * (py (subsets ?o ! j ! k) - yMin ?o) - SCALE_FACTOR),
                    vz = Some 0\<rparr>"
        using idx by blast
      show ?thesis by (intro conjI sx' sy' ix all)
    qed
    show ?thesis
    proof (rule exI[of _ st'], intro conjI)
      show "generateOrbit st S N = Inr st'" by (rule gen)
      show "orbit_shape (subsets ?o) S N" by (rule sh')
      show "length (subsets ?o) = nat S" by (rule len)
      show "\<forall>j < nat S. length (subsets ?o ! j) = nat N" by (rule rows)
      show "SCALE_FACTOR = 1500" by (rule K)
      show "xMax ?o \<noteq> xMin ?o \<and> yMax ?o \<noteq> yMin ?o \<longrightarrow>
              scaleX ?o = Some (2 * SCALE_FACTOR / (xMax ?o - xMin ?o)) \<and>
              scaleY ?o = Some (2 * SCALE_FACTOR / (yMax ?o - yMin ?o)) \<and>
              (\<forall>j < nat S. \<forall>k < nat N.
                 vertex (subsets ?o ! j ! k) =
                   \<lparr>vx = Some (2 * SCALE_FACTOR / (xMax ?o - xMin ?o)
                                * (px (subsets ?o ! j ! k) - xMin ?o) - SCALE_FACTOR),
                    vy = Some (2 * SCALE_FACTOR / (yMax ?o - yMin ?o)
                                * (py (subsets ?o ! j ! k) - yMin ?o) - SCALE_FACTOR),
                    vz = Some 0\<rparr>) \<and>
              (\<forall>sub \<in> set (subsets ?o). \<forall>p \<in> set sub.
                 vertex p =
                   \<lparr>vx = Some (2 * SCALE_FACTOR / (xMax ?o - xMin ?o) * (px p - xMin ?o) - SCALE_FACTOR),
                    vy = Some (2 * SCALE_FACTOR / (yMax ?o - yMin ?o) * (py p - yMin ?o) - SCALE_FACTOR),
                    vz = Some 0\<rparr> \<and>
                 (px p = xMin ?o \<longrightarrow> vx (vertex p) = Some (- SCALE_FACTOR)) \<and>
                 (px p = xMax ?o \<longrightarrow> vx (vertex p) = Some SCALE_FACTOR))"
        using nd by blast
    qed
  qed
qed

theorem normalization_formula_witness:
  "orbit_shape (subsets (orbit example_instance)) 1 2 \<and> numSubsets example_instance = 1 \<and>
   list_all (list_all (\<lambda>p. vz (vertex p) = Some 0)) (subsets (orbit example_instance)) \<and>
   (\<exists>st'. generateOrbit example_instance 1 2 = Inr st' \<and>
      orbit_shape (subsets (orbit st')) 1 2 \<and>
      length (subsets (orbit st')) = 1 \<and> length (subsets (orbit st') ! 0) = 2 \<and>
      xMin (orbit st') = 0 \<and> xMax (orbit st') = 15 \<and> yMin (orbit st') = 0 \<and> yMax (orbit st') = 15 \<and>
      xMax (orbit st') \<noteq> xMin (orbit st') \<and> yMax (orbit st') \<noteq> yMin (orbit st') \<and>
      scaleX (orbit st') = Some 200 \<and> scaleY (orbit st') = Some 200 \<and>
      vertex (subsets (orbit st') ! 0 ! 0) =
        \<lparr>vx = Some (200 * px (subsets (orbit st') ! 0 ! 0) - 1500),
         vy = Some (200 * py (subsets (orbit st') ! 0 ! 0) - 1500), vz = Some 0\<rparr> \<and>
      vertex (subsets (orbit st') ! 0 ! 1) =
        \<lparr>vx = Some (200 * px (subsets (orbit st') ! 0 ! 1) - 1500),
         vy = Some (200 * py (subsets (orbit st') ! 0 ! 1) - 1500), vz = Some 0\<rparr>)"
proof -
  have z0: "list_all (list_all (\<lambda>p. vz (vertex p) = Some 0)) (subsets (orbit example_instance))"
    unfolding example_instance_def by (rule initOrbit_z0)
  from normalization_formula[OF example_instance_shape example_instance_fields(1) z0]
  obtain st' where gen: "generateOrbit example_instance 1 2 = Inr st'"
    and sh': "orbit_shape (subsets (orbit st')) 1 2"
    and len: "length (subsets (orbit st')) = nat 1"
    and rows: "\<forall>j < nat 1. length (subsets (orbit st') ! j) = nat 2"
    and K: "SCALE_FACTOR = 1500"
    and imp: "xMax (orbit st') \<noteq> xMin (orbit st') \<and> yMax (orbit st') \<noteq> yMin (orbit st') \<longrightarrow>
              scaleX (orbit st') = Some (2 * SCALE_FACTOR / (xMax (orbit st') - xMin (orbit st'))) \<and>
              scaleY (orbit st') = Some (2 * SCALE_FACTOR / (yMax (orbit st') - yMin (orbit st'))) \<and>
              (\<forall>j < nat 1. \<forall>k < nat 2.
                 vertex (subsets (orbit st') ! j ! k) =
                   \<lparr>vx = Some (2 * SCALE_FACTOR / (xMax (orbit st') - xMin (orbit st'))
                                * (px (subsets (orbit st') ! j ! k) - xMin (orbit st')) - SCALE_FACTOR),
                    vy = Some (2 * SCALE_FACTOR / (yMax (orbit st') - yMin (orbit st'))
                                * (py (subsets (orbit st') ! j ! k) - yMin (orbit st')) - SCALE_FACTOR),
                    vz = Some 0\<rparr>) \<and>
              (\<forall>sub \<in> set (subsets (orbit st')). \<forall>p \<in> set sub.
                 vertex p =
                   \<lparr>vx = Some (2 * SCALE_FACTOR / (xMax (orbit st') - xMin (orbit st')) * (px p - xMin (orbit st'))
                               - SCALE_FACTOR),
                    vy = Some (2 * SCALE_FACTOR / (yMax (orbit st') - yMin (orbit st')) * (py p - yMin (orbit st'))
                               - SCALE_FACTOR),
                    vz = Some 0\<rparr> \<and>
                 (px p = xMin (orbit st') \<longrightarrow> vx (vertex p) = Some (- SCALE_FACTOR)) \<and>
                 (px p = xMax (orbit st') \<longrightarrow> vx (vertex p) = Some SCALE_FACTOR))"
    by (elim exE conjE) (rule that)
  from example_instance_generate gen have
    e: "xMin (orbit st') = 0" "xMax (orbit st') = 15" "yMin (orbit st') = 0" "yMax (orbit st') = 15"
    by auto
  have nd: "xMax (orbit st') \<noteq> xMin (orbit st')" "yMax (orbit st') \<noteq> yMin (orbit st')"
    by (simp_all add: e)
  from imp nd have
    s: "scaleX (orbit st') = Some (2 * SCALE_FACTOR / (xMax (orbit st') - xMin (orbit st')))"
       "scaleY (orbit st') = Some (2 * SCALE_FACTOR / (yMax (orbit st') - yMin (orbit st')))"
    and ix: "\<forall>j < nat 1. \<forall>k < nat 2.
                 vertex (subsets (orbit st') ! j ! k) =
                   \<lparr>vx = Some (2 * SCALE_FACTOR / (xMax (orbit st') - xMin (orbit st'))
                                * (px (subsets (orbit st') ! j ! k) - xMin (orbit st')) - SCALE_FACTOR),
                    vy = Some (2 * SCALE_FACTOR / (yMax (orbit st') - yMin (orbit st'))
                                * (py (subsets (orbit st') ! j ! k) - yMin (orbit st')) - SCALE_FACTOR),
                    vz = Some 0\<rparr>"
    by blast+
  have s': "scaleX (orbit st') = Some 200" "scaleY (orbit st') = Some 200"
    using s by (simp_all add: e K)
  have v0: "vertex (subsets (orbit st') ! 0 ! 0) =
        \<lparr>vx = Some (200 * px (subsets (orbit st') ! 0 ! 0) - 1500),
         vy = Some (200 * py (subsets (orbit st') ! 0 ! 0) - 1500), vz = Some 0\<rparr>"
    using ix[rule_format, of 0 0] by (simp add: e K)
  have v1: "vertex (subsets (orbit st') ! 0 ! 1) =
        \<lparr>vx = Some (200 * px (subsets (orbit st') ! 0 ! 1) - 1500),
         vy = Some (200 * py (subsets (orbit st') ! 0 ! 1) - 1500), vz = Some 0\<rparr>"
    using ix[rule_format, of 0 1] by (simp add: e K)
  have l0: "length (subsets (orbit st')) = 1" using len by simp
  have l1: "length (subsets (orbit st') ! 0) = 2" using rows by simp
  show ?thesis
    by (intro conjI example_instance_shape example_instance_fields(1) z0 exI[of _ st'])
       (rule gen sh' l0 l1 e nd s' v0 v1)+
qed

text \<open>
  Claim C4. For every input \<open>(x, y, a, b, c)\<close> the two iteration functions compute the
  formulas of the specification, with a sign function whose value at 0 is 0:
  \<open>hopalong\<close> is variant1 and \<open>hopalong2\<close> is variant2. Both are functions of their five
  arguments alone, so equal inputs give equal outputs.
\<close>

theorem hopalong_variants_match_spec:
  "hopalong x y a b c = spec_variant1 x y a b c \<and>
   hopalong2 x y a b c = spec_variant2 x y a b c \<and>
   spec_sign 0 = 0"
  by (simp add: hopalong_def hopalong2_def spec_variant1_def spec_variant2_def spec_sign_def sgn_if)

text \<open>
  Claim C5. On an instance whose orbit has \<open>numSubsets\<close> subsets of \<open>numPointsSubset\<close>
  points and whose particle sets refer to subsets of the orbit, \<open>updateOrbit\<close> returns
  and changes the orbit parameters, the orbit, the hues and the random source only,
  apart from setting the dirty flag of every particle set: the geometry and the colour
  of every particle set stay as they were. The frame step \<open>render\<close> returns, and for
  each particle set: if its z position advanced by the speed exceeds the camera's z
  while its flag is set, its geometry is rebuilt from the vertices of its subset in the
  current orbit, its colour from the current hue, and the flag is cleared; otherwise
  geometry, colour and flag are unchanged. Its z position is reset to
  \<open>-(numLevels - 1) * LEVEL_DEPTH\<close> exactly when it crosses the camera, and advanced by
  the speed otherwise.
\<close>

theorem regeneration_is_staged:
  assumes sh: "orbit_shape (subsets (orbit st)) (numSubsets st) (numPointsSubset st)"
    and n0: "0 \<le> numSubsets st"
    and ok: "list_all (subset_ok st) (particleSets st)"
  shows "(\<exists>st'. updateOrbit st = Inr st' \<and>
            st' = st\<lparr>orbitParams := orbitParams st', orbit := orbit st', hueValues := hueValues st',
                      rand_stream := rand_stream st',
                      particleSets := map (\<lambda>p. p\<lparr>needsUpdate := True\<rparr>) (particleSets st)\<rparr> \<and>
            map (\<lambda>p. geometry (particles p)) (particleSets st')
              = map (\<lambda>p. geometry (particles p)) (particleSets st) \<and>
            map myMaterial (particleSets st') = map myMaterial (particleSets st) \<and>
            list_all needsUpdate (particleSets st')) \<and>
         (\<exists>st'. render st = Inr st' \<and>
            length (particleSets st') = length (particleSets st) \<and>
            (\<forall>i < length (particleSets st).
               (cam_z (camera st) < position_z (particles (particleSets st ! i)) + speed st
                  \<and> needsUpdate (particleSets st ! i) \<longrightarrow>
                    geometry (particles (particleSets st' ! i))
                      = map vertex (subsets (orbit st) ! nat (mySubset (particleSets st ! i))) \<and>
                    myMaterial (particleSets st' ! i)
                      = HSL_of_HSV (nth_opt (hueValues st) (mySubset (particleSets st ! i)))
                          DEF_SATURATION DEF_BRIGHTNESS \<and>
                    \<not> needsUpdate (particleSets st' ! i)) \<and>
               (\<not> (cam_z (camera st) < position_z (particles (particleSets st ! i)) + speed st
                    \<and> needsUpdate (particleSets st ! i)) \<longrightarrow>
                    geometry (particles (particleSets st' ! i)) = geometry (particles (particleSets st ! i)) \<and>
                    myMaterial (particleSets st' ! i) = myMaterial (particleSets st ! i) \<and>
                    needsUpdate (particleSets st' ! i) = needsUpdate (particleSets st ! i)) \<and>
               (cam_z (camera st) < position_z (particles (particleSets st ! i)) + speed st \<longrightarrow>
                    position_z (particles (particleSets st' ! i))
                      = - (of_int (numLevels st) - 1) * LEVEL_DEPTH) \<and>
               (\<not> cam_z (camera st) < position_z (particles (particleSets st ! i)) + speed st \<longrightarrow>
                    position_z (particles (particleSets st' ! i))
                      = position_z (particles (particleSets st ! i)) + speed st)))"
proof
  show "\<exists>st'. updateOrbit st = Inr st' \<and>
            st' = st\<lparr>orbitParams := orbitParams st', orbit := orbit st', hueValues := hueValues st',
                      rand_stream := rand_stream st',
                      particleSets := map (\<lambda>p. p\<lparr>needsUpdate := True\<rparr>) (particleSets st)\<rparr> \<and>
            map (\<lambda>p. geometry (particles p)) (particleSets st')
              = map (\<lambda>p. geometry (particles p)) (particleSets st) \<and>
            map myMaterial (particleSets st') = map myMaterial (particleSets st) \<and>
            list_all needsUpdate (particleSets st')"
  proof (rule updateOrbit_result[OF sh n0])
    fix st'
    assume up: "updateOrbit st = Inr st'"
      and eq: "st' = st\<lparr>orbitParams := orbitParams st', orbit := orbit st', hueValues := hueValues st',
                   rand_stream := rand_stream st',
                   particleSets := map (\<lambda>p. p\<lparr>needsUpdate := True\<rparr>) (particleSets st)\<rparr>"
    have ps: "particleSets st' = map (\<lambda>p. p\<lparr>needsUpdate := True\<rparr>) (particleSets st)"
      by (subst eq) simp
    have g: "map (\<lambda>p. geometry (particles p)) (particleSets st')
              = map (\<lambda>p. geometry (particles p)) (particleSets st)"
      and m: "map myMaterial (particleSets st') = map myMaterial (particleSets st)"
      and d: "list_all needsUpdate (particleSets st')"
      by (simp_all add: ps o_def list_all_iff)
    show ?thesis by (rule exI[of _ st']) (intro conjI up eq g m d)
  qed
next
  let ?st' = "st\<lparr>camera := (camera st)
                              \<lparr>cam_x := ease_axis (cam_x (camera st)) (mouseX st),
                               cam_y := ease_axis (cam_y (camera st)) (- mouseY st)\<rparr>,
                            particleSets := map (advance st) (particleSets st)\<rparr>"
  have ok': "list_all (\<lambda>p. subset_ok st p \<or> \<not> needsUpdate p) (particleSets st)"
    using ok by (simp add: list_all_iff)
  have r: "render st = Inr ?st'" by (rule render_advance[OF ok'])
  have len: "length (particleSets ?st') = length (particleSets st)" by simp
  have nth: "particleSets ?st' ! i = advance st (particleSets st ! i)"
    if "i < length (particleSets st)" for i
    using that by simp
  show "\<exists>st'. render st = Inr st' \<and>
            length (particleSets st') = length (particleSets st) \<and>
            (\<forall>i < length (particleSets st).
               (cam_z (camera st) < position_z (particles (particleSets st ! i)) + speed st
                  \<and> needsUpdate (particleSets st ! i) \<longrightarrow>
                    geometry (particles (particleSets st' ! i))
                      = map vertex (subsets (orbit st) ! nat (mySubset (particleSets st ! i))) \<and>
                    myMaterial (particleSets st' ! i)
                      = HSL_of_HSV (nth_opt (hueValues st) (mySubset (particleSets st ! i)))
                          DEF_SATURATION DEF_BRIGHTNESS \<and>
                    \<not> needsUpdate (particleSets st' ! i)) \<and>
               (\<not> (cam_z (camera st) < position_z (particles (particleSets st ! i)) + speed st
                    \<and> needsUpdate (particleSets st ! i)) \<longrightarrow>
                    geometry (particles (particleSets st' ! i)) = geometry (particles (particleSets st ! i)) \<and>
                    myMaterial (particleSets st' ! i) = myMaterial (particleSets st ! i) \<and>
                    needsUpdate (particleSets st' ! i) = needsUpdate (particleSets st ! i)) \<and>
               (cam_z (camera st) < position_z (particles (particleSets st ! i)) + speed st \<longrightarrow>
                    position_z (particles (particleSets st' ! i))
                      = - (of_int (numLevels st) - 1) * LEVEL_DEPTH) \<and>
               (\<not> cam_z (camera st) < position_z (particles (particleSets st ! i)) + speed st \<longrightarrow>
                    position_z (particles (particleSets st' ! i))
                      = position_z (particles (particleSets st ! i)) + speed st))"
  proof (rule exI[of _ ?st'], rule conjI[OF r], rule conjI[OF len], rule allI, rule impI)
    fix i assume i: "i < length (particleSets st)"
    show "(cam_z (camera st) < position_z (particles (particleSets st ! i)) + speed st
                  \<and> needsUpdate (particleSets st ! i) \<longrightarrow>
                    geometry (particles (particleSets ?st' ! i))
                      = map vertex (subsets (orbit st) ! nat (mySubset (particleSets st ! i))) \<and>
                    myMaterial (particleSets ?st' ! i)
                      = HSL_of_HSV (nth_opt (hueValues st) (mySubset (particleSets st ! i)))
                          DEF_SATURATION DEF_BRIGHTNESS \<and>
                    \<not> needsUpdate (particleSets ?st' ! i)) \<and>
               (\<not> (cam_z (camera st) < position_z (particles (particleSets st ! i)) + speed st
                    \<and> needsUpdate (particleSets st ! i)) \<longrightarrow>
                    geometry (particles (particleSets ?st' ! i)) = geometry (particles (particleSets st ! i)) \<and>
                    myMaterial (particleSets ?st' ! i) = myMaterial (particleSets st ! i) \<and>
                    needsUpdate (particleSets ?st' ! i) = needsUpdate (particleSets st ! i)) \<and>
               (cam_z (camera st) < position_z (particles (particleSets st ! i)) + speed st \<longrightarrow>
                    position_z (particles (particleSets ?st' ! i))
                      = - (of_int (numLevels st) - 1) * LEVEL_DEPTH) \<and>
               (\<not> cam_z (camera st) < position_z (particles (particleSets st ! i)) + speed st \<longrightarrow>
                    position_z (particles (particleSets ?st' ! i))
                      = position_z (particles (particleSets st ! i)) + speed st)"
      unfolding nth[OF i] by (simp add: advance_def)
  qed
qed

theorem regeneration_is_staged_witness:
  "orbit_shape (subsets (orbit example_frame)) (numSubsets example_frame) (numPointsSubset example_frame) \<and>
   0 \<le> numSubsets example_frame \<and>
   list_all (subset_ok example_frame) (particleSets example_frame) \<and>
   (\<exists>st'. updateOrbit example_frame = Inr st' \<and>
      map (\<lambda>p. geometry (particles p)) (particleSets st')
        = map (\<lambda>p. geometry (particles p)) (particleSets example_frame) \<and>
      map myMaterial (particleSets st') = map myMaterial (particleSets example_frame) \<and>
      list_all needsUpdate (particleSets st')) \<and>
   (\<exists>st'. render example_frame = Inr st' \<and>
      length (particleSets st') = 2 \<and>
      geometry (particles (particleSets st' ! 0)) = map vertex (subsets (orbit example_frame) ! 0) \<and>
      \<not> needsUpdate (particleSets st' ! 0) \<and>
      position_z (particles (particleSets st' ! 0)) = - 3600 \<and>
      geometry (particles (particleSets st' ! 1)) = [] \<and>
      needsUpdate (particleSets st' ! 1) \<and>
      position_z (particles (particleSets st' ! 1)) = 8)"
proof -
  have n0: "0 \<le> numSubsets example_frame" by (simp add: example_frame_fields)
  note t = regeneration_is_staged[OF example_frame_shape n0 example_frame_subset_ok]
  from t obtain st1 where u: "updateOrbit example_frame = Inr st1"
      "map (\<lambda>p. geometry (particles p)) (particleSets st1)
        = map (\<lambda>p. geometry (particles p)) (particleSets example_frame)"
      "map myMaterial (particleSets st1) = map myMaterial (particleSets example_frame)"
      "list_all needsUpdate (particleSets st1)"
    by blast
  from t obtain st2 where r: "render example_frame = Inr st2"
    "length (particleSets st2) = length (particleSets example_frame)"
    and each: "\<forall>i < length (particleSets example_frame).
               (cam_z (camera example_frame) < position_z (particles (particleSets example_frame ! i)) + speed example_frame
                  \<and> needsUpdate (particleSets example_frame ! i) \<longrightarrow>
                    geometry (particles (particleSets st2 ! i))
                      = map vertex (subsets (orbit example_frame) ! nat (mySubset (particleSets example_frame ! i))) \<and>
                    myMaterial (particleSets st2 ! i)
                      = HSL_of_HSV (nth_opt (hueValues example_frame) (mySubset (particleSets example_frame ! i)))
                          DEF_SATURATION DEF_BRIGHTNESS \<and>
                    \<not> needsUpdate (particleSets st2 ! i)) \<and>
               (\<not> (cam_z (camera example_frame) < position_z (particles (particleSets example_frame ! i)) + speed example_frame
                    \<and> needsUpdate (particleSets example_frame ! i)) \<longrightarrow>
                    geometry (particles (particleSets st2 ! i)) = geometry (particles (particleSets example_frame ! i)) \<and>
                    myMaterial (particleSets st2 ! i) = myMaterial (particleSets example_frame ! i) \<and>
                    needsUpdate (particleSets st2 ! i) = needsUpdate (particleSets example_frame ! i)) \<and>
               (cam_z (camera example_frame) < position_z (particles (particleSets example_frame ! i)) + speed example_frame \<longrightarrow>
                    position_z (particles (particleSets st2 ! i))
                      = - (of_int (numLevels example_frame) - 1) * LEVEL_DEPTH) \<and>
               (\<not> cam_z (camera example_frame) < position_z (particles (particleSets example_frame ! i)) + speed example_frame \<longrightarrow>
                    position_z (particles (particleSets st2 ! i))
                      = position_z (particles (particleSets example_frame ! i)) + speed example_frame)"
    by blast
  from each[rule_format, of 0] each[rule_format, of 1]
  have v: "geometry (particles (particleSets st2 ! 0)) = map vertex (subsets (orbit example_frame) ! 0)"
    "\<not> needsUpdate (particleSets st2 ! 0)"
    "position_z (particles (particleSets st2 ! 0)) = - 3600"
    "geometry (particles (particleSets st2 ! 1)) = []"
    "needsUpdate (particleSets st2 ! 1)"
    "position_z (particles (particleSets st2 ! 1)) = 8"
    by (simp_all add: example_frame_fields example_frame_sets LEVEL_DEPTH_def)
  have l2: "length (particleSets st2) = 2" using r(2) by (simp add: example_frame_fields)
  show ?thesis
    using example_frame_shape n0 example_frame_subset_ok u r(1) l2 v by blast
qed

text \<open>
  Claim C6, evaluated where it fails. The deadzone subtracts the threshold whatever the
  sign of the stick value: a value of \<open>-1/2\<close> (the standard strategy passes
  \<open>-axes[0]\<close>, so \<open>axes[0] = 1/2\<close>) is mapped to \<open>-3/5\<close>, farther from 0 than the input
  and not the \<open>-2/5\<close> that a shift toward 0 by the threshold gives. The part of the
  claim about small values holds: below the threshold the result is 0, and
  \<open>axes[0] = 0.05\<close> gives rotation speed 0.
\<close>

theorem deadzone_negative_moves_away_from_zero:
  "deadzone (- (1 / 2)) DEFAULT_DEADZONE = - (3 / 5) \<and>
   \<bar>deadzone (- (1 / 2)) DEFAULT_DEADZONE\<bar> > \<bar>- (1 / 2) :: real\<bar> \<and>
   deadzone (1 / 2) DEFAULT_DEADZONE = 2 / 5 \<and>
   deadzone (- (1 / 10)) DEFAULT_DEADZONE = - (1 / 5) \<and>
   map_option mv_rotationSpeed
     (stdGamepadMovementStrategy bnds cur \<lparr>gp_id = i, axes = [1 / 2, 0, 0, 0], buttons = bs\<rparr>)
     = Some (- (3 / 250)) \<and>
   map_option mv_rotationSpeed
     (stdGamepadMovementStrategy bnds cur \<lparr>gp_id = i, axes = [1 / 20, 0, 0, 0], buttons = bs\<rparr>)
     = Some 0"
  by (simp add: deadzone_def DEFAULT_DEADZONE_def stdGamepadMovementStrategy_def axis_def Let_def)

text \<open>
  Claim C7, as the code has it. In \<open>setLevelSubsetCount\<close> a count that is requested as
  0, or not given, leaves the stored count in place (under the conditions for the call
  to return: the subset count in force is not negative and the orbit has at least
  \<open>numSubsets\<close> subsets), and a \<open>levelCount\<close> of 0 behaves exactly as an absent one. In
  \<open>applySettings\<close>, \<open>speed\<close> and \<open>rotationSpeed\<close> are assigned whenever they are
  defined, so a requested 0 is applied.
\<close>

theorem falsy_count_keeps_prior_value:
  assumes n0: "0 \<le> js_or (opt_subsetCount ps) (numSubsets st)"
    and wf: "nat (numSubsets st) \<le> length (subsets (orbit st))"
  shows "(\<exists>st'. setLevelSubsetCount st ps = Inr st' \<and>
            numLevels st' = js_or (opt_levelCount ps) (numLevels st) \<and>
            numSubsets st' = js_or (opt_subsetCount ps) (numSubsets st) \<and>
            numPointsSubset st' = js_or (opt_pointsPerSubset ps) (numPointsSubset st)) \<and>
         js_or (Some 0) (numLevels st) = numLevels st \<and> js_or None (numLevels st) = numLevels st \<and>
         setLevelSubsetCount st (ps\<lparr>opt_levelCount := Some 0\<rparr>)
           = setLevelSubsetCount st (ps\<lparr>opt_levelCount := None\<rparr>) \<and>
         applySettings st (no_settings\<lparr>opt_speed := Some v1, opt_rotationSpeed := Some v2\<rparr>)
           = Inr (st\<lparr>speed := v1, rotationSpeed := v2\<rparr>)"
proof (intro conjI)
  show "\<exists>st'. setLevelSubsetCount st ps = Inr st' \<and>
            numLevels st' = js_or (opt_levelCount ps) (numLevels st) \<and>
            numSubsets st' = js_or (opt_subsetCount ps) (numSubsets st) \<and>
            numPointsSubset st' = js_or (opt_pointsPerSubset ps) (numPointsSubset st)"
  proof (cases "opt_subsetCount ps \<noteq> None \<or> opt_pointsPerSubset ps \<noteq> None")
    case True
    show ?thesis
    proof (rule setLevelSubsetCount_regenerate[OF True n0])
      fix st2 st3
      assume res: "setLevelSubsetCount st ps = Inr (fireSettingsChange st3)"
        and c: "numLevels st2 = js_or (opt_levelCount ps) (numLevels st)"
          "numSubsets st2 = js_or (opt_subsetCount ps) (numSubsets st)"
          "numPointsSubset st2 = js_or (opt_pointsPerSubset ps) (numPointsSubset st)"
        and fr: "frame_sets st2 st3"
      note f = frame_sets_fields[OF fr]
      show ?thesis
        by (rule exI[of _ "fireSettingsChange st3"])
          (simp add: res fireSettingsChange_def f c)
    qed
  next
    case False
    then have none: "opt_subsetCount ps = None" "opt_pointsPerSubset ps = None" by simp_all
    let ?st1 = "st\<lparr>numLevels := js_or (opt_levelCount ps) (numLevels st),
                    numSubsets := js_or (opt_subsetCount ps) (numSubsets st),
                    numPointsSubset := js_or (opt_pointsPerSubset ps) (numPointsSubset st)\<rparr>"
    have wf1: "nat (numSubsets ?st1) \<le> length (subsets (orbit ?st1))"
      using wf by (simp add: none js_or_def)
    show ?thesis
    proof (rule reconcile_result[OF wf1])
      fix st3
      assume r: "reconcile ?st1 = Inr st3" and fr: "frame_sets ?st1 st3"
      note f = frame_sets_fields[OF fr]
      have res: "setLevelSubsetCount st ps = Inr (fireSettingsChange st3)"
        using r none by (simp add: setLevelSubsetCount_def Let_def)
      show ?thesis
        by (rule exI[of _ "fireSettingsChange st3"])
          (simp add: res fireSettingsChange_def f)
    qed
  qed
  show "js_or (Some 0) (numLevels st) = numLevels st" "js_or None (numLevels st) = numLevels st"
    by (simp_all add: js_or_def)
  show "setLevelSubsetCount st (ps\<lparr>opt_levelCount := Some 0\<rparr>)
           = setLevelSubsetCount st (ps\<lparr>opt_levelCount := None\<rparr>)"
    by (simp add: setLevelSubsetCount_def js_or_def)
  show "applySettings st (no_settings\<lparr>opt_speed := Some v1, opt_rotationSpeed := Some v2\<rparr>)
           = Inr (st\<lparr>speed := v1, rotationSpeed := v2\<rparr>)"
    by (simp add: applySettings_def no_settings_def Let_def)
qed

theorem falsy_count_keeps_prior_value_witness:
  "0 \<le> js_or (opt_subsetCount (no_settings\<lparr>opt_subsetCount := Some 0, opt_levelCount := Some 0\<rparr>))
          (numSubsets example_frame) \<and>
   nat (numSubsets example_frame) \<le> length (subsets (orbit example_frame)) \<and>
   (\<exists>st'. setLevelSubsetCount example_frame (no_settings\<lparr>opt_subsetCount := Some 0, opt_levelCount := Some 0\<rparr>)
             = Inr st' \<and>
           numLevels st' = 7 \<and> numSubsets st' = 1 \<and> numPointsSubset st' = 2) \<and>
   applySettings example_frame (no_settings\<lparr>opt_speed := Some 0, opt_rotationSpeed := Some 0\<rparr>)
     = Inr (example_frame\<lparr>speed := 0, rotationSpeed := 0\<rparr>)"
proof -
  let ?ps = "no_settings\<lparr>opt_subsetCount := Some 0, opt_levelCount := Some 0\<rparr>"
  have n0: "0 \<le> js_or (opt_subsetCount ?ps) (numSubsets example_frame)"
    by (simp add: js_or_def example_frame_fields)
  have wf: "nat (numSubsets example_frame) \<le> length (subsets (orbit example_frame))"
    by (simp add: example_frame_fields(1) example_frame_subsets_length)
  note t = falsy_count_keeps_prior_value[OF n0 wf, of 0 0]
  from t[THEN conjunct1]
  have 1: "\<exists>st'. setLevelSubsetCount example_frame ?ps = Inr st' \<and>
           numLevels st' = 7 \<and> numSubsets st' = 1 \<and> numPointsSubset st' = 2"
    by (simp add: js_or_def no_settings_def example_frame_fields(1-3))
  from t have 2: "applySettings example_frame (no_settings\<lparr>opt_speed := Some 0, opt_rotationSpeed := Some 0\<rparr>)
     = Inr (example_frame\<lparr>speed := 0, rotationSpeed := 0\<rparr>)"
    by (elim conjE)
  show ?thesis by (intro conjI n0 wf 1 2)
qed

text \<open>
  The claim as stated fails in \<open>applySettings\<close>: a requested rotation speed of 0 is
  applied, and the outcome differs from that of a request that names no setting. A
  \<open>subsetCount\<close> of 0 leaves the count in place but is not the same as no change either:
  it regenerates the orbit, here with the parameter \<open>a = 15\<close> drawn.
\<close>

theorem rotationSpeed_zero_counterexample:
  "rotationSpeed example_frame = 5 / 1000 \<and>
   applySettings example_frame (no_settings\<lparr>opt_rotationSpeed := Some 0\<rparr>)
     = Inr (example_frame\<lparr>rotationSpeed := 0\<rparr>) \<and>
   applySettings example_frame no_settings = Inr example_frame \<and>
   example_frame\<lparr>rotationSpeed := 0\<rparr> \<noteq> example_frame \<and>
   (\<exists>s1 s2. setLevelSubsetCount example_frame (no_settings\<lparr>opt_subsetCount := Some 0\<rparr>) = Inr s1 \<and>
      setLevelSubsetCount example_frame no_settings = Inr s2 \<and>
      numSubsets s1 = numSubsets s2 \<and>
      par_a (orbitParams s1) = 15 \<and> par_a (orbitParams s2) = 0)"
proof -
  have r: "rotationSpeed example_frame = 5 / 1000" by (rule example_frame_fields)
  have a: "applySettings example_frame (no_settings\<lparr>opt_rotationSpeed := Some 0\<rparr>)
     = Inr (example_frame\<lparr>rotationSpeed := 0\<rparr>)"
    by (simp add: applySettings_def no_settings_def Let_def)
  have b: "applySettings example_frame no_settings = Inr example_frame"
    by (simp add: applySettings_def no_settings_def Let_def)
  have "rotationSpeed (example_frame\<lparr>rotationSpeed := 0\<rparr>) \<noteq> rotationSpeed example_frame"
    by (simp add: r)
  then have c: "example_frame\<lparr>rotationSpeed := 0\<rparr> \<noteq> example_frame" by metis
  let ?ps = "no_settings\<lparr>opt_subsetCount := Some 0\<rparr>"
  have wf: "nat (numSubsets example_frame) \<le> length (subsets (orbit example_frame))"
    by (simp add: example_frame_fields(1) example_frame_subsets_length)
  have d: "\<exists>s1 s2. setLevelSubsetCount example_frame ?ps = Inr s1 \<and>
      setLevelSubsetCount example_frame no_settings = Inr s2 \<and>
      numSubsets s1 = numSubsets s2 \<and>
      par_a (orbitParams s1) = 15 \<and> par_a (orbitParams s2) = 0"
  proof (rule reconcile_settled[OF wf])
    fix st1
    assume r0: "reconcile example_frame = Inr st1" and fr0: "frame_sets example_frame st1"
    note f0 = frame_sets_fields[OF fr0]
    have regen: "opt_subsetCount ?ps \<noteq> None \<or> opt_pointsPerSubset ?ps \<noteq> None" by simp
    have n0: "0 \<le> js_or (opt_subsetCount ?ps) (numSubsets example_frame)"
      by (simp add: js_or_def example_frame_fields(1))
    show ?thesis
    proof (rule setLevelSubsetCount_regenerate[OF regen n0])
      fix st2 st3
      assume res: "setLevelSubsetCount example_frame ?ps = Inr (fireSettingsChange st3)"
        and n2: "numSubsets st2 = js_or (opt_subsetCount ?ps) (numSubsets example_frame)"
        and par: "orbitParams st2 = orbitParams (shuffleParams example_frame)"
        and fr: "frame_sets st2 st3"
      note f = frame_sets_fields[OF fr]
      have p1: "par_a (orbitParams (fireSettingsChange st3)) = 15"
        by (simp add: fireSettingsChange_def f par)
           (simp add: shuffleParams_def Math_random_def Let_def example_frame_def example_instance_def
              initOrbit_def initial_fields_def A_MIN_def A_MAX_def)
      have p2: "par_a (orbitParams (fireSettingsChange st1)) = 0"
        by (simp add: fireSettingsChange_def f0)
           (simp add: example_frame_def example_instance_def initOrbit_def initial_fields_def)
      have nn: "numSubsets (fireSettingsChange st3) = numSubsets (fireSettingsChange st1)"
        by (simp add: fireSettingsChange_def f f0 n2 js_or_def)
      have s2: "setLevelSubsetCount example_frame no_settings = Inr (fireSettingsChange st1)"
        by (simp add: setLevelSubsetCount_nothing r0)
      show ?thesis
        by (rule exI[of _ "fireSettingsChange st3"], rule exI[of _ "fireSettingsChange st1"])
           (intro conjI res s2 nn p1 p2)
    qed
  qed
  show ?thesis by (intro conjI r a b c d)
qed

text \<open>
  Claim C8. Let the orbit have at least \<open>numSubsets\<close> subsets, so that the
  reconciliation of lines 237-257 returns. Invoked a second time with the same counts it
  returns the very state it was given: nothing is removed from the scene, no particle
  set is created and none is changed. In the first call the particle sets whose level
  and subset are in range are kept as they are, in their order, ahead of the ones
  created. So \<open>setLevelSubsetCount({})\<close> called twice in a row changes nothing in its
  second call but the list of calls to the settings callback.
\<close>

theorem reconcile_idempotent:
  assumes "nat (numSubsets st) \<le> length (subsets (orbit st))"
  shows "\<exists>st1 new.
           reconcile st = Inr st1 \<and> reconcile st1 = Inr st1 \<and>
           numLevels st1 = numLevels st \<and> numSubsets st1 = numSubsets st \<and>
           particleSets st1 =
             filter (\<lambda>p. myLevel p < numLevels st \<and> mySubset p < numSubsets st) (particleSets st) @ new \<and>
           setLevelSubsetCount st no_settings = Inr (fireSettingsChange st1) \<and>
           setLevelSubsetCount (fireSettingsChange st1) no_settings
             = Inr (fireSettingsChange (fireSettingsChange st1))"
proof (rule reconcile_settled[OF assms])
  fix st1 new
  assume r: "reconcile st = Inr st1" and fr: "frame_sets st st1"
    and ps: "particleSets st1 = filter (in_range st) (particleSets st) @ new"
    and all_in: "list_all (in_range st1) (particleSets st1)"
    and complete: "set (List.product [0..numLevels st1 - 1] [0..numSubsets st1 - 1])
                     \<subseteq> set (map set_key (particleSets st1))"
  note f = frame_sets_fields[OF fr]
  have wf1: "nat (numSubsets st1) \<le> length (subsets (orbit st1))" using assms by (simp add: f)
  have r1: "reconcile st1 = Inr st1" by (rule reconcile_fixed[OF wf1 all_in complete])
  have ir: "in_range st = (\<lambda>p. myLevel p < numLevels st \<and> mySubset p < numSubsets st)"
    by (simp add: in_range_def fun_eq_iff)
  have s1: "setLevelSubsetCount st no_settings = Inr (fireSettingsChange st1)"
    by (simp add: setLevelSubsetCount_nothing r)
  have s2: "setLevelSubsetCount (fireSettingsChange st1) no_settings
             = Inr (fireSettingsChange (fireSettingsChange st1))"
    by (simp add: setLevelSubsetCount_nothing reconcile_fixed_fire[OF wf1 all_in complete])
  show ?thesis
    by (rule exI[of _ st1], rule exI[of _ new]) (intro conjI r r1 f(2) f(3) ps[unfolded ir] s1 s2)
qed

theorem reconcile_idempotent_witness:
  "nat (numSubsets example_frame) \<le> length (subsets (orbit example_frame)) \<and>
   (\<exists>st1 new.
      reconcile example_frame = Inr st1 \<and> reconcile st1 = Inr st1 \<and>
      numLevels st1 = 7 \<and> numSubsets st1 = 1 \<and>
      particleSets st1 = hd (particleSets example_frame) # new \<and>
      setLevelSubsetCount example_frame no_settings = Inr (fireSettingsChange st1) \<and>
      setLevelSubsetCount (fireSettingsChange st1) no_settings
        = Inr (fireSettingsChange (fireSettingsChange st1)))"
proof -
  have wf: "nat (numSubsets example_frame) \<le> length (subsets (orbit example_frame))"
    by (simp add: example_frame_fields(1) example_frame_subsets_length)
  from reconcile_idempotent[OF wf] obtain st1 new where
    r: "reconcile example_frame = Inr st1" "reconcile st1 = Inr st1"
    and n: "numLevels st1 = numLevels example_frame" "numSubsets st1 = numSubsets example_frame"
    and ps: "particleSets st1 =
             filter (\<lambda>p. myLevel p < numLevels example_frame \<and> mySubset p < numSubsets example_frame)
               (particleSets example_frame) @ new"
    and s: "setLevelSubsetCount example_frame no_settings = Inr (fireSettingsChange st1)"
      "setLevelSubsetCount (fireSettingsChange st1) no_settings
        = Inr (fireSettingsChange (fireSettingsChange st1))"
    by (elim exE conjE) (rule that)
  have n': "numLevels st1 = 7" "numSubsets st1 = 1" using n by (simp_all add: example_frame_fields(1,3))
  have ps': "particleSets st1 = hd (particleSets example_frame) # new"
    using ps by (simp add: example_frame_fields(1,3) example_frame_sets)
  show ?thesis
    by (rule conjI[OF wf], rule exI[of _ st1], rule exI[of _ new]) (intro conjI r n' ps' s)
qed

text \<open>
  Claim C9. For subset index 0 the seed \<open>s * 0.005 * (0.5 - r)\<close> is 0 whatever value
  \<open>r\<close> is drawn, so subset 0 starts at \<open>(0, 0)\<close>: after \<open>generateOrbit(S, N)\<close> with
  \<open>S \<ge> 1\<close> on an instance whose orbit has \<open>S\<close> subsets of \<open>N\<close> points, the raw points
  of subset 0 are the first \<open>N\<close> iterates of \<open>hopalong\<close> from \<open>(0, 0)\<close> under the
  parameters \<open>a, b, c\<close> drawn. They are a function of \<open>(a, b, c)\<close> and \<open>N\<close> alone, hence
  the same in every regeneration that draws the same parameters.
\<close>

theorem first_subset_starts_at_origin:
  assumes sh: "orbit_shape (subsets (orbit st)) S N" and S1: "1 \<le> S" and ns: "numSubsets st \<le> S"
  shows "subset_seed 0 r = 0 \<and>
         (\<exists>st'. generateOrbit st S N = Inr st' \<and>
            map raw (subsets (orbit st') ! 0) =
              hop_iterates (nat N) (par_a (orbitParams st')) (par_b (orbitParams st'))
                (par_c (orbitParams st')) (0, 0))"
proof
  show "subset_seed 0 r = 0" by (simp add: subset_seed_def)
  show "\<exists>st'. generateOrbit st S N = Inr st' \<and>
            map raw (subsets (orbit st') ! 0) =
              hop_iterates (nat N) (par_a (orbitParams st')) (par_b (orbitParams st'))
                (par_c (orbitParams st')) (0, 0)"
  proof (rule generateOrbit_wf[OF sh ns])
    fix st'
    assume gen: "generateOrbit st S N = Inr st'"
      and rw: "1 \<le> S \<Longrightarrow> map raw (subsets (orbit st') ! 0) =
           hop_iterates (nat N) (par_a (orbitParams st')) (par_b (orbitParams st'))
             (par_c (orbitParams st')) (0, 0)"
    show ?thesis by (rule exI[of _ st']) (intro conjI gen rw[OF S1])
  qed
qed

theorem first_subset_starts_at_origin_witness:
  "orbit_shape (subsets (orbit example_instance)) 1 2 \<and> (1::int) \<le> 1 \<and>
   numSubsets example_instance \<le> 1 \<and>
   subset_seed 0 (3 / 4) = 0 \<and>
   (\<exists>st'. generateOrbit example_instance 1 2 = Inr st' \<and>
      map raw (subsets (orbit st') ! 0) =
        hop_iterates (nat 2) (par_a (orbitParams st')) (par_b (orbitParams st'))
          (par_c (orbitParams st')) (0, 0))"
  using first_subset_starts_at_origin[OF example_instance_shape, of "3 / 4"]
    example_instance_shape
  by (simp add: example_instance_fields)

text \<open>
  Claim C10. \<open>recenterCamera\<close> sets the camera's x and y and the stored mouse x and y
  to 0, sets \<open>mouseLocked\<close> and calls the settings callback once, with settings that
  report the lock. Any sequence of mouse-move, touch-start and touch-move events after
  it leaves the state, hence \<open>mouseX\<close> and \<open>mouseY\<close>, as it is; the same holds after a
  gamepad connects, which recenters the camera (as the C key does, which calls
  \<open>recenterCamera\<close> directly). Once the lock is cleared a mouse move updates the
  stored mouse position again.
\<close>

theorem recenterCamera_locks_mouse:
  "cam_x (camera (recenterCamera st)) = 0 \<and> cam_y (camera (recenterCamera st)) = 0 \<and>
   mouseX (recenterCamera st) = 0 \<and> mouseY (recenterCamera st) = 0 \<and>
   mouseLocked (recenterCamera st) \<and>
   settingsUpdates (recenterCamera st) = settingsUpdates st @ [getSettings (recenterCamera st)] \<and>
   set_mouseLocked (getSettings (recenterCamera st)) \<and>
   fold pointer evs (recenterCamera st) = recenterCamera st \<and>
   mouseX (fold pointer evs (recenterCamera st)) = 0 \<and>
   mouseY (fold pointer evs (recenterCamera st)) = 0 \<and>
   mouseLocked (onControllerConnected st) \<and>
   fold pointer evs (onControllerConnected st) = onControllerConnected st \<and>
   onDocumentMouseMove (setMouseLock (recenterCamera st) (Some False)) clientX clientY =
     (setMouseLock (recenterCamera st) (Some False))
       \<lparr>mouseX := clientX - windowHalfX st, mouseY := clientY - windowHalfY st\<rparr>"
proof -
  have l: "mouseLocked (recenterCamera st)" by (rule recenterCamera_locked)
  have lc: "mouseLocked (onControllerConnected st)"
    by (simp add: onControllerConnected_def initGamepadMode_def recenterCamera_locked)
  have f: "fold pointer evs (recenterCamera st) = recenterCamera st" by (rule pointers_locked[OF l])
  have fc: "fold pointer evs (onControllerConnected st) = onControllerConnected st"
    by (rule pointers_locked[OF lc])
  have rest: "cam_x (camera (recenterCamera st)) = 0" "cam_y (camera (recenterCamera st)) = 0"
    "mouseX (recenterCamera st) = 0" "mouseY (recenterCamera st) = 0"
    "settingsUpdates (recenterCamera st) = settingsUpdates st @ [getSettings (recenterCamera st)]"
    "set_mouseLocked (getSettings (recenterCamera st))"
    by (simp_all add: recenterCamera_def setMouseLock_def fireSettingsChange_def getSettings_def)
  have un: "onDocumentMouseMove (setMouseLock (recenterCamera st) (Some False)) clientX clientY =
     (setMouseLock (recenterCamera st) (Some False))
       \<lparr>mouseX := clientX - windowHalfX st, mouseY := clientY - windowHalfY st\<rparr>"
    by (simp add: onDocumentMouseMove_def recenterCamera_def setMouseLock_def fireSettingsChange_def)
  show ?thesis
    unfolding f fc by (intro conjI l lc rest un refl)
qed

end
